(* ===== verification/Prelude.thy ===== *)
theory Prelude
  imports Main "HOL-Library.Word"
begin

section \<open>Shared notions\<close>

text \<open>
  What every component theory shares: the collections of facts the proofs are run with,
  the C++ memory idiom \<^verbatim>\<open>memcpy (dst + off, src, n)\<close> on a block of known size as a
  list operation, the longest suffix of bounded length, and the type names of the model.
  \<^item> \<open>splice blk off src\<close> is the block \<open>blk\<close> after \<open>src\<close> has been copied over the
    positions \<open>off ..< off + length src\<close>; like \<^verbatim>\<open>memcpy\<close> it only has a meaning where
    the range lies inside the block, and every use in the model is under such a guard.
  \<^item> \<open>lastn k xs\<close> is what remains of \<open>xs\<close> when elements are shifted off its front until at
    most \<open>k\<close> are left.
\<close>

named_theorems model_defs \<open>definitions of the operations of a component, for unfolding\<close>
named_theorems inv_intros \<open>an operation keeps the component's invariant\<close>

type_synonym byte = "8 word"
type_synonym bytes = "8 word list"
type_synonym u16 = "16 word"
type_synonym u32 = "32 word"
type_synonym u64 = "64 word"

definition splice :: "'a list \<Rightarrow> nat \<Rightarrow> 'a list \<Rightarrow> 'a list" where
  "splice blk off src = take off blk @ src @ drop (off + length src) blk"

definition lastn :: "nat \<Rightarrow> 'a list \<Rightarrow> 'a list" where
  "lastn k xs = drop (length xs - k) xs"

subsection \<open>Copying into a block\<close>

lemma length_splice [simp]:
  "off + length src \<le> length blk \<Longrightarrow> length (splice blk off src) = length blk"
  by (simp add: splice_def)

lemma splice_Nil [simp]: "splice blk off [] = blk"
  by (simp add: splice_def)

lemma nth_splice:
  assumes "off + length src \<le> length blk" and "i < length blk"
  shows "splice blk off src ! i =
    (if off \<le> i \<and> i < off + length src then src ! (i - off) else blk ! i)"
  using assms by (auto simp: splice_def nth_append min_def)

lemma take_splice_before:
  "n \<le> off \<Longrightarrow> off \<le> length blk \<Longrightarrow> take n (splice blk off src) = take n blk"
  by (simp add: splice_def min_def)

lemma take_splice_all:
  "off \<le> length blk \<Longrightarrow> take (off + length src) (splice blk off src) = take off blk @ src"
  by (simp add: splice_def min_def)

subsection \<open>The last elements of a list\<close>

lemma length_lastn [simp]: "length (lastn k xs) = min k (length xs)"
  by (simp add: lastn_def min_def)

lemma lastn_short [simp]: "length xs \<le> k \<Longrightarrow> lastn k xs = xs"
  by (simp add: lastn_def)

lemma lastn_snoc_step:
  "lastn k (xs @ [x]) =
     (if k < length (lastn k xs @ [x]) then tl (lastn k xs @ [x]) else lastn k xs @ [x])"
proof (cases "length xs < k")
  case True
  then show ?thesis by (simp add: lastn_def)
next
  case False
  then have k: "k \<le> length xs" by simp
  show ?thesis
  proof (cases "k = 0")
    case True
    then show ?thesis by (simp add: lastn_def)
  next
    case False
    then obtain j where j: "k = Suc j" by (cases k) auto
    with k have "drop (length xs - k) xs \<noteq> []" by simp
    moreover have "tl (drop (length xs - k) xs) = drop (Suc (length xs) - k) xs"
      using k j by (metis Suc_diff_Suc Suc_le_lessD diff_Suc_Suc drop_Suc tl_drop)
    ultimately show ?thesis
      using k by (simp add: lastn_def min_def)
  qed
qed

subsection \<open>Positions modulo a capacity\<close>

lemma mod_wrap: "c \<le> m \<Longrightarrow> m < 2 * c \<Longrightarrow> m mod c = m - c" for m c :: nat
  by (simp add: le_mod_geq)

subsection \<open>Lists\<close>

lemma take_append_drop_add: "take n (drop m xs) @ drop (m + n) xs = drop m xs"
  by (metis append_take_drop_id drop_drop add.commute)

lemma drop_append_le: "n \<le> length xs \<Longrightarrow> drop n (xs @ ys) = drop n xs @ ys"
  by simp

end
