(* ===== verification/Js_Number.thy ===== *)
theory Js_Number
  imports Complex_Main "HOL-Library.Log_Nat"
begin

section \<open>The numbers of the browser script\<close>

text \<open>
  JavaScript has one number type, the IEEE 754 binary64 format. A \<open>jsnum\<close> is \<open>NaN\<close>, an
  infinity (\<open>Infinity True\<close> is the negative one) or a finite value, kept as the rational number it
  denotes. Each arithmetic operator is the exact operation on rationals followed by
  \<open>round_double\<close>, the rounding to nearest with ties to even that the language prescribes,
  subnormals and overflow to an infinity included. The one thing not represented is the sign of
  zero, which the script cannot observe: it never divides by a value that can be \<open>-0\<close>, and
  \<^verbatim>\<open>toFixed\<close> renders both zeros alike.

  The lemmas show that integers up to \<open>2 ^ 53\<close> are computed exactly, which is what makes the
  byte counter of the script a counter.
\<close>

datatype jsnum = NaN | Infinity bool | Num rat

definition pow2 :: "int \<Rightarrow> rat" where
  "pow2 k = (if 0 \<le> k then 2 ^ nat k else 1 / 2 ^ nat (- k))"

definition ilog2 :: "rat \<Rightarrow> int" where
  "ilog2 x = (case quotient_of x of (p, q) \<Rightarrow>
     (let k = int (floorlog 2 (nat p)) - int (floorlog 2 (nat q))
      in if pow2 k \<le> x then k else k - 1))"

definition round_half_even :: "rat \<Rightarrow> int" where
  "round_half_even x =
     (let f = \<lfloor>x\<rfloor>; d = x - of_int f
      in if d < 1 / 2 then f else if 1 / 2 < d then f + 1 else if even f then f else f + 1)"

definition round_double :: "rat \<Rightarrow> jsnum" where
  "round_double x =
     (if x = 0 then Num 0
      else let a = \<bar>x\<bar>; e = max (ilog2 a - 52) (- 1074);
               y = of_int (round_half_even (a / pow2 e)) * pow2 e
           in if 2 ^ 1024 \<le> y then Infinity (x < 0) else Num (if x < 0 then - y else y))"

fun js_neg :: "jsnum \<Rightarrow> jsnum" where
  "js_neg NaN = NaN"
| "js_neg (Infinity s) = Infinity (\<not> s)"
| "js_neg (Num x) = Num (- x)"

fun js_add :: "jsnum \<Rightarrow> jsnum \<Rightarrow> jsnum" where
  "js_add NaN y = NaN"
| "js_add x NaN = NaN"
| "js_add (Infinity s) (Infinity t) = (if s = t then Infinity s else NaN)"
| "js_add (Infinity s) (Num y) = Infinity s"
| "js_add (Num x) (Infinity t) = Infinity t"
| "js_add (Num x) (Num y) = round_double (x + y)"

definition js_sub :: "jsnum \<Rightarrow> jsnum \<Rightarrow> jsnum" where
  "js_sub x y = js_add x (js_neg y)"

fun js_mul :: "jsnum \<Rightarrow> jsnum \<Rightarrow> jsnum" where
  "js_mul NaN y = NaN"
| "js_mul x NaN = NaN"
| "js_mul (Infinity s) (Infinity t) = Infinity (s \<noteq> t)"
| "js_mul (Infinity s) (Num y) = (if y = 0 then NaN else Infinity (s \<noteq> (y < 0)))"
| "js_mul (Num x) (Infinity t) = (if x = 0 then NaN else Infinity ((x < 0) \<noteq> t))"
| "js_mul (Num x) (Num y) = round_double (x * y)"

fun js_div :: "jsnum \<Rightarrow> jsnum \<Rightarrow> jsnum" where
  "js_div NaN y = NaN"
| "js_div x NaN = NaN"
| "js_div (Infinity s) (Infinity t) = NaN"
| "js_div (Infinity s) (Num y) = Infinity (s \<noteq> (y < 0))"
| "js_div (Num x) (Infinity t) = Num 0"
| "js_div (Num x) (Num y) =
     (if y = 0 then (if x = 0 then NaN else Infinity (x < 0)) else round_double (x / y))"

subsection \<open>Rounding is exact on the integers of the format\<close>

lemma pow2_pos [simp]: "0 < pow2 k"
  by (simp add: pow2_def)

lemma pow2_add: "pow2 (a + b) = pow2 a * pow2 b"
proof -
  have "pow2 k = 2 powi k" for k
    by (auto simp: pow2_def power_int_def field_simps)
  then show ?thesis by (simp add: power_int_add)
qed

lemma floorlog_bounds_rat:
  assumes "0 < n"
  shows "(2 :: rat) ^ (floorlog 2 n - 1) \<le> of_nat n" and "of_nat n < (2 :: rat) ^ floorlog 2 n"
proof -
  from floorlog_bounds [of n 2] assms
  have "2 ^ (floorlog 2 n - 1) \<le> n" and "n < 2 ^ floorlog 2 n" by auto
  then have "of_nat (2 ^ (floorlog 2 n - 1)) \<le> (of_nat n :: rat)"
    and "of_nat n < (of_nat (2 ^ floorlog 2 n) :: rat)"
    by (simp_all only: of_nat_le_iff of_nat_less_iff)
  then show "(2 :: rat) ^ (floorlog 2 n - 1) \<le> of_nat n" "of_nat n < (2 :: rat) ^ floorlog 2 n"
    by (simp_all only: of_nat_power of_nat_numeral)
qed

lemma floorlog_pos: "0 < n \<Longrightarrow> 1 \<le> floorlog 2 n"
  by (simp add: floorlog_def)

lemma pow2_nat: "pow2 (int n) = 2 ^ n"
  by (simp add: pow2_def)

lemma pow2_nat_minus_1: "1 \<le> n \<Longrightarrow> pow2 (int n - 1) = 2 ^ (n - 1)"
  by (simp add: pow2_def nat_diff_distrib)

lemma pow2_minus: "pow2 (a - b) = pow2 a / pow2 b"
proof -
  have "pow2 a = pow2 (a - b) * pow2 b"
    by (simp flip: pow2_add)
  then show ?thesis
    by (metis pow2_pos less_irrefl nonzero_mult_div_cancel_right)
qed

text \<open>\<open>ilog2\<close> is the exponent of the binade its argument lies in.\<close>

lemma ilog2_bounds:
  assumes "0 < x"
  shows "pow2 (ilog2 x) \<le> x" and "x < pow2 (ilog2 x + 1)"
proof -
  obtain p q where pq: "quotient_of x = (p, q)" by (cases "quotient_of x")
  then have q: "0 < q" by (rule quotient_of_denom_pos)
  have x: "x = of_int p / of_int q" using pq by (rule quotient_of_div)
  have p: "0 < p" using assms x q by (simp add: zero_less_divide_iff)
  define a where "a = floorlog 2 (nat p)"
  define b where "b = floorlog 2 (nat q)"
  have ab: "1 \<le> a" "1 \<le> b"
    using p q floorlog_pos [of "nat p"] floorlog_pos [of "nat q"] by (simp_all add: a_def b_def)
  have pa: "pow2 (int a - 1) \<le> of_int p" "of_int p < pow2 (int a)"
    using floorlog_bounds_rat [of "nat p"] p ab(1)
    by (simp_all only: pow2_nat_minus_1 pow2_nat a_def of_nat_nat less_imp_le zero_less_nat_eq)
  have qb: "pow2 (int b - 1) \<le> of_int q" "of_int q < pow2 (int b)"
    using floorlog_bounds_rat [of "nat q"] q ab(2)
    by (simp_all only: pow2_nat_minus_1 pow2_nat b_def of_nat_nat less_imp_le zero_less_nat_eq)
  have lo: "pow2 (int a - int b - 1) \<le> x"
  proof -
    have "pow2 (int a - 1) / pow2 (int b) \<le> of_int p / of_int q"
      using pa(1) qb(2) q p by (intro frac_le) auto
    then show ?thesis by (simp add: x flip: pow2_minus) (simp add: algebra_simps)
  qed
  have hi: "x < pow2 (int a - int b + 1)"
  proof -
    have "of_int p / of_int q < pow2 (int a) / pow2 (int b - 1)"
      using pa(2) qb(1) p by (intro frac_less) auto
    then show ?thesis by (simp add: x flip: pow2_minus) (simp add: algebra_simps)
  qed
  have il: "ilog2 x = (if pow2 (int a - int b) \<le> x then int a - int b else int a - int b - 1)"
    by (simp add: ilog2_def pq a_def b_def Let_def)
  show "pow2 (ilog2 x) \<le> x" using lo by (simp add: il)
  show "x < pow2 (ilog2 x + 1)" using hi by (simp add: il)
qed

lemma round_half_even_of_int [simp]: "round_half_even (of_int n) = n"
  by (simp add: round_half_even_def)

lemma ilog2_le:
  assumes "0 < x" and "x < 2 ^ Suc n"
  shows "ilog2 x \<le> int n"
proof (rule ccontr)
  assume "\<not> ilog2 x \<le> int n"
  then have "pow2 (int (Suc n)) \<le> pow2 (ilog2 x)"
    by (simp add: pow2_def power_increasing nat_le_iff)
  also have "\<dots> \<le> x" using assms(1) by (rule ilog2_bounds)
  finally show False using assms(2) pow2_nat [of "Suc n"] by linarith
qed

lemma pow2_int_mult:
  assumes "e \<le> 0"
  shows "(of_int n :: rat) / pow2 e = of_int (n * 2 ^ nat (- e))"
proof -
  have "pow2 e = 1 / 2 ^ nat (- e)"
    using assms by (cases "e = 0") (simp_all add: pow2_def)
  then show ?thesis by simp
qed

lemma round_double_pos_int:
  assumes "0 < n" and "n < 2 ^ 53"
  shows "round_double (of_int n) = Num (of_int n)"
proof -
  define e where "e = max (ilog2 (of_int n) - 52) (- 1074)"
  have n: "(0 :: rat) < of_int n" "of_int n < (2 :: rat) ^ Suc 52"
    using assms of_int_less_iff [where 'a = rat, of n "2 ^ 53"] by simp_all
  have "ilog2 (of_int n) \<le> 52" using ilog2_le [OF n] by simp
  then have e: "e \<le> 0" by (simp add: e_def)
  have "of_int (round_half_even (of_int n / pow2 e)) * pow2 e = of_int n / pow2 e * pow2 e"
    using e by (simp only: pow2_int_mult round_half_even_of_int)
  also have "\<dots> = of_int n" by (simp add: less_imp_neq [OF pow2_pos, symmetric])
  finally have y: "of_int (round_half_even (of_int n / pow2 e)) * pow2 e = of_int n" .
  have "(of_int n :: rat) < 2 ^ 1024"
    using n(2) by (rule less_trans) (rule power_strict_increasing, simp_all)
  with n(1) have "\<not> 2 ^ 1024 \<le> (of_int n :: rat)" "of_int n \<noteq> (0 :: rat)" "\<not> of_int n < (0 :: rat)"
    "\<bar>of_int n\<bar> = (of_int n :: rat)"
    by (auto simp only: not_le)
  with y show ?thesis
    by (simp only: round_double_def Let_def e_def [symmetric] if_False)
qed

text \<open>Below \<open>2 ^ 53\<close> addition and multiplication of counters are exact.\<close>

lemma round_double_nat:
  assumes "n < 2 ^ 53"
  shows "round_double (of_nat n) = Num (of_nat n)"
proof (cases "n = 0")
  case True
  then show ?thesis by (simp add: round_double_def)
next
  case False
  then show ?thesis
    using round_double_pos_int [of "int n"] assms by simp
qed

lemma js_add_nat: "m + n < 2 ^ 53 \<Longrightarrow> js_add (Num (of_nat m)) (Num (of_nat n)) = Num (of_nat (m + n))"
  using round_double_nat [of "m + n"] by simp

lemma round_double_0 [simp]: "round_double 0 = Num 0"
  by (simp add: round_double_def)

subsection \<open>Text: string values and \<open>toFixed\<close>\<close>

text \<open>
  A JavaScript string is a sequence of UTF-16 code units, a list of numbers here. What the script
  writes into the page is a sequence of pieces: units, or a number left to the language's
  number-to-string conversion (\<open>NumStr\<close>), which the script applies to the latency and
  \<^verbatim>\<open>toFixed\<close> applies to magnitudes from \<open>10 ^ 21\<close> on.
\<close>

type_synonym jsstring = "nat list"

datatype tpart = Chars jsstring | NumStr jsnum

type_synonym dom_text = "tpart list"

definition asc :: "string \<Rightarrow> jsstring" where
  "asc s = map of_char s"

fun nat_to_dec :: "nat \<Rightarrow> jsstring" where
  "nat_to_dec n = (if n < 10 then [n + 48] else nat_to_dec (n div 10) @ [n mod 10 + 48])"

declare nat_to_dec.simps [simp del]

definition fixed2_digits :: "nat \<Rightarrow> jsstring" where
  "fixed2_digits n = nat_to_dec (n div 100) @ [46, n div 10 mod 10 + 48, n mod 10 + 48]"

fun toFixed2 :: "jsnum \<Rightarrow> dom_text" where
  "toFixed2 NaN = [Chars (asc ''NaN'')]"
| "toFixed2 (Infinity s) = [Chars (asc (if s then ''-Infinity'' else ''Infinity''))]"
| "toFixed2 (Num x) =
     (let a = \<bar>x\<bar>; sign = (if x < 0 then [Chars (asc ''-'')] else [])
      in if 10 ^ 21 \<le> a then sign @ [NumStr (Num a)]
         else sign @ [Chars (fixed2_digits (nat \<lfloor>a * 100 + 1 / 2\<rfloor>))])"

lemma toFixed2_zero: "toFixed2 (Num 0) = [Chars (asc ''0.00'')]"
  by (simp add: fixed2_digits_def nat_to_dec.simps asc_def)

end
