(* ===== verification/Speedtest_Client.thy ===== *)
theory Speedtest_Client
  imports Prelude Js_Number
begin

section \<open>The browser client (\<^verbatim>\<open>examples/public/js/speedtest.js\<close>)\<close>

text \<open>
  The script is a set of global variables, two functions (\<open>startTest\<close>, \<open>stopTest\<close>) and the
  handlers they install on \<^verbatim>\<open>WebSocket\<close> objects, buttons and a timer. The model keeps the globals in
  the record \<open>client\<close>, with the browser objects the script creates beside them: the sockets in
  creation order (the global \<^verbatim>\<open>ws\<close> is an index into them, \<open>ws_ref\<close>), the chart, the page elements
  the script writes and the number of interval timers it has started. A handler is a function
  from the state to the new state and, where a statement of it can throw, the exception that ends
  it; \<^verbatim>\<open>Date.now()\<close> is the argument \<open>now\<close>. \<open>client_step\<close> is the browser: it fires the handlers in any
  order the \<^verbatim>\<open>WebSocket\<close> state machine, the enabled buttons and the started timers allow.
  \<^verbatim>\<open>location.host\<close> is the parameter \<open>host\<close>.

  The array the chart plots is the script's own \<^verbatim>\<open>speedData\<close> array; both are replaced or updated
  in the same handler, so the model keeps their contents as two equal lists between events.
\<close>

datatype ready_state = CONNECTING | OPEN | CLOSING | CLOSED

datatype ws_data = StrData jsstring | BinData nat

datatype js_exn = TypeError | InvalidStateError

record socket =
  url :: jsstring
  binaryType :: jsstring
  readyState :: ready_state
  sent :: "jsstring list"

record line_chart =
  ch_type :: jsstring
  ch_label :: jsstring
  ch_borderColor :: jsstring
  ch_fill :: bool
  ch_responsive :: bool
  ch_beginAtZero :: bool
  ch_labels :: "nat list"
  ch_data :: "jsnum list"
  ch_updates :: nat

record page =
  statusText :: dom_text
  startBtn_disabled :: bool
  stopBtn_disabled :: bool
  startBtn_onclick :: bool
  stopBtn_onclick :: bool
  latency :: dom_text
  downloadSpeed :: dom_text
  log_html :: dom_text

record client =
  ws_ref :: "nat option"
  sockets :: "socket list"
  isTesting :: bool
  totalBytes :: jsnum
  startTime :: jsnum
  packetSeq :: jsnum
  receivedSeq :: jsnum
  lostCount :: jsnum
  pingStart :: jsnum
  chart :: "line_chart option"
  speedData :: "jsnum list"
  dom :: page
  intervals :: nat
  console :: "dom_text list"

definition client_init :: "page \<Rightarrow> client" where
  "client_init d = \<lparr>ws_ref = None, sockets = [], isTesting = False, totalBytes = Num 0,
     startTime = Num 0, packetSeq = Num 0, receivedSeq = Num 0, lostCount = Num 0,
     pingStart = Num 0, chart = None, speedData = [],
     dom = d\<lparr>startBtn_onclick := False, stopBtn_onclick := False\<rparr>, intervals = 0, console = []\<rparr>"

definition window_onload :: "client \<Rightarrow> client" where
  "window_onload c = c\<lparr>chart := Some \<lparr>ch_type = asc ''line'',
       ch_label = [0x901F, 0x7387] @ asc '' (Mbps)'', ch_borderColor = asc ''#2ecc71'',
       ch_fill = False, ch_responsive = True, ch_beginAtZero = True,
       ch_labels = [], ch_data = [], ch_updates = 0\<rparr>,
     dom := (dom c)\<lparr>startBtn_onclick := True, stopBtn_onclick := True\<rparr>\<rparr>"

text \<open>
  The \<^verbatim>\<open>WebSocket\<close> methods: \<^verbatim>\<open>close()\<close> starts the closing handshake of a socket that is connecting or
  open and does nothing otherwise; \<^verbatim>\<open>send()\<close> throws on a connecting socket, queues the message on an
  open one and drops it on one that is closing or closed.
\<close>

definition set_state :: "nat \<Rightarrow> ready_state \<Rightarrow> client \<Rightarrow> client" where
  "set_state i s c = c\<lparr>sockets := (sockets c)[i := (sockets c ! i)\<lparr>readyState := s\<rparr>]\<rparr>"

definition ws_close :: "nat \<Rightarrow> client \<Rightarrow> client" where
  "ws_close i c =
     (if readyState (sockets c ! i) = CONNECTING \<or> readyState (sockets c ! i) = OPEN
      then set_state i CLOSING c else c)"

definition ws_send :: "jsstring \<Rightarrow> client \<Rightarrow> client \<times> js_exn option" where
  "ws_send msg c = (case ws_ref c of
     None \<Rightarrow> (c, Some TypeError)
   | Some i \<Rightarrow> (case readyState (sockets c ! i) of
       CONNECTING \<Rightarrow> (c, Some InvalidStateError)
     | OPEN \<Rightarrow> (c\<lparr>sockets := (sockets c)[i := (sockets c ! i)
                 \<lparr>sent := sent (sockets c ! i) @ [msg]\<rparr>]\<rparr>, None)
     | _ \<Rightarrow> (c, None)))"

definition speed_mbps :: "jsnum \<Rightarrow> jsnum \<Rightarrow> jsnum \<Rightarrow> jsnum" where
  "speed_mbps now since received =
     js_div (js_div (js_mul received (Num 8)) (js_div (js_sub now since) (Num 1000))) (Num 1000000)"

definition stopTest :: "jsnum \<Rightarrow> client \<Rightarrow> client" where
  "stopTest now c =
     (let c1 = c\<lparr>isTesting := False\<rparr>;
          c2 = (case ws_ref c1 of None \<Rightarrow> c1 | Some i \<Rightarrow> ws_close i c1);
          avgSpeed = speed_mbps now (startTime c2) (totalBytes c2);
          lossRate = js_mul (js_div (lostCount c2) (js_add (packetSeq c2) (Num 1))) (Num 100)
      in c2\<lparr>dom := (dom c2)\<lparr>statusText := [Chars [0x5DF2, 0x505C, 0x6B62]],
           startBtn_disabled := False, stopBtn_disabled := True,
           log_html := [Chars [0x6D4B, 0x8BD5, 0x5B8C, 0x6210, 0xFF0C, 0x5E73, 0x5747, 0x901F,
               0x7387], Chars (asc '' '')] @ toFixed2 avgSpeed @ [Chars (asc '' Mbps''),
               Chars [0xFF0C, 0x4E22, 0x5305, 0x7387], Chars (asc '' '')] @ toFixed2 lossRate @
               [Chars (asc ''%'')]\<rparr>\<rparr>)"

definition ping_interval :: "jsnum \<Rightarrow> client \<Rightarrow> client \<times> js_exn option" where
  "ping_interval now c =
     (if \<not> isTesting c then (c, None)
      else case ws_ref c of None \<Rightarrow> (c, Some TypeError)
      | Some i \<Rightarrow> if readyState (sockets c ! i) = OPEN
                  then ws_send (asc ''ping'') (c\<lparr>pingStart := now\<rparr>) else (c, None))"

definition ws_onopen :: "jsnum \<Rightarrow> client \<Rightarrow> client \<times> js_exn option" where
  "ws_onopen now c =
     (let c1 = c\<lparr>dom := (dom c)\<lparr>statusText := [Chars [0x5DF2, 0x8FDE, 0x63A5, 0xFF0C, 0x6D4B,
                   0x901F, 0x4E2D], Chars (asc ''...'')],
                 startBtn_disabled := True, stopBtn_disabled := False\<rparr>,
                 isTesting := True, totalBytes := Num 0, startTime := now, packetSeq := Num 0,
                 receivedSeq := Num 0, lostCount := Num 0, speedData := []\<rparr>
      in case chart c1 of None \<Rightarrow> (c1, Some TypeError)
         | Some ch \<Rightarrow>
             (case ws_send (asc ''start'') (c1\<lparr>chart := Some (ch\<lparr>ch_labels := [], ch_data := []\<rparr>)\<rparr>) of
                (c2, Some e) \<Rightarrow> (c2, Some e)
              | (c2, None) \<Rightarrow> (c2\<lparr>intervals := Suc (intervals c2)\<rparr>, None)))"

definition push_speed :: "jsnum list \<Rightarrow> jsnum \<Rightarrow> jsnum list" where
  "push_speed xs x = (let ys = xs @ [x] in if 60 < length ys then tl ys else ys)"

definition ws_onmessage :: "jsnum \<Rightarrow> ws_data \<Rightarrow> client \<Rightarrow> client \<times> js_exn option" where
  "ws_onmessage now data c = (case data of
     StrData s \<Rightarrow>
       if s = asc ''pong''
       then (c\<lparr>dom := (dom c)\<lparr>latency := [NumStr (js_sub now (pingStart c))]\<rparr>\<rparr>, None)
       else (c\<lparr>console := console c @ [[Chars s]]\<rparr>, None)
   | BinData byteLength \<Rightarrow>
       (let c1 = c\<lparr>totalBytes := js_add (totalBytes c) (Num (of_nat byteLength))\<rparr>;
            speedMbps = speed_mbps now (startTime c1) (totalBytes c1);
            c2 = c1\<lparr>dom := (dom c1)\<lparr>downloadSpeed := toFixed2 speedMbps\<rparr>,
                    speedData := push_speed (speedData c1) speedMbps\<rparr>
        in case chart c2 of None \<Rightarrow> (c2, Some TypeError)
           | Some ch \<Rightarrow> (c2\<lparr>chart := Some (ch\<lparr>ch_labels := [0..<length (speedData c2)],
                 ch_data := speedData c2, ch_updates := Suc (ch_updates ch)\<rparr>)\<rparr>, None)))"

definition ws_onclose :: "jsnum \<Rightarrow> client \<Rightarrow> client" where
  "ws_onclose now c = (if isTesting c then stopTest now c else c)"

definition ws_onerror :: "jsnum \<Rightarrow> dom_text \<Rightarrow> client \<Rightarrow> client" where
  "ws_onerror now e c = stopTest now (c\<lparr>console := console c @ [e]\<rparr>)"

definition startTest :: "jsstring \<Rightarrow> client \<Rightarrow> client" where
  "startTest host c =
     (let c1 = (case ws_ref c of None \<Rightarrow> c
                | Some i \<Rightarrow> if readyState (sockets c ! i) = OPEN then ws_close i c else c);
          s = \<lparr>url = asc ''ws://'' @ host @ asc ''/speedtest'', binaryType = asc ''arraybuffer'',
               readyState = CONNECTING, sent = []\<rparr>
      in c1\<lparr>sockets := sockets c1 @ [s], ws_ref := Some (length (sockets c1))\<rparr>)"

subsection \<open>The browser\<close>

inductive client_step :: "jsstring \<Rightarrow> client \<Rightarrow> client \<Rightarrow> bool" for host :: jsstring where
  page_load: "chart c = None \<Longrightarrow> client_step host c (window_onload c)"
| click_start: "startBtn_onclick (dom c) \<Longrightarrow> \<not> startBtn_disabled (dom c) \<Longrightarrow>
    client_step host c (startTest host c)"
| click_stop: "stopBtn_onclick (dom c) \<Longrightarrow> \<not> stopBtn_disabled (dom c) \<Longrightarrow>
    client_step host c (stopTest (Num (of_int now)) c)"
| sock_open: "i < length (sockets c) \<Longrightarrow> readyState (sockets c ! i) = CONNECTING \<Longrightarrow>
    client_step host c (fst (ws_onopen (Num (of_int now)) (set_state i OPEN c)))"
| sock_message: "i < length (sockets c) \<Longrightarrow> readyState (sockets c ! i) = OPEN \<Longrightarrow>
    client_step host c (fst (ws_onmessage (Num (of_int now)) data c))"
| sock_close: "i < length (sockets c) \<Longrightarrow> readyState (sockets c ! i) \<noteq> CLOSED \<Longrightarrow>
    client_step host c (ws_onclose (Num (of_int now)) (set_state i CLOSED c))"
| sock_fail: "i < length (sockets c) \<Longrightarrow> readyState (sockets c ! i) \<noteq> CLOSED \<Longrightarrow>
    client_step host c (ws_onclose (Num (of_int later))
      (ws_onerror (Num (of_int now)) e (set_state i CLOSED c)))"
| timer: "0 < intervals c \<Longrightarrow>
    client_step host c (fst (ping_interval (Num (of_int now)) c))"

inductive client_reachable :: "jsstring \<Rightarrow> page \<Rightarrow> client \<Rightarrow> bool" for host :: jsstring and d :: page where
  start: "client_reachable host d (client_init d)"
| step: "client_reachable host d c \<Longrightarrow> client_step host c c' \<Longrightarrow> client_reachable host d c'"

subsection \<open>The invariant of the script\<close>

text \<open>
  What holds between any two handlers: the loss counters are still zero, the history is the chart's
  data with labels \<open>0, 1, \<dots>\<close> and never longer than 60, \<^verbatim>\<open>ws\<close> is the newest socket, a running test has
  the start button disabled and the stop button enabled, and nothing exists before the page has
  loaded.
\<close>

definition client_inv :: "client \<Rightarrow> bool" where
  "client_inv c \<longleftrightarrow>
     packetSeq c = Num 0 \<and> receivedSeq c = Num 0 \<and> lostCount c = Num 0 \<and>
     length (speedData c) \<le> 60 \<and>
     (case chart c of None \<Rightarrow> sockets c = [] \<and> intervals c = 0 \<and> \<not> isTesting c \<and>
          \<not> startBtn_onclick (dom c) \<and> \<not> stopBtn_onclick (dom c) \<and> speedData c = []
      | Some ch \<Rightarrow> ch_data ch = speedData c \<and> ch_labels ch = [0..<length (speedData c)]) \<and>
     ws_ref c = (if sockets c = [] then None else Some (length (sockets c) - 1)) \<and>
     (isTesting c \<longrightarrow> sockets c \<noteq> [] \<and> startBtn_disabled (dom c) \<and> \<not> stopBtn_disabled (dom c))"

lemma client_inv_init [inv_intros]: "client_inv (client_init d)"
  by (simp add: client_inv_def client_init_def)

lemma client_inv_onload [inv_intros]:
  "client_inv c \<Longrightarrow> chart c = None \<Longrightarrow> client_inv (window_onload c)"
  by (auto simp: client_inv_def window_onload_def)

lemma client_inv_set_state [inv_intros]: "client_inv c \<Longrightarrow> client_inv (set_state i s c)"
  by (auto simp: client_inv_def set_state_def split: option.splits)

lemma client_inv_close [inv_intros]: "client_inv c \<Longrightarrow> client_inv (ws_close i c)"
  by (simp add: ws_close_def client_inv_set_state)

lemma client_inv_isTesting [inv_intros]: "client_inv c \<Longrightarrow> client_inv (c\<lparr>isTesting := False\<rparr>)"
  by (auto simp: client_inv_def split: option.splits)

lemma client_inv_console [inv_intros]: "client_inv c \<Longrightarrow> client_inv (c\<lparr>console := x\<rparr>)"
  by (auto simp: client_inv_def split: option.splits)

lemma ws_close_frame [simp]:
  "isTesting (ws_close i c) = isTesting c" "totalBytes (ws_close i c) = totalBytes c"
  "startTime (ws_close i c) = startTime c" "lostCount (ws_close i c) = lostCount c"
  "packetSeq (ws_close i c) = packetSeq c" "intervals (ws_close i c) = intervals c"
  "dom (ws_close i c) = dom c" "length (sockets (ws_close i c)) = length (sockets c)"
  "ws_ref (ws_close i c) = ws_ref c" "chart (ws_close i c) = chart c"
  by (simp_all add: ws_close_def set_state_def)

lemma client_inv_stop_dom:
  assumes "client_inv c" and "\<not> isTesting c"
  shows "client_inv (c\<lparr>dom := (dom c)\<lparr>statusText := a, startBtn_disabled := False,
    stopBtn_disabled := True, log_html := b\<rparr>\<rparr>)"
  using assms by (auto simp: client_inv_def split: option.splits)

lemma client_inv_stopTest [inv_intros]: "client_inv c \<Longrightarrow> client_inv (stopTest now c)"
  unfolding stopTest_def Let_def
  by (intro client_inv_stop_dom) (auto intro: inv_intros split: option.split)

lemma client_inv_send [inv_intros]: "client_inv c \<Longrightarrow> client_inv (fst (ws_send m c))"
  by (auto simp: client_inv_def ws_send_def split: option.splits ready_state.splits)

lemma client_inv_ping [inv_intros]: "client_inv c \<Longrightarrow> client_inv (fst (ping_interval now c))"
  by (auto simp: client_inv_def ping_interval_def ws_send_def split: option.splits ready_state.splits)

lemma client_inv_onclose [inv_intros]: "client_inv c \<Longrightarrow> client_inv (ws_onclose now c)"
  by (simp add: ws_onclose_def client_inv_stopTest)

lemma client_inv_onerror [inv_intros]: "client_inv c \<Longrightarrow> client_inv (ws_onerror now e c)"
  by (simp add: ws_onerror_def client_inv_stopTest client_inv_console)

lemma client_inv_startTest [inv_intros]:
  assumes "client_inv c" and "startBtn_onclick (dom c)"
  shows "client_inv (startTest host c)"
proof -
  have add: "client_inv (c'\<lparr>sockets := sockets c' @ [s], ws_ref := Some (length (sockets c'))\<rparr>)"
    if "client_inv c'" "startBtn_onclick (dom c')" for c' s
    using that by (auto simp: client_inv_def split: option.splits)
  show ?thesis
    unfolding startTest_def Let_def
    by (rule add) (use assms in \<open>auto intro: inv_intros split: option.split\<close>)
qed

lemma length_push_speed: "length xs \<le> 60 \<Longrightarrow> length (push_speed xs x) \<le> 60"
  by (simp add: push_speed_def Let_def)

lemma client_inv_onmessage [inv_intros]:
  "client_inv c \<Longrightarrow> sockets c \<noteq> [] \<Longrightarrow> client_inv (fst (ws_onmessage now data c))"
  by (auto simp: client_inv_def ws_onmessage_def Let_def length_push_speed
      split: option.splits ws_data.splits)

lemma client_inv_onopen [inv_intros]:
  "client_inv c \<Longrightarrow> sockets c \<noteq> [] \<Longrightarrow> client_inv (fst (ws_onopen now c))"
  by (auto simp: client_inv_def ws_onopen_def ws_send_def Let_def
      split: option.splits ready_state.splits)

lemma client_step_inv: "client_step host c c' \<Longrightarrow> client_inv c \<Longrightarrow> client_inv c'"
proof (induction rule: client_step.induct)
  case (sock_open i c now)
  then have "sockets (set_state i OPEN c) \<noteq> []" by (auto simp: set_state_def)
  with sock_open show ?case by (intro inv_intros)
qed (auto intro!: inv_intros)

lemma client_reachable_inv: "client_reachable host d c \<Longrightarrow> client_inv c"
  by (induction rule: client_reachable.induct) (auto intro: inv_intros client_step_inv)

text \<open>What the sockets of the script are for: one address, two messages.\<close>

definition sockets_ok :: "jsstring \<Rightarrow> socket list \<Rightarrow> bool" where
  "sockets_ok host ss \<longleftrightarrow> (\<forall>s \<in> set ss. url s = asc ''ws://'' @ host @ asc ''/speedtest'' \<and>
     set (sent s) \<subseteq> {asc ''start'', asc ''ping''})"

lemma sockets_ok_update:
  assumes "sockets_ok host ss" and "url x = url (ss ! i)" and "set (sent x) \<subseteq> set (sent (ss ! i)) \<union> {asc ''start'', asc ''ping''}"
  shows "sockets_ok host (ss[i := x])"
proof (cases "i < length ss")
  case True
  then have "ss ! i \<in> set ss" by simp
  then have old: "url (ss ! i) = asc ''ws://'' @ host @ asc ''/speedtest''" "set (sent (ss ! i)) \<subseteq> {asc ''start'', asc ''ping''}"
    using assms(1) unfolding sockets_ok_def by metis+
  show ?thesis
    unfolding sockets_ok_def
  proof
    fix s
    assume "s \<in> set (ss[i := x])"
    then consider "s = x" | "s \<in> set ss" using set_update_subset_insert [of ss i x] by auto
    then show "url s = asc ''ws://'' @ host @ asc ''/speedtest'' \<and> set (sent s) \<subseteq> {asc ''start'', asc ''ping''}"
    proof cases
      case 1
      have "set (sent x) \<subseteq> {asc ''start'', asc ''ping''}" using assms(3) old(2) by (rule order.trans [OF _ Un_least]) simp
      then show ?thesis using 1 old(1) assms(2) by metis
    next
      case 2
      then show ?thesis using assms(1) unfolding sockets_ok_def by metis
    qed
  qed
next
  case False
  then show ?thesis using assms(1) by (simp add: list_update_beyond)
qed

lemma sockets_ok_set_state: "sockets_ok host (sockets c) \<Longrightarrow> sockets_ok host (sockets (set_state i s c))"
  unfolding set_state_def by simp (rule sockets_ok_update; auto)

lemma sockets_ok_close: "sockets_ok host (sockets c) \<Longrightarrow> sockets_ok host (sockets (ws_close i c))"
  by (simp add: ws_close_def sockets_ok_set_state)

lemma sockets_ok_stopTest: "sockets_ok host (sockets c) \<Longrightarrow> sockets_ok host (sockets (stopTest now c))"
  by (simp add: stopTest_def Let_def sockets_ok_close split: option.split)

lemma sockets_ok_send:
  "sockets_ok host (sockets c) \<Longrightarrow> m \<in> {asc ''start'', asc ''ping''} \<Longrightarrow> sockets_ok host (sockets (fst (ws_send m c)))"
  by (auto simp: ws_send_def split: option.split ready_state.split intro!: sockets_ok_update)

lemma sockets_ok_onopen:
  assumes "sockets_ok host (sockets c)"
  shows "sockets_ok host (sockets (fst (ws_onopen now c)))"
proof (cases "chart c")
  case None
  then show ?thesis using assms by (simp add: ws_onopen_def Let_def)
next
  case (Some ch)
  let ?c = "c\<lparr>dom := (dom c)\<lparr>statusText := [Chars [0x5DF2, 0x8FDE, 0x63A5, 0xFF0C, 0x6D4B, 0x901F, 0x4E2D], Chars (asc ''...'')],
                 startBtn_disabled := True, stopBtn_disabled := False\<rparr>,
                 isTesting := True, totalBytes := Num 0, startTime := now, packetSeq := Num 0,
                 receivedSeq := Num 0, lostCount := Num 0, speedData := [],
                 chart := Some (ch\<lparr>ch_labels := [], ch_data := []\<rparr>)\<rparr>"
  obtain c2 e where s: "ws_send (asc ''start'') ?c = (c2, e)" by (cases "ws_send (asc ''start'') ?c")
  have "sockets_ok host (sockets c2)"
    using sockets_ok_send [of host ?c "asc ''start''"] assms s by simp
  then show ?thesis using Some s by (cases e) (simp_all add: ws_onopen_def Let_def)
qed

lemma sockets_ok_ping: "sockets_ok host (sockets c) \<Longrightarrow> sockets_ok host (sockets (fst (ping_interval now c)))"
  by (auto simp: ping_interval_def split: option.split intro!: sockets_ok_send)

lemma sockets_ok_start: "sockets_ok host (sockets c) \<Longrightarrow> sockets_ok host (sockets (startTest host c))"
proof -
  assume ok: "sockets_ok host (sockets c)"
  have "sockets_ok host (sockets (case ws_ref c of None \<Rightarrow> c
      | Some i \<Rightarrow> if readyState (sockets c ! i) = OPEN then ws_close i c else c))"
    using ok by (simp add: sockets_ok_close split: option.split)
  then show ?thesis by (simp add: startTest_def Let_def sockets_ok_def)
qed

lemma sockets_ok_message: "sockets (fst (ws_onmessage now data c)) = sockets c"
  by (simp add: ws_onmessage_def Let_def split: ws_data.split option.split)

lemma client_step_sockets:
  "client_step host c c' \<Longrightarrow> sockets_ok host (sockets c) \<Longrightarrow> sockets_ok host (sockets c')"
  by (induction rule: client_step.induct)
     (simp_all add: window_onload_def sockets_ok_start sockets_ok_stopTest sockets_ok_onopen sockets_ok_set_state
       sockets_ok_message ws_onclose_def ws_onerror_def sockets_ok_ping)

lemma client_reachable_sockets: "client_reachable host d c \<Longrightarrow> sockets_ok host (sockets c)"
proof (induction rule: client_reachable.induct)
  case start
  then show ?case by (simp add: client_init_def sockets_ok_def)
next
  case (step c c')
  then show ?case by (blast intro: client_step_sockets)
qed

subsection \<open>Properties of the script\<close>

text \<open>
  In every state the browser can bring the script to, the speed history holds at most 60
  values, and the chart shows exactly that history, labelled with its positions.
\<close>

theorem client_history_bounded:
  assumes "client_reachable host d c"
  shows "length (speedData c) \<le> 60 \<and>
    (case chart c of None \<Rightarrow> speedData c = []
     | Some ch \<Rightarrow> ch_data ch = speedData c \<and> ch_labels ch = [0..<length (speedData c)])"
  using client_reachable_inv [OF assms] by (auto simp: client_inv_def split: option.splits)

definition sample_page :: page where
  "sample_page = \<lparr>statusText = [], startBtn_disabled = False, stopBtn_disabled = True,
     startBtn_onclick = False, stopBtn_onclick = False, latency = [], downloadSpeed = [],
     log_html = []\<rparr>"

theorem client_history_bounded_witness:
  "client_reachable (asc ''h'') sample_page (window_onload (client_init sample_page)) \<and>
   length (speedData (window_onload (client_init sample_page))) \<le> 60"
proof -
  have "client_step (asc ''h'') (client_init sample_page) (window_onload (client_init sample_page))"
    by (rule page_load) (simp add: client_init_def)
  with client_reachable.start
  have "client_reachable (asc ''h'') sample_page (window_onload (client_init sample_page))"
    by (rule client_reachable.step)
  then show ?thesis using client_history_bounded by blast
qed

text \<open>The speeds a sequence of binary messages is worth, each the average since the start.\<close>

fun speeds :: "jsnum \<Rightarrow> jsnum \<Rightarrow> (jsnum \<times> nat) list \<Rightarrow> jsnum list" where
  "speeds since received [] = []"
| "speeds since received ((now, n) # ms) =
     (let received' = js_add received (Num (of_nat n))
      in speed_mbps now since received' # speeds since received' ms)"

fun receive_all :: "(jsnum \<times> nat) list \<Rightarrow> client \<Rightarrow> client" where
  "receive_all [] c = c"
| "receive_all ((now, n) # ms) c = receive_all ms (fst (ws_onmessage now (BinData n) c))"

lemma push_speed_lastn:
  "length xs \<le> 60 \<Longrightarrow> push_speed xs x = lastn 60 (xs @ [x])"
  using lastn_snoc_step [of 60 xs x] by (simp add: push_speed_def Let_def)

lemma lastn_lastn_append: "lastn k (lastn k xs @ ys) = lastn k (xs @ ys)"
proof (cases "length xs \<le> k")
  case False
  then have "drop (length ys) (lastn k xs) = drop (length (xs @ ys) - k) xs"
    by (simp add: lastn_def add.commute)
  with False show ?thesis by (simp add: lastn_def min_def)
qed simp

lemma onmessage_frame:
  assumes "chart c \<noteq> None" and "length (speedData c) \<le> 60"
  shows "chart (fst (ws_onmessage now (BinData n) c)) \<noteq> None"
    and "length (speedData (fst (ws_onmessage now (BinData n) c))) \<le> 60"
    and "startTime (fst (ws_onmessage now (BinData n) c)) = startTime c"
    and "totalBytes (fst (ws_onmessage now (BinData n) c)) = js_add (totalBytes c) (Num (of_nat n))"
    and "speedData (fst (ws_onmessage now (BinData n) c)) = lastn 60 (speedData c @
       [speed_mbps now (startTime c) (js_add (totalBytes c) (Num (of_nat n)))])"
  using assms
  by (auto simp: ws_onmessage_def Let_def length_push_speed push_speed_lastn split: option.splits)

text \<open>
  C16: after any sequence of binary messages the history is the last 60 of the average speeds at
  each message, whatever their number: pushing at the back and shifting at the front keeps a
  sliding window over the whole run.
\<close>

theorem client_sliding_window:
  assumes "chart c \<noteq> None" and "length (speedData c) \<le> 60"
  shows "speedData (receive_all ms c) = lastn 60 (speedData c @ speeds (startTime c) (totalBytes c) ms)"
  using assms
proof (induction ms arbitrary: c)
  case Nil
  then show ?case by simp
next
  case (Cons m ms)
  obtain now n where m: "m = (now, n)" by (cases m)
  let ?c = "fst (ws_onmessage now (BinData n) c)"
  have "speedData (receive_all (m # ms) c) =
      lastn 60 (speedData ?c @ speeds (startTime ?c) (totalBytes ?c) ms)"
    using Cons.IH [of ?c] onmessage_frame [OF Cons.prems, of now n] by (simp add: m)
  also have "\<dots> = lastn 60 (speedData c @ speeds (startTime c) (totalBytes c) (m # ms))"
    using onmessage_frame [OF Cons.prems, of now n]
    by (simp add: m Let_def lastn_lastn_append)
  finally show ?case .
qed

theorem client_sliding_window_witness:
  "speedData (receive_all [(Num 1000, 125000)] (window_onload (client_init sample_page))) = [Num 1] \<and>
   chart (window_onload (client_init sample_page)) \<noteq> None"
proof -
  let ?c = "window_onload (client_init sample_page)"
  have c: "chart ?c \<noteq> None" "speedData ?c = []" "startTime ?c = Num 0" "totalBytes ?c = Num 0"
    by (simp_all add: window_onload_def client_init_def)
  have r: "round_double 125000 = Num 125000" "round_double 1000000 = Num 1000000"
    "round_double 1000 = Num 1000" "round_double 1 = Num 1"
    using round_double_pos_int [of 125000] round_double_pos_int [of 1000000]
      round_double_pos_int [of 1000] round_double_pos_int [of 1] by simp_all
  have "speeds (Num 0) (Num 0) [(Num 1000, 125000)] = [Num 1]"
    by (simp add: Let_def speed_mbps_def js_sub_def r)
  then show ?thesis
    using client_sliding_window [of ?c "[(Num 1000, 125000)]"] c by simp
qed

text \<open>
  The byte counter is exact. As long as fewer than \<open>2 ^ 53\<close> bytes have arrived in all, the counter
  is the sum of the message lengths, floating point notwithstanding.
\<close>

theorem client_bytes_exact:
  assumes "totalBytes c = Num (of_nat b)" and "b + sum_list (map snd ms) < 2 ^ 53"
  shows "totalBytes (receive_all ms c) = Num (of_nat (b + sum_list (map snd ms)))"
  using assms
proof (induction ms arbitrary: b c)
  case Nil
  then show ?case by simp
next
  case (Cons m ms)
  obtain now n where m: "m = (now, n)" by (cases m)
  have "totalBytes (fst (ws_onmessage now (BinData n) c)) = js_add (totalBytes c) (Num (of_nat n))"
    by (simp add: ws_onmessage_def Let_def split: option.split)
  also have "\<dots> = Num (of_nat (b + n))"
    using Cons.prems m js_add_nat [of b n] by simp
  finally show ?case
    using Cons.IH [of "fst (ws_onmessage now (BinData n) c)" "b + n"] Cons.prems(2)
    by (simp add: m add.assoc)
qed

theorem client_bytes_exact_witness:
  "totalBytes (receive_all [(Num 10, 65536), (Num 20, 65536)] (client_init sample_page)) = Num 131072"
  using client_bytes_exact [of "client_init sample_page" 0 "[(Num 10, 65536), (Num 20, 65536)]"]
  by (simp add: client_init_def)

lemma stopTest_simps [simp]:
  "isTesting (stopTest now c) = False" "ws_ref (stopTest now c) = ws_ref c"
  "intervals (stopTest now c) = intervals c"
  "startBtn_disabled (dom (stopTest now c)) = False"
  "stopBtn_disabled (dom (stopTest now c)) = True"
  "startBtn_onclick (dom (stopTest now c)) = startBtn_onclick (dom c)"
  "stopBtn_onclick (dom (stopTest now c)) = stopBtn_onclick (dom c)"
  "chart (stopTest now c) = chart c"
  "length (sockets (stopTest now c)) = length (sockets c)"
  by (simp_all add: stopTest_def Let_def split: option.split)

lemma stopTest_sockets:
  "sockets (stopTest now c) =
     (case ws_ref c of None \<Rightarrow> sockets c | Some i \<Rightarrow> sockets (ws_close i c))"
  by (simp add: stopTest_def Let_def ws_close_def set_state_def split: option.split)

lemma loss_rate_zero: "js_mul (js_div (Num 0) (js_add (Num 0) (Num 1))) (Num 100) = Num 0"
  using round_double_pos_int [of 1] by simp

text \<open>
  C24: \<^verbatim>\<open>stopTest\<close>, called in any state the browser can reach, leaves the script idle: the
  test flag is off, the start button is enabled and the stop button disabled, the current socket
  is neither connecting nor open, a tick of a timer in that state does nothing, and the report's
  packet loss is the text \<open>0.00\<close>, since no statement of the script ever counts a lost packet.
\<close>

theorem client_stop_idle:
  assumes "client_reachable host d c"
  shows "\<not> isTesting (stopTest now c) \<and>
    \<not> startBtn_disabled (dom (stopTest now c)) \<and> stopBtn_disabled (dom (stopTest now c)) \<and>
    (case ws_ref (stopTest now c) of None \<Rightarrow> True
     | Some i \<Rightarrow> readyState (sockets (stopTest now c) ! i) \<in> {CLOSING, CLOSED}) \<and>
    ping_interval later (stopTest now c) = (stopTest now c, None) \<and>
    drop (length (log_html (dom (stopTest now c))) - 2) (log_html (dom (stopTest now c))) =
      [Chars (asc ''0.00''), Chars (asc ''%'')]"
proof (intro conjI)
  have inv: "client_inv c" using assms by (rule client_reachable_inv)
  show "case ws_ref (stopTest now c) of None \<Rightarrow> True
     | Some i \<Rightarrow> readyState (sockets (stopTest now c) ! i) \<in> {CLOSING, CLOSED}"
  proof (cases "ws_ref c")
    case (Some i)
    with inv have "i < length (sockets c)" by (auto simp: client_inv_def split: if_splits)
    with Some show ?thesis
      by (cases "readyState (sockets c ! i)") (auto simp: stopTest_sockets ws_close_def set_state_def)
  qed simp
  show "ping_interval later (stopTest now c) = (stopTest now c, None)"
    by (simp add: ping_interval_def)
  have "lostCount c = Num 0" "packetSeq c = Num 0" using inv by (simp_all add: client_inv_def)
  then show "drop (length (log_html (dom (stopTest now c))) - 2) (log_html (dom (stopTest now c))) =
      [Chars (asc ''0.00''), Chars (asc ''%'')]"
    by (simp add: stopTest_def Let_def loss_rate_zero toFixed2_zero del: js_mul.simps js_div.simps
        js_add.simps toFixed2.simps split: option.split)
qed simp_all

theorem client_stop_idle_witness:
  "client_reachable (asc ''h'') sample_page (client_init sample_page) \<and>
   ping_interval (Num 5) (stopTest (Num 4) (client_init sample_page)) =
     (stopTest (Num 4) (client_init sample_page), None)"
proof -
  have r: "client_reachable (asc ''h'') sample_page (client_init sample_page)"
    by (rule client_reachable.start)
  show ?thesis
    using r client_stop_idle [OF r, where now = "Num 4" and later = "Num 5"] by blast
qed

subsection \<open>What the script leaks\<close>

text \<open>
  Every successful opening starts an interval timer, and no statement ever clears one. Neither does
  \<^verbatim>\<open>startTest\<close> wait for the previous socket: pressed twice before the first connection is up, it
  creates a second socket and loses the first, whose messages are still counted.
\<close>

lemma startTest_simps:
  assumes "client_inv c"
  shows "length (sockets (startTest host c)) = Suc (length (sockets c))"
    and "ws_ref (startTest host c) = Some (length (sockets c))"
    and "readyState (sockets (startTest host c) ! length (sockets c)) = CONNECTING"
    and "intervals (startTest host c) = intervals c" "chart (startTest host c) = chart c"
    and "dom (startTest host c) = dom c"
  by (simp_all add: startTest_def Let_def nth_append split: option.split)

lemma onopen_current:
  assumes "ws_ref c = Some i" and "i < length (sockets c)" and "chart c \<noteq> None"
  shows "isTesting (fst (ws_onopen now (set_state i OPEN c)))"
    and "intervals (fst (ws_onopen now (set_state i OPEN c))) = Suc (intervals c)"
    and "chart (fst (ws_onopen now (set_state i OPEN c))) \<noteq> None"
    and "ws_ref (fst (ws_onopen now (set_state i OPEN c))) = Some i"
    and "i < length (sockets (fst (ws_onopen now (set_state i OPEN c))))"
    and "readyState (sockets (fst (ws_onopen now (set_state i OPEN c))) ! i) = OPEN"
    and "sent (sockets (fst (ws_onopen now (set_state i OPEN c))) ! i) =
      sent (sockets c ! i) @ [asc ''start'']"
    and "startBtn_onclick (dom (fst (ws_onopen now (set_state i OPEN c)))) =
      startBtn_onclick (dom c)"
    and "stopBtn_onclick (dom (fst (ws_onopen now (set_state i OPEN c)))) =
      stopBtn_onclick (dom c)"
    and "stopBtn_disabled (dom (fst (ws_onopen now (set_state i OPEN c)))) = False"
  using assms by (auto simp: ws_onopen_def ws_send_def set_state_def Let_def)

definition ready_to_start :: "client \<Rightarrow> bool" where
  "ready_to_start c \<longleftrightarrow> chart c \<noteq> None \<and> startBtn_onclick (dom c) \<and> stopBtn_onclick (dom c) \<and>
     \<not> startBtn_disabled (dom c)"

lemma one_more_test:
  assumes r: "client_reachable host d c" and ready: "ready_to_start c"
  shows "\<exists>c' i. client_reachable host d c' \<and> isTesting c' \<and> intervals c' = Suc (intervals c) \<and>
    ws_ref c' = Some i \<and> i < length (sockets c') \<and> readyState (sockets c' ! i) = OPEN \<and>
    chart c' \<noteq> None \<and> startBtn_onclick (dom c') \<and> stopBtn_onclick (dom c') \<and>
    \<not> stopBtn_disabled (dom c')"
proof -
  have inv: "client_inv c" using r by (rule client_reachable_inv)
  let ?i = "length (sockets c)" and ?s = "startTest host c"
  note st = startTest_simps [OF inv, of host]
  have "client_step host c ?s" using ready by (intro click_start) (simp_all add: ready_to_start_def)
  with r have rs: "client_reachable host d ?s" by (rule client_reachable.step)
  have pre: "ws_ref ?s = Some ?i" "?i < length (sockets ?s)" "chart ?s \<noteq> None"
    using st ready by (simp_all add: ready_to_start_def)
  have "client_step host ?s (fst (ws_onopen (Num (of_int 0)) (set_state ?i OPEN ?s)))"
    using pre st by (intro sock_open) simp_all
  with rs have "client_reachable host d (fst (ws_onopen (Num (of_int 0)) (set_state ?i OPEN ?s)))"
    by (rule client_reachable.step)
  with onopen_current [OF pre] st ready show ?thesis
    by (intro exI conjI) (assumption | simp add: ready_to_start_def)+
qed

lemma tests_accumulate:
  assumes "\<not> startBtn_disabled d"
  shows "\<exists>c. client_reachable host d c \<and> ready_to_start c \<and> intervals c = n"
proof (induction n)
  case 0
  have "client_step host (client_init d) (window_onload (client_init d))"
    by (rule page_load) (simp add: client_init_def)
  with client_reachable.start have "client_reachable host d (window_onload (client_init d))"
    by (rule client_reachable.step)
  moreover have "ready_to_start (window_onload (client_init d))"
    "intervals (window_onload (client_init d)) = 0"
    using assms by (simp_all add: ready_to_start_def window_onload_def client_init_def)
  ultimately show ?case by blast
next
  case (Suc n)
  then obtain c where "client_reachable host d c" "ready_to_start c" "intervals c = n" by blast
  with one_more_test [of host d c] obtain c' where c': "client_reachable host d c'"
    "intervals c' = Suc n" "chart c' \<noteq> None" "startBtn_onclick (dom c')" "stopBtn_onclick (dom c')"
    "\<not> stopBtn_disabled (dom c')" by auto
  have "client_step host c' (stopTest (Num (of_int 0)) c')" using c' by (intro click_stop)
  with c'(1) have "client_reachable host d (stopTest (Num (of_int 0)) c')"
    by (rule client_reachable.step)
  moreover have "ready_to_start (stopTest (Num (of_int 0)) c')"
    using c' by (simp add: ready_to_start_def)
  ultimately show ?case using c'(2) stopTest_simps(3) by metis
qed

fun tick_all :: "nat \<Rightarrow> jsnum \<Rightarrow> client \<Rightarrow> client" where
  "tick_all 0 now c = c"
| "tick_all (Suc n) now c = tick_all n now (fst (ping_interval now c))"

lemma tick_all_pings:
  assumes "isTesting c" "ws_ref c = Some i" "i < length (sockets c)" "readyState (sockets c ! i) = OPEN"
  shows "sent (sockets (tick_all n now c) ! i) = sent (sockets c ! i) @ replicate n (asc ''ping'')"
  using assms
proof (induction n arbitrary: c)
  case (Suc n)
  let ?c = "fst (ping_interval now c)"
  have "isTesting ?c" "ws_ref ?c = Some i" "i < length (sockets ?c)" "readyState (sockets ?c ! i) = OPEN"
    "sent (sockets ?c ! i) = sent (sockets c ! i) @ [asc ''ping'']"
    using Suc.prems by (auto simp: ping_interval_def ws_send_def)
  with Suc.IH [of ?c] show ?case by simp
qed simp

text \<open>
  Timers accumulate. For every \<open>n\<close> the browser can reach a running test in which \<open>n + 1\<close> interval
  timers are alive, so that one period of the timers puts \<open>n + 1\<close> \<^verbatim>\<open>ping\<close> messages, not one, on the
  current socket.
\<close>

theorem client_timers_accumulate:
  assumes "\<not> startBtn_disabled d"
  shows "\<exists>c i. client_reachable host d c \<and> isTesting c \<and> intervals c = Suc n \<and>
    ws_ref c = Some i \<and>
    sent (sockets (tick_all (intervals c) now c) ! i) =
      sent (sockets c ! i) @ replicate (Suc n) (asc ''ping'')"
proof -
  obtain c0 where "client_reachable host d c0" "ready_to_start c0" "intervals c0 = n"
    using tests_accumulate [OF assms] by blast
  with one_more_test [of host d c0] obtain c i where c: "client_reachable host d c" "isTesting c"
    "intervals c = Suc n" "ws_ref c = Some i" "i < length (sockets c)"
    "readyState (sockets c ! i) = OPEN" by auto
  with tick_all_pings [OF c(2,4-6), of "Suc n" now] show ?thesis by metis
qed

theorem client_timers_accumulate_witness:
  "\<not> startBtn_disabled sample_page \<and>
   (\<exists>c i. client_reachable (asc ''h'') sample_page c \<and> isTesting c \<and> intervals c = Suc 1 \<and>
     ws_ref c = Some i \<and> sent (sockets (tick_all (intervals c) (Num 1000) c) ! i) =
       sent (sockets c ! i) @ replicate (Suc 1) (asc ''ping''))"
proof -
  have "\<not> startBtn_disabled sample_page" by (simp add: sample_page_def)
  with client_timers_accumulate [of sample_page "asc ''h''" 1 "Num 1000"] show ?thesis by blast
qed

lemma double_click_opens:
  assumes "client_inv c" and "chart c \<noteq> None" and "sockets c = []"
    and c2: "c2 = startTest host (startTest host c)"
    and c3: "c3 = fst (ws_onopen now (set_state 0 OPEN c2))"
  shows "snd (ws_onopen now (set_state 0 OPEN c2)) = Some InvalidStateError"
    and "map readyState (sockets c3) = [OPEN, CONNECTING]"
    and "ws_ref c3 = Some 1" and "chart c3 \<noteq> None"
    and "startBtn_onclick (dom c3) = startBtn_onclick (dom c)"
    and "stopBtn_onclick (dom c3) = stopBtn_onclick (dom c)"
  using assms
  by (auto simp: client_inv_def ws_onopen_def ws_send_def set_state_def startTest_def Let_def)

lemma states_nth: "map readyState (sockets c) = xs \<Longrightarrow> i < length xs \<Longrightarrow>
    readyState (sockets c ! i) = xs ! i \<and> i < length (sockets c)"
  by (metis length_map nth_map)

text \<open>
  A lost socket. Two clicks on the start button before the first connection is up lead to two
  open sockets of which \<^verbatim>\<open>ws\<close> is the second; the first opening also throws inside its handler, as
  it calls \<^verbatim>\<open>send\<close> on the second socket while that is still connecting. Stopping the test closes
  the second socket only: afterwards the first one is still open and its data still counted.
\<close>

theorem client_lost_socket:
  assumes "\<not> startBtn_disabled d"
  shows "\<exists>c. client_reachable host d c \<and> \<not> isTesting c \<and> ws_ref c = Some 1 \<and>
    map readyState (sockets c) = [OPEN, CLOSING] \<and>
    client_step host c (fst (ws_onmessage (Num 0) (BinData n) c)) \<and>
    totalBytes (fst (ws_onmessage (Num 0) (BinData n) c)) = js_add (totalBytes c) (Num (of_nat n))"
proof -
  define c0 where "c0 = window_onload (client_init d)"
  define c2 where "c2 = startTest host (startTest host c0)"
  define c3 where "c3 = fst (ws_onopen (Num (of_int 0)) (set_state 0 OPEN c2))"
  define c4 where "c4 = fst (ws_onopen (Num (of_int 0)) (set_state 1 OPEN c3))"
  define c5 where "c5 = stopTest (Num (of_int 0)) c4"
  have c0: "chart c0 \<noteq> None" "sockets c0 = []" "startBtn_onclick (dom c0)" "stopBtn_onclick (dom c0)"
    "\<not> startBtn_disabled (dom c0)"
    using assms by (simp_all add: c0_def window_onload_def client_init_def)
  have "client_step host (client_init d) c0"
    unfolding c0_def by (rule page_load) (simp add: client_init_def)
  then have r0: "client_reachable host d c0" by (rule client_reachable.step [OF client_reachable.start])
  then have inv0: "client_inv c0" by (rule client_reachable_inv)
  have "client_step host c0 (startTest host c0)" using c0 by (intro click_start)
  moreover have "client_step host (startTest host c0) c2"
    unfolding c2_def using c0 startTest_simps [OF inv0] by (intro click_start) simp_all
  ultimately have r2: "client_reachable host d c2" using r0 by (blast intro: client_reachable.step)
  note dbl = double_click_opens [OF inv0 c0(1,2) c2_def c3_def]
  have two: "length (sockets c2) = 2" "readyState (sockets c2 ! 0) = CONNECTING"
    using c0 inv0 by (auto simp: c2_def startTest_def Let_def client_inv_def)
  have "client_step host c2 c3" unfolding c3_def using two by (intro sock_open) simp_all
  with r2 have r3: "client_reachable host d c3" by (rule client_reachable.step)
  have "client_step host c3 c4"
    unfolding c4_def using states_nth [OF dbl(2), of 1] by (intro sock_open) simp_all
  with r3 have r4: "client_reachable host d c4" by (rule client_reachable.step)
  have len3: "length (sockets c3) = 2" using arg_cong [OF dbl(2), of length] by simp
  note oc = onopen_current [OF dbl(3) _ dbl(4), of "Num (of_int 0)", folded c4_def]
  have st4: "map readyState (sockets c4) = [OPEN, OPEN]" and ref4: "ws_ref c4 = Some 1"
    using dbl len3 by (auto simp: c4_def ws_onopen_def ws_send_def set_state_def Let_def
        map_update length_Suc_conv numeral_2_eq_2)
  have "client_step host c4 c5"
    unfolding c5_def using oc(9,10) dbl(6) len3 c0 by (intro click_stop) auto
  with r4 have r5: "client_reachable host d c5" by (rule client_reachable.step)
  have st5: "map readyState (sockets c5) = [OPEN, CLOSING]"
    using st4 ref4 by (auto simp: c5_def stopTest_sockets ws_close_def set_state_def map_update)
  moreover have "client_step host c5 (fst (ws_onmessage (Num (of_int 0)) (BinData n) c5))"
    using states_nth [OF st5, of 0] by (intro sock_message) auto
  moreover have "ws_ref c5 = Some 1" "\<not> isTesting c5" by (simp_all add: c5_def ref4)
  moreover have "totalBytes (fst (ws_onmessage (Num 0) (BinData n) c5)) =
      js_add (totalBytes c5) (Num (of_nat n))"
    by (simp add: ws_onmessage_def Let_def split: option.split)
  ultimately show ?thesis using r5 by (intro exI [of _ c5] conjI) simp_all
qed

theorem client_lost_socket_witness:
  "\<exists>c. client_reachable (asc ''h'') sample_page c \<and> \<not> isTesting c \<and>
     map readyState (sockets c) = [OPEN, CLOSING]"
proof -
  have page: "\<not> startBtn_disabled sample_page" by (simp add: sample_page_def)
  from client_lost_socket [OF page, where host = "asc ''h''" and n = 1]
  obtain c where "client_reachable (asc ''h'') sample_page c" "\<not> isTesting c"
    "map readyState (sockets c) = [OPEN, CLOSING]" by (elim exE conjE)
  then show ?thesis by (intro exI conjI)
qed

end
