(* ===== verification/Ring_Buffer.thy ===== *)
theory Ring_Buffer
  imports Prelude
begin

section \<open>The ring buffer (\<^verbatim>\<open>src/core/net/buffer.cpp\<close>)\<close>

text \<open>
  \<^verbatim>\<open>RingBuffer\<close> keeps a byte vector and two positions; one slot always stays free, so equal positions
  mean empty. Each member function is one definition over the record \<open>ring\<close>. A pointer into the
  vector is an offset; \<^verbatim>\<open>std::string::npos\<close> is \<open>None\<close>; the exceptions are \<open>Inl\<close> values. Sizes are
  natural numbers: all of them are bounded by the size of a vector that exists, and no subtraction
  of the code goes below zero in a state that satisfies \<open>ring_inv\<close>.

  \<open>ring_contents\<close> is the byte sequence the buffer stands for; the lemmas relate every operation to
  it, and a list is the abstract specification.
\<close>

record ring =
  buffer :: bytes
  read_pos :: nat
  write_pos :: nat

datatype ring_error = Invalid_Argument | Out_Of_Range

definition ring_new :: "nat \<Rightarrow> ring_error + ring" where
  "ring_new initial_capacity =
     (if initial_capacity = 0 then Inl Invalid_Argument
      else Inr \<lparr>buffer = replicate (max initial_capacity 4) 0, read_pos = 0, write_pos = 0\<rparr>)"

definition capacity :: "ring \<Rightarrow> nat" where
  "capacity q = length (buffer q)"

definition readable_bytes :: "ring \<Rightarrow> nat" where
  "readable_bytes q =
     (if read_pos q \<le> write_pos q then write_pos q - read_pos q
      else capacity q - (read_pos q - write_pos q))"

definition writable_bytes :: "ring \<Rightarrow> nat" where
  "writable_bytes q = (let total = capacity q - readable_bytes q in if 0 < total then total - 1 else 0)"

definition ring_empty :: "ring \<Rightarrow> bool" where
  "ring_empty q \<longleftrightarrow> readable_bytes q = 0"

definition ring_full :: "ring \<Rightarrow> bool" where
  "ring_full q \<longleftrightarrow> writable_bytes q = 0"

definition front_capacity :: "ring \<Rightarrow> nat" where
  "front_capacity q = (if read_pos q \<le> write_pos q then 0 else read_pos q - write_pos q)"

definition back_capacity :: "ring \<Rightarrow> nat" where
  "back_capacity q =
     (if write_pos q < read_pos q then read_pos q - write_pos q else capacity q - write_pos q)"

type_synonym iovec = "nat option \<times> nat"

definition writable_areas :: "ring \<Rightarrow> iovec \<times> iovec" where
  "writable_areas q =
     (if ring_full q then ((None, 0), (None, 0))
      else if write_pos q < read_pos q then
        ((Some (write_pos q), read_pos q - write_pos q - 1), (None, 0))
      else if 0 < read_pos q then
        (if write_pos q = 0 then ((Some (write_pos q), capacity q - 1), (None, 0))
         else ((Some (write_pos q), capacity q - write_pos q), (Some 0, read_pos q)))
      else ((Some (write_pos q), capacity q - write_pos q - 1), (None, 0)))"

definition readable_areas :: "ring \<Rightarrow> iovec \<times> iovec" where
  "readable_areas q =
     (if ring_empty q then ((None, 0), (None, 0))
      else if read_pos q < write_pos q then ((Some (read_pos q), write_pos q - read_pos q), (None, 0))
      else ((Some (read_pos q), capacity q - read_pos q),
            (if 0 < write_pos q then (Some 0, write_pos q) else (None, 0))))"

definition area_bytes :: "ring \<Rightarrow> iovec \<Rightarrow> bytes" where
  "area_bytes q a = (case a of (None, n) \<Rightarrow> [] | (Some off, n) \<Rightarrow> take n (drop off (buffer q)))"

function grow_capacity :: "nat \<Rightarrow> nat \<Rightarrow> nat \<Rightarrow> nat" where
  "grow_capacity cap readable len =
     (if 0 < cap \<and> cap - readable - 1 < len then grow_capacity (cap * 2) readable len else cap)"
  by pat_completeness auto
termination
  by (relation "measure (\<lambda>(cap, readable, len). len + readable + 1 - cap)") auto

declare grow_capacity.simps [simp del]

text \<open>
  The copy of both readable areas to the front of a fresh, zeroed vector, shared by
  \<^verbatim>\<open>expand_if_needed\<close> and \<^verbatim>\<open>shrink_to_fit\<close>.
\<close>

definition copy_areas :: "ring \<Rightarrow> nat \<Rightarrow> bytes" where
  "copy_areas q new_capacity =
     (let first = area_bytes q (fst (readable_areas q));
          second = area_bytes q (snd (readable_areas q))
      in splice (splice (replicate new_capacity 0) 0 first) (length first) second)"

definition expand_if_needed :: "nat \<Rightarrow> ring \<Rightarrow> ring" where
  "expand_if_needed len q =
     (if len \<le> writable_bytes q then q
      else let new_capacity = grow_capacity (capacity q) (readable_bytes q) len;
               q1 = q\<lparr>buffer := copy_areas q new_capacity, read_pos := 0\<rparr>
           in q1\<lparr>write_pos := readable_bytes q1\<rparr>)"

definition ring_write :: "bytes \<Rightarrow> ring \<Rightarrow> nat \<times> ring" where
  "ring_write data q =
     (if data = [] then (0, q)
      else let q1 = expand_if_needed (length data) q;
               write_len = min (length data) (writable_bytes q1);
               back = back_capacity q1
           in if write_len = 0 then (0, q1)
              else (write_len, q1\<lparr>
                buffer := (if write_len \<le> back
                           then splice (buffer q1) (write_pos q1) (take write_len data)
                           else splice (splice (buffer q1) (write_pos q1) (take back data)) 0
                                  (take (write_len - back) (drop back data))),
                write_pos := (write_pos q1 + write_len) mod capacity q1\<rparr>))"

definition has_written :: "nat \<Rightarrow> ring \<Rightarrow> ring_error + ring" where
  "has_written len q =
     (if writable_bytes q < len then Inl Out_Of_Range
      else Inr (q\<lparr>write_pos := (write_pos q + len) mod capacity q\<rparr>))"

definition has_read :: "nat \<Rightarrow> ring \<Rightarrow> ring_error + ring" where
  "has_read len q =
     (if readable_bytes q < len then Inl Out_Of_Range
      else let q1 = q\<lparr>read_pos := (read_pos q + len) mod capacity q\<rparr>
           in Inr (if read_pos q1 = write_pos q1 then q1\<lparr>read_pos := 0, write_pos := 0\<rparr> else q1))"

definition ring_read :: "nat \<Rightarrow> ring \<Rightarrow> ring_error + bytes \<times> ring" where
  "ring_read len q =
     (if len = 0 \<or> ring_empty q then Inr ([], q)
      else let read_len = min len (readable_bytes q);
               back = capacity q - read_pos q;
               dst = (if read_len \<le> back then take read_len (drop (read_pos q) (buffer q))
                      else take back (drop (read_pos q) (buffer q)) @ take (read_len - back) (buffer q))
           in case has_read read_len q of Inl e \<Rightarrow> Inl e | Inr q' \<Rightarrow> Inr (dst, q'))"

definition read_string :: "nat \<Rightarrow> ring \<Rightarrow> ring_error + bytes \<times> ring" where
  "read_string len q =
     (if len = 0 \<or> ring_empty q then Inr ([], q) else ring_read (min len (readable_bytes q)) q)"

fun index_from :: "nat \<Rightarrow> byte \<Rightarrow> bytes \<Rightarrow> nat option" where
  "index_from i c [] = None"
| "index_from i c (x # xs) = (if x = c then Some i else index_from (Suc i) c xs)"

definition find_char :: "byte \<Rightarrow> ring \<Rightarrow> nat option" where
  "find_char c q =
     (if ring_empty q then None
      else let readable = readable_bytes q; back = capacity q - read_pos q
           in if readable \<le> back then index_from 0 c (take readable (drop (read_pos q) (buffer q)))
              else case index_from 0 c (drop (read_pos q) (buffer q)) of
                     Some i \<Rightarrow> Some i
                   | None \<Rightarrow> index_from back c (take (readable - back) (buffer q)))"

definition match_at :: "ring \<Rightarrow> bytes \<Rightarrow> nat \<Rightarrow> bool" where
  "match_at q pattern i \<longleftrightarrow>
     (\<forall>j < length pattern. buffer q ! ((read_pos q + i + j) mod capacity q) = pattern ! j)"

definition find_pattern :: "bytes \<Rightarrow> ring \<Rightarrow> nat option" where
  "find_pattern pattern q =
     (if pattern = [] \<or> readable_bytes q < length pattern then None
      else List.find (match_at q pattern) [0..<Suc (readable_bytes q - length pattern)])"

definition ensure_writable :: "nat \<Rightarrow> ring \<Rightarrow> ring" where
  "ensure_writable len q = expand_if_needed len q"

definition shrink_to_fit :: "ring \<Rightarrow> ring" where
  "shrink_to_fit q =
     (if ring_empty q
      then (if 1024 < capacity q then q\<lparr>buffer := take 1024 (buffer q)\<rparr> else q)
             \<lparr>read_pos := 0, write_pos := 0\<rparr>
      else let readable = readable_bytes q;
               new_capacity = min (max (readable * 2) 1024) (capacity q)
           in if capacity q \<le> new_capacity then q
              else q\<lparr>buffer := copy_areas q new_capacity, read_pos := 0, write_pos := readable\<rparr>)"

subsection \<open>Invariant and abstraction\<close>

definition ring_inv :: "ring \<Rightarrow> bool" where
  "ring_inv q \<longleftrightarrow> 4 \<le> capacity q \<and> read_pos q < capacity q \<and> write_pos q < capacity q"

definition ring_contents :: "ring \<Rightarrow> bytes" where
  "ring_contents q =
     (if read_pos q \<le> write_pos q then take (write_pos q - read_pos q) (drop (read_pos q) (buffer q))
      else drop (read_pos q) (buffer q) @ take (write_pos q) (buffer q))"

lemma ring_contents_nth:
  assumes "ring_inv q" and "i < readable_bytes q"
  shows "ring_contents q ! i = buffer q ! ((read_pos q + i) mod capacity q)"
proof (cases "read_pos q \<le> write_pos q")
  case True
  with assms have "read_pos q + i < length (buffer q)"
    by (auto simp: readable_bytes_def ring_inv_def capacity_def)
  with True assms show ?thesis
    by (simp add: ring_contents_def readable_bytes_def capacity_def)
next
  case False
  show ?thesis
  proof (cases "read_pos q + i < capacity q")
    case True
    with False assms show ?thesis
      by (simp add: ring_contents_def ring_inv_def nth_append capacity_def less_diff_conv add.commute)
  next
    case wrap: False
    then have "(read_pos q + i) mod capacity q = read_pos q + i - capacity q"
      using False assms by (intro mod_wrap) (auto simp: ring_inv_def readable_bytes_def)
    with wrap False assms show ?thesis
      by (auto simp: ring_contents_def ring_inv_def nth_append capacity_def readable_bytes_def
          add.commute)
  qed
qed

lemma length_ring_contents: "ring_inv q \<Longrightarrow> length (ring_contents q) = readable_bytes q"
  by (auto simp: ring_contents_def readable_bytes_def ring_inv_def capacity_def)

lemma ring_contents_eqI:
  assumes "ring_inv q" and "readable_bytes q = length xs"
    and "\<And>i. i < length xs \<Longrightarrow> buffer q ! ((read_pos q + i) mod capacity q) = xs ! i"
  shows "ring_contents q = xs"
  using assms by (intro nth_equalityI) (simp_all add: length_ring_contents ring_contents_nth)

lemma readable_less_capacity: "ring_inv q \<Longrightarrow> readable_bytes q < capacity q"
  by (auto simp: ring_inv_def readable_bytes_def)

lemma writable_eq: "ring_inv q \<Longrightarrow> writable_bytes q = capacity q - readable_bytes q - 1"
  using readable_less_capacity [of q] by (simp add: writable_bytes_def Let_def)

lemma write_pos_eq: "ring_inv q \<Longrightarrow> write_pos q = (read_pos q + readable_bytes q) mod capacity q"
  by (auto simp: ring_inv_def readable_bytes_def le_mod_geq)

lemma areas_contents:
  "ring_inv q \<Longrightarrow>
   area_bytes q (fst (readable_areas q)) @ area_bytes q (snd (readable_areas q)) = ring_contents q"
  by (auto simp: ring_inv_def readable_areas_def area_bytes_def ring_contents_def ring_empty_def
      readable_bytes_def capacity_def)

subsection \<open>Construction and reading\<close>

lemma ring_new_ok:
  "0 < n \<Longrightarrow> \<exists>q. ring_new n = Inr q \<and> ring_inv q \<and> ring_contents q = [] \<and> capacity q = max n 4"
  by (simp add: ring_new_def ring_inv_def ring_contents_def capacity_def)

lemma capacity_simps [simp]:
  "capacity (q\<lparr>read_pos := r\<rparr>) = capacity q" "capacity (q\<lparr>write_pos := w\<rparr>) = capacity q"
  by (simp_all add: capacity_def)

lemma has_read_ok:
  assumes inv: "ring_inv q" and len: "n \<le> readable_bytes q"
  shows "\<exists>q'. has_read n q = Inr q' \<and> ring_inv q' \<and> capacity q' = capacity q \<and>
           ring_contents q' = drop n (ring_contents q)"
proof (cases "read_pos q \<le> write_pos q")
  case True
  with inv len have "(read_pos q + n) mod capacity q = read_pos q + n"
    by (intro mod_less) (auto simp: ring_inv_def readable_bytes_def)
  with True inv len show ?thesis
    by (auto simp: has_read_def Let_def ring_inv_def ring_contents_def readable_bytes_def
        drop_take add.commute)
next
  case False
  show ?thesis
  proof (cases "read_pos q + n < capacity q")
    case True
    with False inv len show ?thesis
      by (auto simp: has_read_def Let_def ring_inv_def ring_contents_def capacity_def add.commute)
  next
    case wrap: False
    with False inv len have "(read_pos q + n) mod capacity q = read_pos q + n - capacity q"
      by (intro mod_wrap) (auto simp: ring_inv_def readable_bytes_def)
    with wrap False inv len show ?thesis
      by (auto simp: has_read_def Let_def ring_inv_def ring_contents_def readable_bytes_def
          capacity_def drop_take add.commute)
  qed
qed

lemma ring_read_bytes:
  assumes "ring_inv q" and "n \<le> readable_bytes q"
  shows "(if n \<le> capacity q - read_pos q then take n (drop (read_pos q) (buffer q))
          else take (capacity q - read_pos q) (drop (read_pos q) (buffer q)) @
               take (n - (capacity q - read_pos q)) (buffer q))
         = take n (ring_contents q)"
  using assms
  by (auto simp: ring_inv_def ring_contents_def readable_bytes_def capacity_def min_def)

lemma ring_read_ok:
  assumes inv: "ring_inv q"
  shows "\<exists>q'. ring_read n q = Inr (take n (ring_contents q), q') \<and> ring_inv q' \<and>
           capacity q' = capacity q \<and> ring_contents q' = drop n (ring_contents q)"
proof (cases "n = 0 \<or> ring_empty q")
  case True
  then show ?thesis
    using inv length_ring_contents [OF inv] by (auto simp: ring_read_def ring_empty_def)
next
  case False
  let ?n = "min n (readable_bytes q)"
  obtain q' where q': "has_read ?n q = Inr q'" "ring_inv q'" "capacity q' = capacity q"
      "ring_contents q' = drop ?n (ring_contents q)"
    using has_read_ok [OF inv, of ?n] by auto
  have "take ?n (ring_contents q) = take n (ring_contents q)"
       "drop ?n (ring_contents q) = drop n (ring_contents q)"
    using length_ring_contents [OF inv] by (auto simp: min_def)
  with q' False show ?thesis
    using ring_read_bytes [OF inv, of ?n] by (simp add: ring_read_def Let_def)
qed

subsection \<open>Writing\<close>

lemma expand_noop: "n \<le> writable_bytes q \<Longrightarrow> expand_if_needed n q = q"
  by (simp add: expand_if_needed_def)

definition ring_put :: "bytes \<Rightarrow> ring \<Rightarrow> ring" where
  "ring_put data q =
     (let len = length data; back = back_capacity q
      in q\<lparr>buffer := (if len \<le> back then splice (buffer q) (write_pos q) data
                     else splice (splice (buffer q) (write_pos q) (take back data)) 0 (drop back data)),
           write_pos := (write_pos q + len) mod capacity q\<rparr>)"

lemma ring_put_contents:
  assumes inv: "ring_inv q" and len: "length data \<le> writable_bytes q"
  shows "ring_contents (ring_put data q) = ring_contents q @ data"
proof -
  have w: "length data + readable_bytes q < capacity q"
    using len readable_less_capacity [OF inv] writable_eq [OF inv] by simp
  show ?thesis
  proof (cases "write_pos q < read_pos q")
    case True
    with w have "write_pos q + length data < read_pos q"
      by (simp add: readable_bytes_def)
    moreover from this inv have "(write_pos q + length data) mod capacity q = write_pos q + length data"
      by (simp add: ring_inv_def)
    ultimately show ?thesis
      using True inv w
      by (auto simp: ring_put_def Let_def back_capacity_def ring_contents_def ring_inv_def
          splice_def capacity_def min_def)
  next
    case False
    show ?thesis
    proof (cases "write_pos q + length data < capacity q")
      case True
      with False inv w show ?thesis
        by (cases "length data")
           (auto simp: ring_put_def Let_def back_capacity_def ring_contents_def ring_inv_def
            splice_def capacity_def min_def drop_take)
    next
      case wrap: False
      with False inv w have "(write_pos q + length data) mod capacity q
          = write_pos q + length data - capacity q"
        "write_pos q + length data - capacity q < read_pos q"
        by (auto simp: ring_inv_def readable_bytes_def mod_wrap)
      with wrap False inv w show ?thesis
        by (cases "write_pos q + length data = capacity q")
           (auto simp: ring_put_def Let_def back_capacity_def ring_contents_def ring_inv_def
            splice_def capacity_def drop_take)
    qed
  qed
qed

lemma ring_put_inv:
  assumes "ring_inv q" and "length data \<le> writable_bytes q"
  shows "ring_inv (ring_put data q)" and "capacity (ring_put data q) = capacity q"
proof -
  let ?b = "back_capacity q"
  have w: "length data + readable_bytes q < capacity q"
    using assms readable_less_capacity writable_eq by fastforce
  have "write_pos q + min ?b (length data) \<le> capacity q"
    and "length data - ?b \<le> capacity q"
    using assms w by (auto simp: back_capacity_def ring_inv_def readable_bytes_def)
  then show cap: "capacity (ring_put data q) = capacity q"
    by (auto simp: ring_put_def Let_def capacity_def min_def split: if_splits)
  show "ring_inv (ring_put data q)"
    using assms cap by (simp add: ring_inv_def ring_put_def Let_def)
qed

lemma ring_write_room:
  assumes "ring_inv q" and "length data \<le> writable_bytes q"
  shows "ring_write data q = (length data, if data = [] then q else ring_put data q)"
  using assms by (auto simp: ring_write_def ring_put_def Let_def expand_noop min_def)

subsection \<open>Growing\<close>

lemma grow_capacity_ge: "cap \<le> grow_capacity cap r n"
proof (induction cap r n rule: grow_capacity.induct)
  case (1 cap r n)
  then show ?case by (subst grow_capacity.simps) auto
qed

lemma grow_capacity_room: "0 < cap \<Longrightarrow> n \<le> grow_capacity cap r n - r - 1"
proof (induction cap r n rule: grow_capacity.induct)
  case (1 cap r n)
  then show ?case by (subst grow_capacity.simps) auto
qed

lemma area_lengths:
  "ring_inv q \<Longrightarrow> length (area_bytes q (fst (readable_areas q)))
     + length (area_bytes q (snd (readable_areas q))) = readable_bytes q"
  using areas_contents [of q] length_ring_contents [of q] by (metis length_append)

lemma copy_areas_eq:
  assumes "ring_inv q" and "readable_bytes q \<le> n"
  shows "copy_areas q n = ring_contents q @ replicate (n - readable_bytes q) 0"
  using assms area_lengths [OF assms(1)]
  by (simp add: copy_areas_def Let_def splice_def flip: areas_contents)

lemma expand_eq:
  assumes inv: "ring_inv q" and grow: "writable_bytes q < n"
  defines "c \<equiv> grow_capacity (capacity q) (readable_bytes q) n"
  shows "expand_if_needed n q =
    \<lparr>buffer = ring_contents q @ replicate (c - readable_bytes q) 0, read_pos = 0, write_pos = write_pos q\<rparr>"
    and "capacity q \<le> c" and "readable_bytes q + n < c"
proof -
  show le: "capacity q \<le> c" by (simp add: c_def grow_capacity_ge)
  have "0 < capacity q" using inv by (simp add: ring_inv_def)
  then have "n \<le> c - readable_bytes q - 1" unfolding c_def by (rule grow_capacity_room)
  then show "readable_bytes q + n < c"
    using le readable_less_capacity [OF inv] by simp
  then show "expand_if_needed n q =
    \<lparr>buffer = ring_contents q @ replicate (c - readable_bytes q) 0, read_pos = 0, write_pos = write_pos q\<rparr>"
    using grow copy_areas_eq [OF inv, of c]
    by (simp add: expand_if_needed_def Let_def c_def)
       (simp add: readable_bytes_def)
qed

lemma expand_inv: "ring_inv q \<Longrightarrow> ring_inv (expand_if_needed n q)"
proof (cases "n \<le> writable_bytes q")
  case False
  assume inv: "ring_inv q"
  with False have "writable_bytes q < n" by simp
  note e = expand_eq [OF inv this]
  show ?thesis
    using inv e readable_less_capacity [OF inv] length_ring_contents [OF inv]
    by (simp add: ring_inv_def capacity_def)
qed (simp add: expand_noop)

lemma expand_contents:
  assumes inv: "ring_inv q" and grow: "writable_bytes q < n"
  shows "ring_contents (expand_if_needed n q) =
    take (write_pos q) (ring_contents q) @ replicate (write_pos q - readable_bytes q) 0"
proof -
  note e = expand_eq [OF inv grow]
  have "write_pos q - readable_bytes q \<le>
      grow_capacity (capacity q) (readable_bytes q) n - readable_bytes q"
    using e(2) inv by (auto simp: ring_inv_def)
  then show ?thesis
    using length_ring_contents [OF inv] by (simp add: e(1)) (simp add: ring_contents_def)
qed

lemma expand_contents_read_zero:
  assumes "ring_inv q" and "read_pos q = 0"
  shows "ring_contents (expand_if_needed n q) = ring_contents q"
proof (cases "n \<le> writable_bytes q")
  case False
  with assms have "readable_bytes q = write_pos q" "writable_bytes q < n"
    by (simp_all add: readable_bytes_def)
  with assms show ?thesis
    using expand_contents [of q n] length_ring_contents [of q] by simp
qed (simp add: expand_noop)

lemma expand_room:
  assumes inv: "ring_inv q" and "read_pos q = 0"
  shows "n \<le> writable_bytes (expand_if_needed n q)"
proof (cases "n \<le> writable_bytes q")
  case False
  then have g: "writable_bytes q < n" by simp
  have "readable_bytes q = write_pos q"
    using assms by (simp add: readable_bytes_def)
  with expand_eq [OF inv g] show ?thesis
    using length_ring_contents [OF inv] writable_eq [OF expand_inv [OF inv], of n]
    by (simp add: readable_bytes_def capacity_def)
qed (simp add: expand_noop)

lemma expand_contents_iff:
  assumes inv: "ring_inv q" and grow: "writable_bytes q < n"
  shows "ring_contents (expand_if_needed n q) = ring_contents q \<longleftrightarrow> read_pos q = 0"
proof
  assume "ring_contents (expand_if_needed n q) = ring_contents q"
  then have "length (ring_contents (expand_if_needed n q)) = readable_bytes q"
    using length_ring_contents [OF inv] by simp
  moreover have "length (ring_contents (expand_if_needed n q)) = write_pos q"
    using expand_contents [OF inv grow] length_ring_contents [OF inv] by simp
  ultimately show "read_pos q = 0"
    using inv by (auto simp: readable_bytes_def ring_inv_def split: if_splits)
qed (simp add: expand_contents_read_zero [OF inv])

lemma ring_write_ok:
  assumes inv: "ring_inv q" and room: "length data \<le> writable_bytes q \<or> read_pos q = 0"
  shows "\<exists>q'. ring_write data q = (length data, q') \<and> ring_inv q' \<and>
           ring_contents q' = ring_contents q @ data"
proof (cases "data = []")
  case True
  with inv show ?thesis by (simp add: ring_write_def)
next
  case False
  let ?q = "expand_if_needed (length data) q"
  have q: "ring_inv ?q" "ring_contents ?q = ring_contents q" "length data \<le> writable_bytes ?q"
    using inv room expand_inv expand_noop expand_contents_read_zero expand_room by auto
  have "ring_write data q = ring_write data ?q"
    using q(3) by (simp add: ring_write_def expand_noop)
  also have "\<dots> = (length data, ring_put data ?q)"
    using ring_write_room [OF q(1,3)] False by simp
  finally show ?thesis
    using ring_put_contents [OF q(1,3)] ring_put_inv(1) [OF q(1,3)] q(2) by simp
qed

subsection \<open>Searching and shrinking\<close>

lemma index_from_append:
  "index_from k c (xs @ ys) =
     (case index_from k c xs of Some i \<Rightarrow> Some i | None \<Rightarrow> index_from (k + length xs) c ys)"
  by (induction xs arbitrary: k) (auto split: option.split)

lemma index_from_None: "index_from k c xs = None \<longleftrightarrow> c \<notin> set xs"
  by (induction xs arbitrary: k) auto

lemma index_from_ge: "index_from k c xs = Some i \<Longrightarrow> k \<le> i"
  by (induction xs arbitrary: k) (auto split: if_splits dest: Suc_leD)

lemma index_from_Some:
  "index_from k c xs = Some (k + i) \<longleftrightarrow> i < length xs \<and> xs ! i = c \<and> c \<notin> set (take i xs)"
proof (induction xs arbitrary: k i)
  case (Cons x xs)
  show ?case
  proof (cases i)
    case 0
    then show ?thesis using index_from_ge [of "Suc k" c xs k] by auto
  next
    case (Suc j)
    with Cons [of "Suc k" j] show ?thesis by auto
  qed
qed simp

lemma find_char_eq:
  assumes inv: "ring_inv q"
  shows "find_char c q = index_from 0 c (ring_contents q)"
proof (cases "read_pos q \<le> write_pos q")
  case True
  with inv show ?thesis
    by (auto simp: find_char_def Let_def ring_empty_def ring_contents_def readable_bytes_def ring_inv_def)
next
  case False
  then have "readable_bytes q - (capacity q - read_pos q) = write_pos q"
    using inv by (auto simp: readable_bytes_def ring_inv_def)
  with False inv show ?thesis
    by (cases "write_pos q")
       (auto simp: find_char_def Let_def ring_empty_def ring_contents_def readable_bytes_def
        ring_inv_def capacity_def index_from_append split: option.split)
qed

lemma match_at_eq:
  assumes inv: "ring_inv q" and "i + length p \<le> readable_bytes q"
  shows "match_at q p i \<longleftrightarrow> take (length p) (drop i (ring_contents q)) = p"
proof -
  have "match_at q p i \<longleftrightarrow> (\<forall>j < length p. ring_contents q ! (i + j) = p ! j)"
    using assms by (simp add: match_at_def ring_contents_nth add.assoc)
  also have "\<dots> \<longleftrightarrow> take (length p) (drop i (ring_contents q)) = p"
    using assms(2) length_ring_contents [OF inv] by (auto simp: list_eq_iff_nth_eq)
  finally show ?thesis .
qed

lemma find_pattern_eq:
  assumes inv: "ring_inv q" and "p \<noteq> []" and le: "length p \<le> readable_bytes q"
  shows "find_pattern p q = List.find (\<lambda>i. take (length p) (drop i (ring_contents q)) = p)
           [0..<Suc (readable_bytes q - length p)]"
proof -
  have "List.find (match_at q p) [0..<Suc (readable_bytes q - length p)] =
      List.find (\<lambda>i. take (length p) (drop i (ring_contents q)) = p)
        [0..<Suc (readable_bytes q - length p)]"
    using le by (intro find_cong refl match_at_eq [OF inv]) auto
  with assms show ?thesis by (simp add: find_pattern_def)
qed

lemma shrink_contents:
  assumes inv: "ring_inv q"
  shows "ring_contents (shrink_to_fit q) = ring_contents q"
proof (cases "ring_empty q")
  case True
  then have "ring_contents q = []"
    using length_ring_contents [OF inv] by (simp add: ring_empty_def)
  with True show ?thesis by (simp add: shrink_to_fit_def ring_contents_def)
next
  case False
  let ?n = "min (max (readable_bytes q * 2) 1024) (capacity q)"
  have le: "readable_bytes q \<le> ?n"
    using readable_less_capacity [OF inv] by simp
  have "take (readable_bytes q) (copy_areas q ?n) = ring_contents q"
    unfolding copy_areas_eq [OF inv le] using length_ring_contents [OF inv] by simp
  then have "ring_contents (q\<lparr>buffer := copy_areas q ?n, read_pos := 0, write_pos := readable_bytes q\<rparr>)
      = ring_contents q"
    by (simp add: ring_contents_def [of "_\<lparr>write_pos := _\<rparr>"])
  with False show ?thesis by (simp add: shrink_to_fit_def Let_def)
qed

lemma shrink_inv:
  assumes inv: "ring_inv q"
  shows "ring_inv (shrink_to_fit q)"
    and "capacity (shrink_to_fit q) \<le> max (2 * readable_bytes q) 1024"
    and "capacity (shrink_to_fit q) \<le> capacity q"
  using inv copy_areas_eq [OF inv] length_ring_contents [OF inv]
  by (auto simp: shrink_to_fit_def Let_def ring_inv_def capacity_def min_def max_def ring_empty_def)

lemma all_less_two: "(\<forall>j < Suc (Suc 0). P j) \<longleftrightarrow> P 0 \<and> P (Suc 0)"
  by (auto simp: less_Suc_eq)

subsection \<open>Properties\<close>

text \<open>
  C10: writing appends. When the bytes fit, or when the buffer has to grow while its read position is
  zero, \<^verbatim>\<open>write\<close> takes all of them, puts them behind the bytes already there and keeps the
  invariant; a read of everything afterwards returns the old bytes followed by the new ones.
\<close>

theorem ring_write_appends:
  assumes "ring_inv q" and "length data \<le> writable_bytes q \<or> read_pos q = 0"
  shows "\<exists>q' q''. ring_write data q = (length data, q') \<and> ring_inv q' \<and>
    ring_contents q' = ring_contents q @ data \<and>
    ring_read (readable_bytes q') q' = Inr (ring_contents q @ data, q'') \<and> ring_contents q'' = []"
proof -
  obtain q' where q': "ring_write data q = (length data, q')" "ring_inv q'"
      "ring_contents q' = ring_contents q @ data"
    using ring_write_ok [OF assms] by blast
  moreover have "readable_bytes q' = length (ring_contents q @ data)"
    using length_ring_contents [OF q'(2)] q'(3) by simp
  ultimately show ?thesis
    using ring_read_ok [OF q'(2), of "readable_bytes q'"] by auto
qed

definition sample_ring :: ring where
  "sample_ring = \<lparr>buffer = [5, 0, 0, 3, 4], read_pos = 3, write_pos = 1\<rparr>"

lemma sample_ring_inv: "ring_inv sample_ring"
  by (simp add: sample_ring_def ring_inv_def capacity_def)

theorem ring_write_appends_witness:
  "ring_inv sample_ring \<and> length [7 :: byte] \<le> writable_bytes sample_ring \<and>
   (\<exists>q'. ring_write [7] sample_ring = (1, q') \<and> ring_contents q' = [3, 4, 5, 7])"
proof -
  have room: "length [7 :: byte] \<le> writable_bytes sample_ring"
    and c: "ring_contents sample_ring = [3, 4, 5]"
    by (simp_all add: sample_ring_def writable_bytes_def readable_bytes_def capacity_def
        ring_contents_def)
  show ?thesis
    using ring_write_appends [OF sample_ring_inv disjI1 [OF room]] sample_ring_inv room
    by (auto simp: c)
qed

text \<open>
  C29: growing keeps the contents exactly when the read position is zero. \<^verbatim>\<open>expand_if_needed\<close>
  recomputes the write position from \<^verbatim>\<open>readable_bytes()\<close> after it has reset the read position, so the
  new write position is the old one: with \<open>0 < read_pos\<close> the grown buffer holds \<open>write_pos\<close> bytes, the
  old contents cut off or padded with zeros.
\<close>

theorem ring_expand_keeps_iff:
  assumes "ring_inv q" and "writable_bytes q < n"
  shows "ring_contents (expand_if_needed n q) =
      take (write_pos q) (ring_contents q) @ replicate (write_pos q - readable_bytes q) 0 \<and>
    (ring_contents (expand_if_needed n q) = ring_contents q \<longleftrightarrow> read_pos q = 0)"
  using expand_contents [OF assms] expand_contents_iff [OF assms] by simp_all

theorem ring_expand_keeps_iff_witness:
  "ring_inv sample_ring \<and> writable_bytes sample_ring < 2 \<and> ring_contents sample_ring = [3, 4, 5] \<and>
   ring_contents (expand_if_needed 2 sample_ring) = [3]"
proof -
  have room: "writable_bytes sample_ring < 2"
    and c: "ring_contents sample_ring = [3, 4, 5]" "write_pos sample_ring = 1"
      "readable_bytes sample_ring = 3"
    by (simp_all add: sample_ring_def writable_bytes_def readable_bytes_def capacity_def
        ring_contents_def)
  show ?thesis
    using ring_expand_keeps_iff [OF sample_ring_inv room] sample_ring_inv room by (simp add: c)
qed

text \<open>
  C27: \<^verbatim>\<open>find\<close> returns the leftmost occurrence of the pattern in the buffered bytes, across the wrap of
  the vector, and \<^verbatim>\<open>npos\<close> only when there is none.
\<close>

theorem ring_find_leftmost:
  assumes "ring_inv q" and "p \<noteq> []"
  shows "case find_pattern p q of
      Some i \<Rightarrow> take (length p) (drop i (ring_contents q)) = p \<and>
        (\<forall>j < i. take (length p) (drop j (ring_contents q)) \<noteq> p)
    | None \<Rightarrow> (\<forall>j. take (length p) (drop j (ring_contents q)) \<noteq> p)"
proof (cases "length p \<le> readable_bytes q")
  case True
  have out: "j < Suc (readable_bytes q - length p)"
    if "take (length p) (drop j (ring_contents q)) = p" for j
  proof -
    from that have "length p \<le> readable_bytes q - j"
      using length_ring_contents [OF assms(1)]
      by (metis length_drop length_take min.cobounded1)
    with True assms(2) show ?thesis by (cases p) auto
  qed
  show ?thesis
    unfolding find_pattern_eq [OF assms True]
    using out by (auto simp: find_None_iff find_Some_iff split: option.split simp del: upt_Suc)
next
  case False
  then have "take (length p) (drop j (ring_contents q)) \<noteq> p" for j
    using length_ring_contents [OF assms(1)] by (metis diff_le_self length_drop length_take min.bounded_iff nat_le_linear min_def)
  with False show ?thesis by (simp add: find_pattern_def)
qed

theorem ring_find_leftmost_witness:
  "ring_inv sample_ring \<and> [4, 5 :: byte] \<noteq> [] \<and> find_pattern [4, 5] sample_ring = Some 1 \<and>
   take 2 (drop 1 (ring_contents sample_ring)) = [4, 5]"
proof -
  have "find_pattern [4, 5] sample_ring = Some 1"
    by (simp add: sample_ring_def find_pattern_def match_at_def capacity_def readable_bytes_def
        upt_rec all_less_two)
  then show ?thesis
    using ring_find_leftmost [OF sample_ring_inv, of "[4, 5]"] sample_ring_inv
    by (simp add: numeral_2_eq_2)
qed

text \<open>
  C28: \<^verbatim>\<open>shrink_to_fit\<close> keeps the buffered bytes and the invariant, never enlarges the vector, and
  leaves at most twice the bytes it holds, or 1024.
\<close>

theorem ring_shrink_safe:
  assumes "ring_inv q"
  shows "ring_contents (shrink_to_fit q) = ring_contents q \<and> ring_inv (shrink_to_fit q) \<and>
    capacity (shrink_to_fit q) \<le> min (capacity q) (max (2 * readable_bytes q) 1024)"
  using shrink_contents [OF assms] shrink_inv [OF assms] by simp

theorem ring_shrink_safe_witness:
  "ring_inv sample_ring \<and> ring_contents (shrink_to_fit sample_ring) = [3, 4, 5]"
  using ring_shrink_safe [OF sample_ring_inv] sample_ring_inv
  by (simp add: sample_ring_def ring_contents_def)

text \<open>
  The zero-copy areas. The readable areas are the buffered bytes, in order. The writable areas
  announce exactly \<^verbatim>\<open>writable_bytes()\<close> bytes, except when the read position is positive and not
  behind the write position: then they announce one byte more than \<^verbatim>\<open>has_written\<close> accepts.
\<close>

theorem ring_areas_total:
  assumes "ring_inv q"
  shows "area_bytes q (fst (readable_areas q)) @ area_bytes q (snd (readable_areas q)) = ring_contents q \<and>
    snd (fst (writable_areas q)) + snd (snd (writable_areas q)) =
      writable_bytes q + (if 0 < read_pos q \<and> read_pos q \<le> write_pos q \<and> \<not> ring_full q then 1 else 0)"
  using assms areas_contents [OF assms]
  by (auto simp: writable_areas_def ring_full_def writable_eq ring_inv_def readable_bytes_def)

theorem ring_areas_total_witness:
  "(let q = sample_ring\<lparr>write_pos := 4\<rparr>;
        n = snd (fst (writable_areas q)) + snd (snd (writable_areas q))
    in ring_inv q \<and> n = 4 \<and> has_written n q = Inl Out_Of_Range)"
proof -
  let ?q = "sample_ring\<lparr>write_pos := 4\<rparr>"
  have inv: "ring_inv ?q" by (simp add: sample_ring_def ring_inv_def capacity_def)
  have w: "writable_bytes ?q = 3"
    by (simp add: sample_ring_def writable_bytes_def readable_bytes_def capacity_def)
  have n: "snd (fst (writable_areas ?q)) + snd (snd (writable_areas ?q)) = 4"
    using ring_areas_total [OF inv] w by (simp add: ring_full_def) (simp add: sample_ring_def)
  with inv w show ?thesis by (simp only: Let_def n) (simp add: has_written_def)
qed

end
