(* ===== verification/Stream_Decoder.thy ===== *)
theory Stream_Decoder
  imports Prelude
begin

section \<open>Decoders of a byte stream\<close>

text \<open>
  A decoder looks at the front of a buffer and either wants more data, fails, or returns a value and
  the number of elements it used. \<open>decode_all\<close> is the loop the code runs around such a decoder: take
  values off the front until it wants more. The locale \<open>stream_decoder\<close> states what makes that loop
  independent of how the network cut the stream: a decoder that has made up its mind does not change it
  when more data arrives, and it uses up at least one element.

  The frame decoder of \<^verbatim>\<open>websocket_frame.cpp\<close> is an instance, see \<open>Websocket_Frame\<close>.
\<close>

datatype 'f decode_result = Incomplete | Failed | Decoded nat 'f

function decode_all :: "('a list \<Rightarrow> 'f decode_result) \<Rightarrow> 'a list \<Rightarrow> 'f list \<times> 'a list" where
  "decode_all dec xs =
     (case dec xs of
        Decoded n f \<Rightarrow>
          if 0 < n \<and> n \<le> length xs
          then (case decode_all dec (drop n xs) of (fs, rest) \<Rightarrow> (f # fs, rest))
          else ([], xs)
      | Incomplete \<Rightarrow> ([], xs)
      | Failed \<Rightarrow> ([], xs))"
  by pat_completeness auto
termination
  by (relation "measure (\<lambda>(dec, xs). length xs)") auto

declare decode_all.simps [simp del]

locale stream_decoder =
  fixes decode :: "'a list \<Rightarrow> 'f decode_result"
  assumes consumed: "decode xs = Decoded n f \<Longrightarrow> 0 < n \<and> n \<le> length xs"
    and stable: "decode xs \<noteq> Incomplete \<Longrightarrow> decode (xs @ ys) = decode xs"
begin

lemma decode_all_step:
  "decode xs = Decoded n f \<Longrightarrow>
     decode_all decode xs = (f # fst (decode_all decode (drop n xs)), snd (decode_all decode (drop n xs)))"
  using consumed [of xs n f] by (subst decode_all.simps) (simp split: prod.split)

lemma decode_all_stop:
  "decode xs = Incomplete \<or> decode xs = Failed \<Longrightarrow> decode_all decode xs = ([], xs)"
  by (subst decode_all.simps) auto

lemma decode_all_append:
  "decode_all decode (xs @ ys) =
     (fst (decode_all decode xs) @ fst (decode_all decode (snd (decode_all decode xs) @ ys)),
      snd (decode_all decode (snd (decode_all decode xs) @ ys)))"
proof (induction "length xs" arbitrary: xs rule: less_induct)
  case less
  show ?case
  proof (cases "decode xs")
    case (Decoded n f)
    have n: "0 < n" "n \<le> length xs" using consumed [OF Decoded] by auto
    have "decode (xs @ ys) = Decoded n f" using stable [of xs ys] Decoded by simp
    moreover have "drop n (xs @ ys) = drop n xs @ ys" using n by simp
    moreover have "length (drop n xs) < length xs" using n by simp
    ultimately show ?thesis
      using less [of "drop n xs"] Decoded by (simp add: decode_all_step)
  qed (simp_all add: decode_all_stop)
qed

lemma decode_all_chunks:
  "foldl (\<lambda>(fs, buf) ys. (fs @ fst (decode_all decode (buf @ ys)), snd (decode_all decode (buf @ ys))))
     (decode_all decode xs) chunks
   = decode_all decode (xs @ concat chunks)"
proof (induction chunks arbitrary: xs)
  case (Cons y chunks)
  have "decode_all decode (xs @ y) =
      (case decode_all decode xs of (fs, buf) \<Rightarrow>
         (fs @ fst (decode_all decode (buf @ y)), snd (decode_all decode (buf @ y))))"
    using decode_all_append [of xs y] by (simp split: prod.split)
  then show ?case using Cons [of "xs @ y"] by (cases "decode_all decode xs") simp
qed simp

lemma decode_all_encoded:
  assumes "\<And>f rest. ok f \<Longrightarrow> decode (encode f @ rest) = Decoded (length (encode f)) f"
    and "\<forall>f \<in> set fs. ok f"
  shows "decode_all decode (concat (map encode fs) @ rest) =
    (fs @ fst (decode_all decode rest), snd (decode_all decode rest))"
  using assms(2)
proof (induction fs)
  case (Cons f fs)
  have "decode (concat (map encode (f # fs)) @ rest) = Decoded (length (encode f)) f"
    using assms(1) [of f "concat (map encode fs) @ rest"] Cons.prems by simp
  from decode_all_step [OF this] show ?case
    using Cons by simp
qed simp

end

end
