(* ===== verification/Cpp_String.thy ===== *)
theory Cpp_String
  imports Prelude
begin

section \<open>The part of the C++ string library the server uses\<close>

text \<open>
  A \<^verbatim>\<open>std::string\<close> is a list of bytes; \<open>str\<close> turns an ASCII literal into one. \<^verbatim>\<open>npos\<close> is \<open>None\<close>. The
  definitions cover the calls that occur in the sources: \<^verbatim>\<open>find\<close> of a substring from a position,
  \<^verbatim>\<open>find_first_of\<close>, \<^verbatim>\<open>find_last_of\<close>, \<^verbatim>\<open>substr\<close> with a position inside the string (the only way it is called), extraction of
  words by \<^verbatim>\<open>operator>>\<close>, \<^verbatim>\<open>tolower\<close>, \<^verbatim>\<open>std::stoul\<close>, \<^verbatim>\<open>std::stoi\<close> with their two exceptions, and
  \<^verbatim>\<open>std::to_string\<close>. The character classes are those of the C locale.
\<close>

definition str :: "string \<Rightarrow> bytes" where
  "str s = map of_char s"

abbreviation (input) CR :: byte where "CR \<equiv> 13"
abbreviation (input) LF :: byte where "LF \<equiv> 10"

definition CRLF :: bytes where
  "CRLF = [CR, LF]"

definition starts_with :: "bytes \<Rightarrow> bytes \<Rightarrow> bool" where
  "starts_with p s \<longleftrightarrow> take (length p) s = p"

fun find_sub :: "bytes \<Rightarrow> bytes \<Rightarrow> nat option" where
  "find_sub p [] = (if p = [] then Some 0 else None)"
| "find_sub p (x # xs) = (if starts_with p (x # xs) then Some 0 else map_option Suc (find_sub p xs))"

definition cpp_find :: "bytes \<Rightarrow> nat \<Rightarrow> bytes \<Rightarrow> nat option" where
  "cpp_find p pos s = (if length s < pos then None else map_option (\<lambda>i. pos + i) (find_sub p (drop pos s)))"

definition contains :: "bytes \<Rightarrow> bytes \<Rightarrow> bool" where
  "contains s p \<longleftrightarrow> cpp_find p 0 s \<noteq> None"

definition find_first_of :: "byte set \<Rightarrow> nat \<Rightarrow> bytes \<Rightarrow> nat option" where
  "find_first_of cs pos s =
     (let n = length (takeWhile (\<lambda>c. c \<notin> cs) (drop pos s))
      in if pos + n < length s then Some (pos + n) else None)"

definition substr :: "bytes \<Rightarrow> nat \<Rightarrow> nat \<Rightarrow> bytes" where
  "substr s pos n = take n (drop pos s)"

text \<open>\<^verbatim>\<open>s.substr(pos, end - pos)\<close> where \<^verbatim>\<open>end\<close> may be \<^verbatim>\<open>npos\<close>: everything from \<open>pos\<close> on.\<close>

definition substr_to :: "bytes \<Rightarrow> nat \<Rightarrow> nat option \<Rightarrow> bytes" where
  "substr_to s pos e = (case e of None \<Rightarrow> drop pos s | Some j \<Rightarrow> substr s pos (j - pos))"

definition is_blank :: "byte \<Rightarrow> bool" where
  "is_blank c \<longleftrightarrow> c = 32 \<or> c = 9"

definition is_space :: "byte \<Rightarrow> bool" where
  "is_space c \<longleftrightarrow> c = 32 \<or> (9 \<le> c \<and> c \<le> 13)"

definition trim_left :: "bytes \<Rightarrow> bytes" where
  "trim_left s = dropWhile is_blank s"

definition trim_right :: "bytes \<Rightarrow> bytes" where
  "trim_right s = rev (dropWhile is_blank (rev s))"

definition skip_blanks :: "bytes \<Rightarrow> nat \<Rightarrow> nat" where
  "skip_blanks s pos = pos + length (takeWhile is_blank (drop pos s))"

definition read_word :: "bytes \<Rightarrow> (bytes \<times> bytes) option" where
  "read_word s =
     (let t = dropWhile is_space s
      in if t = [] then None
         else Some (takeWhile (\<lambda>c. \<not> is_space c) t, dropWhile (\<lambda>c. \<not> is_space c) t))"

definition to_lower :: "byte \<Rightarrow> byte" where
  "to_lower c = (if 65 \<le> c \<and> c \<le> 90 then c + 32 else c)"

definition is_digit :: "byte \<Rightarrow> bool" where
  "is_digit c \<longleftrightarrow> 48 \<le> c \<and> c \<le> 57"

datatype conv_error = Conv_Invalid_Argument | Conv_Out_Of_Range

definition digits_value :: "bytes \<Rightarrow> nat" where
  "digits_value ds = foldl (\<lambda>v d. 10 * v + (unat d - 48)) 0 ds"

definition split_sign :: "bytes \<Rightarrow> bool \<times> bytes" where
  "split_sign s =
     (case dropWhile is_space s of
        [] \<Rightarrow> (False, [])
      | c # cs \<Rightarrow> if c = 45 then (True, cs) else if c = 43 then (False, cs) else (False, c # cs))"

definition stoul :: "bytes \<Rightarrow> conv_error + nat" where
  "stoul s =
     (case split_sign s of (neg, t) \<Rightarrow>
        let ds = takeWhile is_digit t; v = digits_value ds
        in if ds = [] then Inl Conv_Invalid_Argument
           else if 2 ^ 64 \<le> v then Inl Conv_Out_Of_Range
           else Inr (if neg then (2 ^ 64 - v) mod 2 ^ 64 else v))"

definition stoi :: "bytes \<Rightarrow> conv_error + int" where
  "stoi s =
     (case split_sign s of (neg, t) \<Rightarrow>
        let ds = takeWhile is_digit t; v = (if neg then - int (digits_value ds) else int (digits_value ds))
        in if ds = [] then Inl Conv_Invalid_Argument
           else if v < - (2 ^ 31) \<or> 2 ^ 31 \<le> v then Inl Conv_Out_Of_Range
           else Inr v)"

fun nat_digits :: "nat \<Rightarrow> bytes" where
  "nat_digits n = (if n < 10 then [of_nat (48 + n)] else nat_digits (n div 10) @ [of_nat (48 + n mod 10)])"

declare nat_digits.simps [simp del]

definition to_string :: "int \<Rightarrow> bytes" where
  "to_string i = (if i < 0 then 45 # nat_digits (nat (- i)) else nat_digits (nat i))"

text \<open>What C code reads of \<^verbatim>\<open>s.c_str()\<close>: the bytes before the first zero.\<close>

definition c_text :: "bytes \<Rightarrow> bytes" where
  "c_text s = takeWhile (\<lambda>c. c \<noteq> 0) s"

definition find_last_of :: "byte \<Rightarrow> bytes \<Rightarrow> nat option" where
  "find_last_of c s =
     (if c \<in> set s then Some (length s - 1 - length (takeWhile (\<lambda>x. x \<noteq> c) (rev s))) else None)"

subsection \<open>Searching\<close>

lemma str_simps: "str (c # cs) = of_char c # str cs" "str [] = []"
  by (simp_all add: str_def)

lemma starts_with_append: "starts_with p s \<Longrightarrow> starts_with p (s @ t)"
  by (metis append.assoc append_eq_conv_conj append_take_drop_id starts_with_def)

lemma starts_with_length: "starts_with p s \<Longrightarrow> length p \<le> length s"
  by (metis length_take min.cobounded2 min.commute starts_with_def)

lemma find_sub_Some:
  "find_sub p s = Some i \<Longrightarrow> i + length p \<le> length s \<and> starts_with p (drop i s)"
proof (induction s arbitrary: i)
  case Nil
  then show ?case by (simp add: starts_with_def split: if_splits)
next
  case (Cons x s)
  then show ?case
    using starts_with_length [of p "x # s"] by (cases i) (auto split: if_splits)
qed

lemma find_sub_least: "find_sub p s = Some i \<Longrightarrow> j < i \<Longrightarrow> \<not> starts_with p (drop j s)"
proof (induction s arbitrary: i j)
  case (Cons x s)
  then show ?case by (cases j) (auto split: if_splits)
qed (simp split: if_splits)

lemma find_sub_None: "find_sub p s = None \<longleftrightarrow> (\<forall>i. \<not> starts_with p (drop i s))"
proof (induction s)
  case Nil
  then show ?case by (simp add: starts_with_def)
next
  case (Cons x s)
  have "(\<forall>i. \<not> starts_with p (drop i (x # s))) \<longleftrightarrow>
      \<not> starts_with p (x # s) \<and> (\<forall>i. \<not> starts_with p (drop i s))"
    by (metis drop0 drop_Suc_Cons not0_implies_Suc)
  with Cons show ?case by simp
qed

lemma find_sub_append: "find_sub p s = Some i \<Longrightarrow> find_sub p (s @ t) = Some i"
proof (induction s arbitrary: i)
  case Nil
  then show ?case by (cases t) (auto simp: starts_with_def split: if_splits)
next
  case (Cons x s)
  show ?case
  proof (cases "starts_with p (x # s)")
    case True
    then show ?thesis using Cons.prems starts_with_append [of p "x # s" t] by simp
  next
    case False
    with Cons.prems obtain j where j: "find_sub p s = Some j" "i = Suc j" by auto
    have "\<not> starts_with p ((x # s) @ t)"
    proof
      assume "starts_with p ((x # s) @ t)"
      moreover have "length p \<le> length (x # s)" using find_sub_Some [OF j(1)] by simp
      ultimately have "starts_with p (x # s)" by (simp only: starts_with_def take_append) simp
      with False show False by simp
    qed
    with Cons.IH [OF j(1)] j(2) show ?thesis by simp
  qed
qed

lemma find_sub_single:
  "c \<notin> set xs \<Longrightarrow> find_sub [c] (xs @ c # ys) = Some (length xs)"
  "c \<notin> set xs \<Longrightarrow> find_sub [c] xs = None"
  by (induction xs) (auto simp: starts_with_def)

lemma cpp_find_0 [simp]: "cpp_find p 0 s = find_sub p s"
  by (cases "find_sub p s") (simp_all add: cpp_find_def)

lemma cpp_find_bounds: "cpp_find p pos s = Some i \<Longrightarrow> pos \<le> i \<and> i + length p \<le> length s"
  by (auto simp: cpp_find_def split: if_splits dest!: find_sub_Some)

lemma cpp_find_append: "cpp_find p pos s = Some i \<Longrightarrow> cpp_find p pos (s @ t) = Some i"
  by (auto simp: cpp_find_def find_sub_append split: if_splits)

lemma length_CRLF [simp]: "length CRLF = 2"
  by (simp add: CRLF_def)

subsection \<open>Decimal numbers\<close>

lemma digits_value_snoc [simp]: "digits_value (ds @ [d]) = 10 * digits_value ds + (unat d - 48)"
  by (simp add: digits_value_def)

lemma unat_digit: "n < 10 \<Longrightarrow> unat (of_nat (48 + n) :: byte) = 48 + n"
  by (simp add: unat_of_nat del: of_nat_add)

lemma is_digit_of_nat: "n < 10 \<Longrightarrow> is_digit (of_nat (48 + n))"
  using unat_digit [of n] by (simp add: is_digit_def word_le_nat_alt del: of_nat_add)

lemma nat_digits_value: "digits_value (nat_digits n) = n"
proof (induction n rule: nat_digits.induct)
  case (1 n)
  show ?case
  proof (cases "n < 10")
    case True
    then show ?thesis
      using digits_value_snoc [of "[]" "of_nat (48 + n)"] unat_digit [of n]
      by (subst nat_digits.simps) (simp add: digits_value_def del: of_nat_add)
  next
    case False
    then show ?thesis
      using 1 unat_digit [of "n mod 10"]
      by (subst nat_digits.simps) (simp del: of_nat_add)
  qed
qed

lemma nat_digits_are_digits: "\<forall>d \<in> set (nat_digits n). is_digit d"
proof (induction n rule: nat_digits.induct)
  case (1 n)
  then show ?case
    using is_digit_of_nat [of n] is_digit_of_nat [of "n mod 10"]
    by (subst nat_digits.simps) (auto simp del: of_nat_add)
qed

lemma nat_digits_not_Nil [simp]: "nat_digits n \<noteq> []"
  by (subst nat_digits.simps) simp

lemma digit_not_space: "is_digit d \<Longrightarrow> \<not> is_space d \<and> d \<noteq> 45 \<and> d \<noteq> 43"
  by (auto simp: is_digit_def is_space_def word_le_nat_alt)

lemma split_sign_digits: "split_sign (nat_digits n @ t) = (False, nat_digits n @ t)"
proof -
  obtain d ds where ds: "nat_digits n = d # ds" by (cases "nat_digits n") auto
  then have "is_digit d" using nat_digits_are_digits [of n] by simp
  with ds show ?thesis using digit_not_space [of d] by (simp add: split_sign_def)
qed

lemma takeWhile_digits:
  "(\<forall>c cs. t = c # cs \<longrightarrow> \<not> is_digit c) \<Longrightarrow> takeWhile is_digit (nat_digits n @ t) = nat_digits n"
  using nat_digits_are_digits [of n] by (cases t) (auto simp: takeWhile_append)

text \<open>\<^verbatim>\<open>stoul\<close> reads back what \<^verbatim>\<open>to_string\<close> printed.\<close>

lemma stoul_nat_digits: "n < 2 ^ 64 \<Longrightarrow> stoul (nat_digits n) = Inr n"
proof -
  have t: "takeWhile is_digit (nat_digits n) = nat_digits n"
    using nat_digits_are_digits [of n] by (simp add: takeWhile_eq_all_conv)
  assume "n < 2 ^ 64"
  then show ?thesis
    using split_sign_digits [of n "[]"] nat_digits_value [of n] by (simp add: stoul_def Let_def t)
qed

lemma stoul_bound: "stoul s = Inr n \<Longrightarrow> n < 2 ^ 64"
  by (auto simp: stoul_def Let_def split: prod.splits if_splits)

lemma stoi_to_string:
  assumes "- (2 ^ 31) \<le> n" and "n < 2 ^ 31"
  shows "stoi (to_string n) = Inr n"
proof -
  have t: "takeWhile is_digit (nat_digits k) = nat_digits k" for k
    using nat_digits_are_digits [of k] by (simp add: takeWhile_eq_all_conv)
  have "split_sign (to_string n) = (n < 0, nat_digits (nat \<bar>n\<bar>))"
  proof (cases "n < 0")
    case True
    then show ?thesis by (simp add: to_string_def split_sign_def is_space_def)
  next
    case False
    then show ?thesis using split_sign_digits [of "nat n" "[]"] by (simp add: to_string_def)
  qed
  with assms show ?thesis by (simp add: stoi_def Let_def t nat_digits_value)
qed

lemma to_string_chars: "c \<in> set (to_string n) \<Longrightarrow> is_digit c \<or> c = 45"
  using nat_digits_are_digits by (auto simp: to_string_def split: if_splits)

lemma to_string_not_Nil [simp]: "to_string n \<noteq> []"
  by (simp add: to_string_def)

subsection \<open>C strings and the last occurrence\<close>

lemma c_text_id: "0 \<notin> set s \<Longrightarrow> c_text s = s"
  by (auto simp: c_text_def takeWhile_eq_all_conv)

lemma find_last_of_app: "c \<notin> set t \<Longrightarrow> find_last_of c (s @ c # t) = Some (length s)"
proof -
  assume "c \<notin> set t"
  then have "takeWhile (\<lambda>x. x \<noteq> c) (rev (s @ c # t)) = rev t"
    by (subst rev_append, simp, subst takeWhile_append2) auto
  then show ?thesis by (simp add: find_last_of_def)
qed

lemma find_last_of_bound: "find_last_of c s = Some i \<Longrightarrow> i < length s"
  by (cases s) (auto simp: find_last_of_def split: if_splits)

end
