(* ===== verification/Websocket_Frame.thy ===== *)
theory Websocket_Frame
  imports Stream_Decoder
begin

section \<open>The WebSocket frame codec (\<^verbatim>\<open>src/application/websocket/websocket_frame.cpp\<close>)\<close>

text \<open>
  \<^verbatim>\<open>FrameCodec::Encode\<close> and \<^verbatim>\<open>Decode\<close> with their helpers. A frame is the record \<open>frame\<close>; the enumeration
  \<^verbatim>\<open>Opcode\<close> has the underlying type \<^verbatim>\<open>uint8_t\<close>, so an opcode is a byte and the enumerators are its
  named values. \<^verbatim>\<open>Decode\<close> returns 0 for incomplete data (\<open>Incomplete\<close>); the exception
  \<^verbatim>\<open>std::length_error\<close> of \<^verbatim>\<open>payload.resize\<close> is \<open>Failed\<close>. The addition \<^verbatim>\<open>pos + payload_len\<close> is
  a 64-bit addition and wraps. The masking key is read through a pointer to the bytes of a
  \<^verbatim>\<open>uint32_t\<close>; the model fixes the byte order of the platform to little endian.
\<close>

unbundle bit_operations_syntax

type_synonym opcode = byte

abbreviation (input) CONTINUATION :: opcode where "CONTINUATION \<equiv> 0x0"
abbreviation (input) TEXT :: opcode where "TEXT \<equiv> 0x1"
abbreviation (input) BINARY :: opcode where "BINARY \<equiv> 0x2"
abbreviation (input) CLOSE :: opcode where "CLOSE \<equiv> 0x8"
abbreviation (input) PING :: opcode where "PING \<equiv> 0x9"
abbreviation (input) PONG :: opcode where "PONG \<equiv> 0xA"

record frame =
  fin :: bool
  opcode :: opcode
  mask :: bool
  payload_len :: u64
  masking_key :: u32
  payload :: bytes

primrec WriteUint64 :: "u64 \<Rightarrow> nat \<Rightarrow> bytes" where
  "WriteUint64 v 0 = []"
| "WriteUint64 v (Suc i) = ucast (drop_bit (i * 8) v AND 0xFF) # WriteUint64 v i"

definition ReadUint64 :: "bytes \<Rightarrow> nat \<Rightarrow> nat \<Rightarrow> u64" where
  "ReadUint64 data offset n = foldl (\<lambda>v b. push_bit 8 v OR ucast b) 0 (take n (drop offset data))"

definition key_byte :: "u32 \<Rightarrow> nat \<Rightarrow> byte" where
  "key_byte key i = ucast (drop_bit (8 * i) key)"

definition xor_mask :: "u32 \<Rightarrow> bytes \<Rightarrow> bytes" where
  "xor_mask key bs = map (\<lambda>i. bs ! i XOR key_byte key (i mod 4)) [0..<length bs]"

definition Encode :: "frame \<Rightarrow> bytes" where
  "Encode f =
     (let byte0 = (if fin f then 0x80 else 0) OR (opcode f AND 0x0F);
          byte1 = (if mask f then 0x80 else 0);
          len = payload_len f;
          head = (if len < 126 then [byte1 OR ucast len]
                  else if len \<le> 0xFFFF then (byte1 OR 126) # WriteUint64 len 2
                  else (byte1 OR 127) # WriteUint64 len 8)
      in byte0 # head @ (if mask f then WriteUint64 (ucast (masking_key f)) 4 else []) @
         (if mask f \<and> payload f \<noteq> [] then xor_mask (masking_key f) (payload f) else payload f))"

text \<open>
  The extended length and the masking key, each with the position behind it; \<open>None\<close> where the code
  returns 0 because the field is not complete.
\<close>

definition read_length :: "bytes \<Rightarrow> byte \<Rightarrow> (u64 \<times> nat) option" where
  "read_length data byte1 =
     (let len = ucast (byte1 AND 0x7F) :: u64; pos = 2
      in if len = 126 then (if length data < pos + 2 then None else Some (ReadUint64 data pos 2, pos + 2))
         else if len = 127 then (if length data < pos + 8 then None else Some (ReadUint64 data pos 8, pos + 8))
         else Some (len, pos))"

definition read_key :: "bytes \<Rightarrow> bool \<Rightarrow> nat \<Rightarrow> (u32 \<times> nat) option" where
  "read_key data masked pos =
     (if masked then (if length data < pos + 4 then None
                      else Some (ucast (ReadUint64 data pos 4), pos + 4))
      else Some (0, pos))"

definition vector_max_size :: nat where
  "vector_max_size = 2 ^ 63 - 1"

definition Decode :: "bytes \<Rightarrow> frame decode_result" where
  "Decode data =
     (if length data < 2 then Incomplete
      else let byte0 = data ! 0; byte1 = data ! 1; masked = (byte1 AND 0x80 \<noteq> 0)
           in case read_length data byte1 of
                None \<Rightarrow> Incomplete
              | Some (len, pos1) \<Rightarrow>
                  (case read_key data masked pos1 of
                     None \<Rightarrow> Incomplete
                   | Some (key, pos) \<Rightarrow>
                       if length data < unat (of_nat pos + len) then Incomplete
                       else if vector_max_size < unat len then Failed
                       else let copied = take (unat len) (drop pos data)
                            in Decoded (pos + unat len)
                              \<lparr>fin = (byte0 AND 0x80 \<noteq> 0), opcode = byte0 AND 0x0F, mask = masked,
                               payload_len = len, masking_key = key,
                               payload = (if masked \<and> 0 < len then xor_mask key copied else copied)\<rparr>))"

definition EncodeData :: "bytes \<Rightarrow> opcode \<Rightarrow> bool \<Rightarrow> bytes" where
  "EncodeData bs op is_fin =
     Encode \<lparr>fin = is_fin, opcode = op, mask = False, payload_len = of_nat (length bs),
             masking_key = 0, payload = bs\<rparr>"

definition EncodeText :: "bytes \<Rightarrow> bytes" where
  "EncodeText txt = EncodeData txt TEXT True"

definition EncodeBinary :: "bytes \<Rightarrow> bytes" where
  "EncodeBinary data = EncodeData data BINARY True"

definition EncodePing :: bytes where
  "EncodePing = EncodeData [] PING True"

definition EncodePong :: bytes where
  "EncodePong = EncodeData [] PONG True"

definition EncodeClose :: "u16 \<Rightarrow> bytes \<Rightarrow> bytes" where
  "EncodeClose code reason =
     EncodeData (ucast (drop_bit 8 code AND 0xFF) # ucast (code AND 0xFF) # reason) CLOSE True"

subsection \<open>Integers and masking\<close>

lemma length_WriteUint64 [simp]: "length (WriteUint64 v n) = n"
  by (induction n) auto

lemma and_FF: "x AND 0xFF = take_bit 8 x" for x :: "'a::len word"
  by (simp add: take_bit_eq_mask mask_eq_exp_minus_1)

lemma shift_in_byte:
  "push_bit m (push_bit 8 acc OR take_bit 8 (drop_bit m v)) OR take_bit m v =
     push_bit (m + 8) acc OR take_bit (m + 8) v" for acc v :: u64
proof (rule bit_word_eqI)
  fix i assume "i < LENGTH(64)"
  then show "bit (push_bit m (push_bit 8 acc OR take_bit 8 (drop_bit m v)) OR take_bit m v) i =
      bit (push_bit (m + 8) acc OR take_bit (m + 8) v) i"
    by (cases "i < m"; cases "i < m + 8") (auto simp: bit_simps)
qed

lemma foldl_WriteUint64:
  "foldl (\<lambda>v b. push_bit 8 v OR ucast b) acc (WriteUint64 v n) = push_bit (8 * n) acc OR take_bit (8 * n) v"
  for acc v :: u64
proof (induction n arbitrary: acc)
  case (Suc n)
  have "(ucast (ucast (drop_bit (n * 8) v AND 0xFF) :: byte) :: u64) = take_bit 8 (drop_bit (8 * n) v)"
    unfolding and_FF by (auto intro!: bit_word_eqI simp: bit_simps ac_simps)
  then show ?case
    using shift_in_byte [of "8 * n" acc v] by (simp only: WriteUint64.simps foldl.simps Suc) (simp add: ac_simps)
qed (simp add: bit_eq_iff bit_simps)

lemma ReadUint64_Write:
  "ReadUint64 (pre @ WriteUint64 v n @ rest) (length pre) n = take_bit (8 * n) v"
  by (simp add: ReadUint64_def foldl_WriteUint64)

lemma ReadUint64_append:
  "off + n \<le> length xs \<Longrightarrow> ReadUint64 (xs @ ys) off n = ReadUint64 xs off n"
  by (simp add: ReadUint64_def)

lemma length_xor_mask [simp]: "length (xor_mask k bs) = length bs"
  by (simp add: xor_mask_def)

lemma nth_xor_mask [simp]: "i < length bs \<Longrightarrow> xor_mask k bs ! i = bs ! i XOR key_byte k (i mod 4)"
  by (simp add: xor_mask_def)

lemma xor_mask_Nil [simp]: "xor_mask k [] = []"
  by (simp add: xor_mask_def)

lemma xor_mask_twice [simp]: "xor_mask k (xor_mask k bs) = bs"
  by (rule nth_equalityI) (simp_all add: xor.assoc)


subsection \<open>The decoder on a growing buffer\<close>

lemma read_length_bounds:
  "read_length data b = Some (len, pos) \<Longrightarrow> 2 \<le> pos \<and> pos \<le> 10 \<and> pos \<le> max 2 (length data)"
  by (auto simp: read_length_def Let_def split: if_splits)

lemma read_key_bounds:
  "read_key data m pos1 = Some (key, pos) \<Longrightarrow> pos1 \<le> pos \<and> pos \<le> pos1 + 4 \<and> pos \<le> max pos1 (length data)"
  by (auto simp: read_key_def split: if_splits)

lemma read_length_append:
  "read_length data b = Some r \<Longrightarrow> read_length (data @ ext) b = Some r"
  by (auto simp: read_length_def Let_def ReadUint64_append split: if_splits)

lemma read_key_append:
  "read_key data m pos = Some r \<Longrightarrow> read_key (data @ ext) m pos = Some r"
  by (auto simp: read_key_def ReadUint64_append split: if_splits)

lemma unat_pos_add:
  assumes "unat len \<le> vector_max_size" and "pos \<le> 14"
  shows "unat (of_nat pos + len :: u64) = pos + unat len"
proof -
  have "unat (of_nat pos :: u64) = pos" using assms(2) by (simp add: unat_of_nat)
  moreover have "unat (of_nat pos :: u64) + unat len < 2 ^ 64"
    using assms calculation by (simp add: vector_max_size_def)
  ultimately show ?thesis
    using unat_add_lem [of "of_nat pos :: u64" len] by simp
qed

lemma Decode_consumed:
  assumes "Decode data = Decoded n f"
  shows "0 < n \<and> n \<le> length data"
proof -
  from assms have len2: "2 \<le> length data" by (auto simp: Decode_def split: if_splits)
  with assms obtain len pos1 key pos where
      l: "read_length data (data ! 1) = Some (len, pos1)"
    and k: "read_key data (data ! 1 AND 0x80 \<noteq> 0) pos1 = Some (key, pos)"
    and fit: "unat (of_nat pos + len :: u64) \<le> length data" "unat len \<le> vector_max_size"
    and n: "n = pos + unat len"
    by (auto simp: Decode_def Let_def split: if_splits option.splits prod.splits)
  have "pos \<le> 14" "2 \<le> pos"
    using read_length_bounds [OF l] read_key_bounds [OF k] by auto
  then show ?thesis using fit n unat_pos_add [of len pos] by simp
qed

lemma Decode_stable:
  assumes "Decode data \<noteq> Incomplete"
  shows "Decode (data @ ext) = Decode data"
proof -
  from assms have len2: "2 \<le> length data" by (auto simp: Decode_def split: if_splits)
  with assms obtain len pos1 key pos where
      l: "read_length data (data ! 1) = Some (len, pos1)"
    and k: "read_key data (data ! 1 AND 0x80 \<noteq> 0) pos1 = Some (key, pos)"
    and fit: "unat (of_nat pos + len :: u64) \<le> length data"
    by (auto simp: Decode_def Let_def split: if_splits option.splits prod.splits)
  have pos: "pos \<le> 14" "2 \<le> pos"
    using read_length_bounds [OF l] read_key_bounds [OF k] by auto
  have nth: "(data @ ext) ! 0 = data ! 0" "(data @ ext) ! Suc 0 = data ! Suc 0"
    using len2 by (auto simp: nth_append)
  have "unat len - (length data - pos) = 0" if "unat len \<le> vector_max_size"
    using fit unat_pos_add [OF that pos(1)] by simp
  then show ?thesis
    using len2 l k fit read_length_append [OF l, of ext] read_key_append [OF k, of ext]
    unfolding Decode_def by (auto simp: nth not_less Let_def)
qed

interpretation ws: stream_decoder Decode
  by unfold_locales (simp_all add: Decode_consumed Decode_stable)

subsection \<open>Encoding and decoding\<close>


lemma take_bit_self: "uint w < 2 ^ n \<Longrightarrow> take_bit n w = w" for w :: "'a::len word"
  by (rule word_uint_eqI) (simp add: unsigned_take_bit_eq take_bit_int_eq_self)

lemma and_7F: "x AND 0x7F = take_bit 7 x" for x :: "'a::len word"
  by (simp add: take_bit_eq_mask mask_eq_exp_minus_1)

lemma and_0F: "x AND 0x0F = take_bit 4 x" for x :: "'a::len word"
  by (simp add: take_bit_eq_mask mask_eq_exp_minus_1)

lemma bit_80: "bit (0x80 :: int) i \<longleftrightarrow> i = 7"
proof -
  have e: "(0x80 :: int) = 2 ^ 7" by simp
  show ?thesis unfolding e bit_exp_iff by auto
qed

lemma and_80: "x AND 0x80 \<noteq> 0 \<longleftrightarrow> bit x 7" for x :: byte
  unfolding bit_eq_iff by (auto simp: bit_simps bit_80)

definition flag :: "bool \<Rightarrow> byte" where "flag b = (if b then 0x80 else 0)"

lemma flag_or:
  assumes "uint c < 128"
  shows "(flag m OR c) AND 0x7F = c" and "(flag m OR c) AND 0x80 \<noteq> 0 \<longleftrightarrow> m"
proof -
  have c: "take_bit 7 c = c" using assms by (simp add: take_bit_self)
  then have b7: "\<not> bit c 7" by (metis bit_take_bit_iff less_irrefl)
  have "take_bit 7 (flag m OR c) = take_bit 7 c"
    by (rule bit_word_eqI) (auto simp: bit_simps flag_def bit_80)
  then show "(flag m OR c) AND 0x7F = c" using c by (simp add: and_7F)
  show "(flag m OR c) AND 0x80 \<noteq> 0 \<longleftrightarrow> m"
    unfolding and_80 using b7 by (simp add: bit_simps flag_def bit_80)
qed

definition length_code :: "u64 \<Rightarrow> byte \<times> bytes" where
  "length_code len = (if len < 126 then (ucast len, [])
     else if len \<le> 0xFFFF then (126, WriteUint64 len 2) else (127, WriteUint64 len 8))"

lemma uint_less: "w < (numeral n :: 'a::len word) \<Longrightarrow> (numeral n :: int) < 2 ^ LENGTH('a) \<Longrightarrow>
  uint w < numeral n"
  by (simp add: word_less_def take_bit_int_eq_self)

lemma length_code_bound: "uint (fst (length_code len)) < 128"
proof (cases "len < 126")
  case True
  then have "uint len < 126" by (simp add: uint_less)
  then show ?thesis using True
    by (simp add: length_code_def unsigned_ucast_eq take_bit_int_eq_self)
qed (simp add: length_code_def)

lemma read_length_code:
  assumes code: "length_code len = (c, ext)"
  shows "read_length (b0 # (flag m OR c) # ext @ tail) (flag m OR c) = Some (len, 2 + length ext)"
proof -
  have c: "(flag m OR c) AND 0x7F = c"
    using flag_or(1) [of c m] length_code_bound [of len] code by simp
  consider (short) "len < 126" | (medium) "\<not> len < 126" "len \<le> 0xFFFF" | (long) "\<not> len < 126" "\<not> len \<le> 0xFFFF"
    by blast
  then show ?thesis
  proof cases
    case short
    then have "uint len < 126" by (simp add: uint_less)
    then have "(ucast (ucast len :: byte) :: u64) = len"
      using take_bit_self [of len 8] by (simp add: unsigned_ucast_eq)
    with short code show ?thesis
      unfolding read_length_def c by (auto simp: length_code_def Let_def)
  next
    case medium
    then have "uint len < 0x10000" by (simp add: word_le_def)
    then have "take_bit 16 len = len" by (simp add: take_bit_self)
    then have "ReadUint64 (b0 # (flag m OR 126) # WriteUint64 len 2 @ tail) 2 2 = len"
      using ReadUint64_Write [of "[b0, flag m OR 126]" len 2 tail] by (simp add: numeral_2_eq_2)
    moreover have "c = 126" "ext = WriteUint64 len 2" using medium code by (simp_all add: length_code_def)
    ultimately show ?thesis
      unfolding read_length_def c by (simp add: Let_def)
  next
    case long
    have "take_bit 64 len = len" by (simp add: take_bit_word_eq_self)
    then have "ReadUint64 (b0 # (flag m OR 127) # WriteUint64 len 8 @ tail) 2 8 = len"
      using ReadUint64_Write [of "[b0, flag m OR 127]" len 8 tail] by (simp add: numeral_2_eq_2)
    moreover have "c = 127" "ext = WriteUint64 len 8" using long code by (simp_all add: length_code_def)
    ultimately show ?thesis
      unfolding read_length_def c by (simp add: Let_def)
  qed
qed

lemma read_key_code:
  "read_key (pre @ (if m then WriteUint64 (ucast key) 4 else []) @ tail) m (length pre) =
     Some (if m then key else 0, length pre + (if m then 4 else 0))" for key :: u32
proof -
  have "(ucast (take_bit 32 (ucast key :: u64)) :: u32) = key"
    by (rule bit_word_eqI) (simp add: bit_simps)
  then show ?thesis
    using ReadUint64_Write [of pre "ucast key" 4 tail] by (simp add: read_key_def)
qed

definition frame_ok :: "frame \<Rightarrow> bool" where
  "frame_ok f \<longleftrightarrow> opcode f AND 0x0F = opcode f \<and> length (payload f) \<le> vector_max_size \<and>
     payload_len f = of_nat (length (payload f)) \<and> (\<not> mask f \<longrightarrow> masking_key f = 0)"

definition masked_payload :: "frame \<Rightarrow> bytes" where
  "masked_payload f = (if mask f then xor_mask (masking_key f) (payload f) else payload f)"

definition frame_key :: "frame \<Rightarrow> bytes" where
  "frame_key f = (if mask f then WriteUint64 (ucast (masking_key f)) 4 else [])"

lemma length_masked_payload [simp]: "length (masked_payload f) = length (payload f)"
  by (simp add: masked_payload_def)

lemma Encode_eq:
  "Encode f = (case length_code (payload_len f) of (c, ext) \<Rightarrow>
     (flag (fin f) OR (opcode f AND 0x0F)) # (flag (mask f) OR c) # ext @ frame_key f @ masked_payload f)"
  by (simp add: Encode_def Let_def length_code_def flag_def masked_payload_def frame_key_def)

lemma byte0_decode:
  assumes "op AND 0x0F = op"
  shows "(flag b OR (op AND 0x0F)) AND 0x80 \<noteq> 0 \<longleftrightarrow> b" and "(flag b OR (op AND 0x0F)) AND 0x0F = op"
proof -
  have op: "take_bit 4 op = op" using assms by (simp add: and_0F)
  then have nb: "\<not> bit op n" if "4 \<le> n" for n
    using that by (metis bit_take_bit_iff leD)
  show "(flag b OR (op AND 0x0F)) AND 0x80 \<noteq> 0 \<longleftrightarrow> b"
    unfolding and_80 assms using nb [of 7] by (simp add: bit_simps flag_def bit_80)
  have "take_bit 4 (flag b OR op) = take_bit 4 op"
    by (rule bit_word_eqI) (auto simp: bit_simps flag_def bit_80)
  then show "(flag b OR (op AND 0x0F)) AND 0x0F = op"
    unfolding assms using op by (simp add: and_0F)
qed

lemma Decode_Encode:
  assumes ok: "frame_ok f"
  shows "Decode (Encode f @ rest) = Decoded (length (Encode f)) f"
proof -
  obtain c ext where code: "length_code (payload_len f) = (c, ext)" by force
  let ?b0 = "flag (fin f) OR (opcode f AND 0x0F)" and ?b1 = "flag (mask f) OR c"
  let ?pre = "?b0 # ?b1 # ext"
  let ?data = "?pre @ frame_key f @ masked_payload f @ rest"
  have data: "Encode f @ rest = ?data" and len: "length (Encode f) = 2 + length ext + length (frame_key f) + length (payload f)"
    by (simp_all add: Encode_eq code masked_payload_def)
  have m: "?b1 AND 0x80 \<noteq> 0 \<longleftrightarrow> mask f"
    using flag_or(2) [of c "mask f"] length_code_bound [of "payload_len f"] code by simp
  have l: "read_length ?data ?b1 = Some (payload_len f, 2 + length ext)"
    using read_length_code [OF code] by simp
  have k: "read_key ?data (mask f) (2 + length ext) =
      Some (masking_key f, 2 + length ext + length (frame_key f))"
    using read_key_code [of ?pre "mask f" "masking_key f" "masked_payload f @ rest"] ok
    by (auto simp: frame_key_def frame_ok_def)
  have u: "unat (payload_len f) = length (payload f)"
    using ok by (simp add: frame_ok_def vector_max_size_def unat_of_nat)
  have "length ext \<le> 8" using code by (auto simp: length_code_def split: if_splits)
  then have p: "unat (of_nat (2 + length ext + length (frame_key f)) + payload_len f) =
      2 + length ext + length (frame_key f) + length (payload f)"
    using unat_pos_add [of "payload_len f" "2 + length ext + length (frame_key f)"] ok u
    by (simp add: frame_ok_def frame_key_def)
  have d: "take (length (payload f)) (drop (2 + length ext + length (frame_key f)) ?data) = masked_payload f"
    by (simp add: masked_payload_def)
  have e: "(if mask f \<and> 0 < payload_len f then xor_mask (masking_key f) (masked_payload f)
      else masked_payload f) = payload f"
    using u by (auto simp: masked_payload_def word_neq_0_conv [symmetric])
  have op: "opcode f AND 0x0F = opcode f" using ok by (simp add: frame_ok_def)
  show ?thesis
    unfolding data Decode_def Let_def
    using l k p d e u len m byte0_decode [OF op, of "fin f"] ok
    by (simp add: frame_ok_def) (auto intro!: frame.equality split: if_splits)
qed

text \<open>
  The reference for masking is RFC 6455, section 5.3: octet \<open>i\<close> of the payload is combined with octet
  \<open>i mod 4\<close> of the masking key, in the order in which the key stands in the frame.
\<close>

definition rfc_mask :: "bytes \<Rightarrow> bytes \<Rightarrow> bytes" where
  "rfc_mask octets bs = map (\<lambda>i. bs ! i XOR octets ! (i mod 4)) [0..<length bs]"

definition rfc_frame :: "opcode \<Rightarrow> u32 \<Rightarrow> bytes \<Rightarrow> bytes" where
  "rfc_frame op key bs =
     (case length_code (of_nat (length bs)) of (c, ext) \<Rightarrow>
        (0x80 OR op) # (0x80 OR c) # ext @ WriteUint64 (ucast key) 4 @
        rfc_mask (WriteUint64 (ucast key) 4) bs)"

lemma wire_key_octet: "i < 4 \<Longrightarrow> WriteUint64 (ucast key) 4 ! i = key_byte key (3 - i)" for key :: u32
proof -
  have u: "(ucast (drop_bit k (ucast key :: u64) AND 0xFF) :: byte) = ucast (drop_bit k key)" for k
    unfolding and_FF by (rule bit_word_eqI) (auto simp: bit_simps dest: bit_imp_le_length)
  assume "i < 4"
  then have "i = 0 \<or> i = 1 \<or> i = 2 \<or> i = 3" by auto
  then show ?thesis
    by (auto simp: eval_nat_numeral key_byte_def) (simp_all add: u u [of 0, simplified])
qed

lemma rfc_frame_Encode:
  assumes "op AND 0x0F = op"
  shows "rfc_frame op key bs = Encode \<lparr>fin = True, opcode = op, mask = True,
    payload_len = of_nat (length bs), masking_key = key,
    payload = xor_mask key (rfc_mask (WriteUint64 (ucast key) 4) bs)\<rparr>"
  using assms by (simp add: rfc_frame_def Encode_eq flag_def frame_key_def masked_payload_def)

lemma xor_both_iff: "xor_mask key (rfc_mask (WriteUint64 (ucast key) 4) bs) = bs \<longleftrightarrow>
    (\<forall>i < length bs. key_byte key (i mod 4) = key_byte key (3 - i mod 4))"
proof -
  have cancel: "(x XOR a) XOR b = x \<longleftrightarrow> b = a" for x a b :: byte
  proof
    assume "(x XOR a) XOR b = x"
    then have "x XOR (x XOR (a XOR b)) = x XOR x" by (simp only: xor.assoc)
    then have "a XOR b = 0" by (simp flip: xor.assoc)
    then have "a XOR (a XOR b) = a" by simp
    then show "b = a" by (simp flip: xor.assoc)
  qed (simp add: xor.assoc)
  have "xor_mask key (rfc_mask (WriteUint64 (ucast key) 4) bs) ! i =
      (bs ! i XOR key_byte key (3 - i mod 4)) XOR key_byte key (i mod 4)" if "i < length bs" for i
    using that by (simp add: rfc_mask_def wire_key_octet)
  moreover have "length (xor_mask key (rfc_mask (WriteUint64 (ucast key) 4) bs)) = length bs"
    by (simp add: rfc_mask_def)
  ultimately show ?thesis
    unfolding list_eq_iff_nth_eq by (metis cancel)
qed

lemma palindrome_iff:
  assumes "2 \<le> n"
  shows "(\<forall>i < n. k (i mod 4) = k (3 - i mod 4)) \<longleftrightarrow> k 0 = k 3 \<and> k 1 = k (2 :: nat)"
proof
  assume *: "\<forall>i < n. k (i mod 4) = k (3 - i mod 4)"
  show "k 0 = k 3 \<and> k 1 = k 2"
    using assms * [rule_format, of 0] * [rule_format, of 1] by simp
next
  assume *: "k 0 = k 3 \<and> k 1 = k 2"
  show "\<forall>i < n. k (i mod 4) = k (3 - i mod 4)"
  proof (intro allI impI)
    fix i :: nat
    have "i mod 4 = 0 \<or> i mod 4 = 1 \<or> i mod 4 = 2 \<or> i mod 4 = 3" by linarith
    with * show "k (i mod 4) = k (3 - i mod 4)" by auto
  qed
qed

lemma Decode_rfc_frame:
  assumes "op AND 0x0F = op" and "length bs \<le> vector_max_size"
  shows "Decode (rfc_frame op key bs @ rest) = Decoded (length (rfc_frame op key bs))
    \<lparr>fin = True, opcode = op, mask = True, payload_len = of_nat (length bs), masking_key = key,
     payload = xor_mask key (rfc_mask (WriteUint64 (ucast key) 4) bs)\<rparr>"
  unfolding rfc_frame_Encode [OF assms(1)]
  using assms by (intro Decode_Encode) (simp add: frame_ok_def rfc_mask_def)

lemma Decode_huge_length:
  assumes "2 ^ 64 - 10 \<le> unat len"
  shows "Decode ([b0, 127] @ WriteUint64 len 8 @ rest) = Failed"
proof -
  let ?data = "[b0, 127] @ WriteUint64 len 8 @ rest"
  have "\<not> len < 126" "\<not> len \<le> 0xFFFF" using assms by (auto simp: word_less_nat_alt word_le_nat_alt)
  then have "length_code len = (127, WriteUint64 len 8)" by (simp add: length_code_def)
  from read_length_code [OF this, of b0 False rest]
  have l: "read_length ?data 127 = Some (len, 10)" by (simp add: flag_def)
  have "unat len < 2 ^ 64" by (rule order_less_le_trans [OF unsigned_less]) simp
  then have "10 + unat len - 2 ^ 64 < 10" and "(10 + unat len) mod 2 ^ 64 = 10 + unat len - 2 ^ 64"
    using assms mod_wrap [of "2 ^ 64" "10 + unat len"] by simp_all
  then have w: "unat (10 + len) < 10" by (simp add: unat_word_ariths)
  have "(127 :: byte) AND 0x80 = 0" by (simp add: bit_eq_iff bit_simps bit_80)
  moreover have "vector_max_size < unat len" using assms by (simp add: vector_max_size_def)
  ultimately show ?thesis
    using l w by (simp add: Decode_def Let_def read_key_def)
qed

subsection \<open>Properties\<close>

text \<open>
  C1: \<^verbatim>\<open>Decode\<close> undoes \<^verbatim>\<open>Encode\<close>. For a frame whose length field is the size of its payload and whose
  opcode has four bits, masked or not and with any of the three length encodings, decoding the encoded
  bytes, whatever follows them, returns the same frame and exactly the number of bytes it was encoded to.
\<close>

theorem ws_decode_encode:
  assumes "frame_ok f"
  shows "Decode (Encode f @ rest) = Decoded (length (Encode f)) f"
  using assms by (rule Decode_Encode)

definition sample_frame :: frame where
  "sample_frame = \<lparr>fin = True, opcode = TEXT, mask = True, payload_len = 2,
     masking_key = 0x01020304, payload = [72, 105]\<rparr>"

theorem ws_decode_encode_witness:
  "frame_ok sample_frame \<and> length (Encode sample_frame) = 8 \<and>
   Decode (Encode sample_frame @ [1, 2]) = Decoded 8 sample_frame"
proof -
  have "frame_ok sample_frame"
    by (simp add: frame_ok_def sample_frame_def vector_max_size_def and_0F take_bit_self)
  moreover have "length (Encode sample_frame) = 8"
    by (simp add: Encode_def sample_frame_def Let_def)
  ultimately show ?thesis using ws_decode_encode [of sample_frame "[1, 2]"] by simp
qed

text \<open>
  C30: the masking key is applied in the wrong order on a little-endian machine. A frame masked as
  RFC 6455 prescribes (the way every browser does), with a payload of at least two bytes, decodes to its
  payload only if the key reads the same in both directions.
\<close>

theorem ws_rfc_masking:
  assumes "op AND 0x0F = op" and "2 \<le> length bs" and "length bs \<le> vector_max_size"
  shows "\<exists>f. Decode (rfc_frame op key bs @ rest) = Decoded (length (rfc_frame op key bs)) f \<and>
    (payload f = bs \<longleftrightarrow> key_byte key 0 = key_byte key 3 \<and> key_byte key 1 = key_byte key 2)"
  using Decode_rfc_frame [OF assms(1,3), of key rest] xor_both_iff [of key bs]
    palindrome_iff [OF assms(2), of "key_byte key"] by simp

theorem ws_rfc_masking_witness:
  "\<exists>f. Decode (rfc_frame TEXT 0x01020304 [72, 105]) =
     Decoded (length (rfc_frame TEXT 0x01020304 [72, 105])) f \<and> payload f \<noteq> [72, 105]"
proof -
  have "(1 :: byte) AND 0x0F = 1" by (simp add: and_0F take_bit_self)
  moreover have "key_byte 0x01020304 0 = 4" "key_byte 0x01020304 3 = 1"
    by code_simp+
  ultimately show ?thesis
    using ws_rfc_masking [of TEXT "[72, 105]" "0x01020304" "[]"] by (auto simp: vector_max_size_def)
qed

text \<open>
  A frame header that announces a payload of at least \<open>2 ^ 64 - 10\<close> bytes passes the completeness
  check, because \<^verbatim>\<open>pos + payload_len\<close> wraps around, and makes \<^verbatim>\<open>payload.resize\<close> throw; ten bytes from
  a client are enough.
\<close>

theorem ws_length_wraps:
  assumes "2 ^ 64 - 10 \<le> unat len"
  shows "Decode ([b0, 127] @ WriteUint64 len 8 @ rest) = Failed"
  using assms by (rule Decode_huge_length)

theorem ws_length_wraps_witness:
  "2 ^ 64 - 10 \<le> unat (0xFFFFFFFFFFFFFFFF :: u64) \<and> Decode ([0x82, 127] @ WriteUint64 0xFFFFFFFFFFFFFFFF 8 @ []) = Failed"
proof -
  have "2 ^ 64 - 10 \<le> unat (0xFFFFFFFFFFFFFFFF :: u64)" by simp
  with ws_length_wraps [of "0xFFFFFFFFFFFFFFFF" "0x82" "[]"] show ?thesis by simp
qed

end
