(* ===== verification/Websocket_Session.thy ===== *)
theory Websocket_Session
  imports Websocket_Frame Cpp_String
begin

section \<open>WebSocket sessions (\<^verbatim>\<open>src/application/websocket/websocket_session.cpp\<close>)\<close>

text \<open>
  The opening handshake (\<^verbatim>\<open>base64Encode\<close>, \<^verbatim>\<open>ComputeAccept\<close>, \<^verbatim>\<open>HandshakeResponse\<close>) and the session that
  turns received bytes into frames and frames into callbacks. \<^verbatim>\<open>SHA1\<close> of OpenSSL is the parameter \<open>sha1\<close>.
  The connection is seen through the two calls the session makes on it, \<^verbatim>\<open>Send\<close> and \<^verbatim>\<open>Close\<close>; a session
  keeps the log of those calls in \<open>calls\<close>. A callback is an optional function that returns the
  calls it makes on the connection. The exception a too long frame raises (see \<open>Decode\<close>) leaves
  \<^verbatim>\<open>ProcessFrames\<close> with the buffer untouched and is returned beside the session.
\<close>

subsection \<open>Handshake\<close>

definition base64_chars :: bytes where
  "base64_chars = str ''ABCDEFGHIJKLMNOPQRSTUVWXYZabcdefghijklmnopqrstuvwxyz0123456789+/''"

definition base64_quad :: "byte \<Rightarrow> byte \<Rightarrow> byte \<Rightarrow> byte list" where
  "base64_quad a b c =
     [drop_bit 2 (a AND 0xfc),
      push_bit 4 (a AND 0x03) + drop_bit 4 (b AND 0xf0),
      push_bit 2 (b AND 0x0f) + drop_bit 6 (c AND 0xc0),
      c AND 0x3f]"

definition base64_char :: "byte \<Rightarrow> byte" where
  "base64_char v = base64_chars ! unat v"

definition base64_step :: "bytes \<times> bytes \<Rightarrow> byte \<Rightarrow> bytes \<times> bytes" where
  "base64_step st x =
     (case st of (arr, res) \<Rightarrow>
        let arr' = arr @ [x]
        in if length arr' = 3
           then ([], res @ map base64_char (base64_quad (arr' ! 0) (arr' ! 1) (arr' ! 2)))
           else (arr', res))"

definition base64_tail :: "bytes \<Rightarrow> bytes" where
  "base64_tail arr =
     (if arr = [] then []
      else let i = length arr; p = arr @ replicate (3 - i) 0
           in map base64_char (take (i + 1) (base64_quad (p ! 0) (p ! 1) (p ! 2))) @ replicate (3 - i) 61)"

definition base64Encode :: "bytes \<Rightarrow> bytes" where
  "base64Encode input = (case foldl base64_step ([], []) input of (arr, res) \<Rightarrow> res @ base64_tail arr)"

definition ws_guid :: bytes where
  "ws_guid = str ''258EAFA5-E914-47DA-95CA-C5AB0DC85B11''"

definition ComputeAccept :: "(bytes \<Rightarrow> bytes) \<Rightarrow> bytes \<Rightarrow> bytes" where
  "ComputeAccept sha1 key = base64Encode (sha1 (key @ ws_guid))"

definition HandshakeResponse :: "(bytes \<Rightarrow> bytes) \<Rightarrow> bytes \<Rightarrow> bytes" where
  "HandshakeResponse sha1 key =
     str ''HTTP/1.1 101 Switching Protocols'' @ CRLF @ str ''Upgrade: websocket'' @ CRLF @
     str ''Connection: Upgrade'' @ CRLF @ str ''Sec-WebSocket-Accept: '' @ ComputeAccept sha1 key @ CRLF @ CRLF"

subsection \<open>Sessions\<close>

datatype conn_op = Conn_Send bytes | Conn_Close

datatype session_exn = Length_Error

record ws_callbacks =
  on_message :: "(bytes \<Rightarrow> conn_op list) option"
  on_binary :: "(bytes \<Rightarrow> conn_op list) option"
  on_close :: "(u16 \<Rightarrow> bytes \<Rightarrow> conn_op list) option"

record ws_session =
  recv_buffer :: bytes
  calls :: "conn_op list"

definition ws_session_new :: ws_session where
  "ws_session_new = \<lparr>recv_buffer = [], calls = []\<rparr>"

definition conn_call :: "conn_op list \<Rightarrow> ws_session \<Rightarrow> ws_session" where
  "conn_call ops s = s\<lparr>calls := calls s @ ops\<rparr>"

definition SendText :: "bytes \<Rightarrow> ws_session \<Rightarrow> ws_session" where
  "SendText txt = conn_call [Conn_Send (EncodeText txt)]"

definition SendBinary :: "bytes \<Rightarrow> ws_session \<Rightarrow> ws_session" where
  "SendBinary data = conn_call [Conn_Send (EncodeBinary data)]"

definition SendPing :: "ws_session \<Rightarrow> ws_session" where
  "SendPing = conn_call [Conn_Send EncodePing]"

definition SendPong :: "ws_session \<Rightarrow> ws_session" where
  "SendPong = conn_call [Conn_Send EncodePong]"

definition ws_Close :: "u16 \<Rightarrow> bytes \<Rightarrow> ws_session \<Rightarrow> ws_session" where
  "ws_Close code reason = conn_call [Conn_Send (EncodeClose code reason), Conn_Close]"

definition close_code :: "bytes \<Rightarrow> u16 \<times> bytes" where
  "close_code p =
     (if 2 \<le> length p then (push_bit 8 (ucast (p ! 0)) OR ucast (p ! 1), drop 2 p) else (1000, []))"

text \<open>The \<^verbatim>\<open>switch\<close> on the opcode; the flag says whether the loop goes on.\<close>

definition handle_frame :: "ws_callbacks \<Rightarrow> frame \<Rightarrow> ws_session \<Rightarrow> ws_session \<times> bool" where
  "handle_frame cb f s =
     (if opcode f = TEXT then
        ((case on_message cb of None \<Rightarrow> s | Some h \<Rightarrow> conn_call (h (payload f)) s), True)
      else if opcode f = BINARY then
        ((case on_binary cb of None \<Rightarrow> s | Some h \<Rightarrow> conn_call (h (payload f)) s), True)
      else if opcode f = PING then (SendPong s, True)
      else if opcode f = PONG then (s, True)
      else if opcode f = CLOSE then
        (case close_code (payload f) of (code, reason) \<Rightarrow>
           (ws_Close 1000 [] (case on_close cb of None \<Rightarrow> s | Some h \<Rightarrow> conn_call (h code reason) s), False))
      else (ws_Close 1002 (str ''Invalid opcode'') s, False))"

lemma recv_buffer_simps [simp]:
  "recv_buffer (conn_call ops s) = recv_buffer s"
  "recv_buffer (fst (handle_frame cb f s)) = recv_buffer s"
  by (auto simp: conn_call_def handle_frame_def SendPong_def ws_Close_def split: option.split prod.split)

function ProcessFrames :: "ws_callbacks \<Rightarrow> ws_session \<Rightarrow> ws_session \<times> session_exn option" where
  "ProcessFrames cb s =
     (if recv_buffer s = [] then (s, None)
      else case Decode (recv_buffer s) of
             Incomplete \<Rightarrow> (s, None)
           | Failed \<Rightarrow> (s, Some Length_Error)
           | Decoded consumed f \<Rightarrow>
               (let r = handle_frame cb f (s\<lparr>recv_buffer := drop consumed (recv_buffer s)\<rparr>)
                in if snd r then ProcessFrames cb (fst r) else (fst r, None)))"
  by pat_completeness auto
termination
proof (relation "measure (\<lambda>(cb, s). length (recv_buffer s))", goal_cases)
  case (2 cb s consumed f r)
  then show ?case using Decode_consumed [of "recv_buffer s" consumed f] by simp
qed simp

declare ProcessFrames.simps [simp del]

definition OnData :: "ws_callbacks \<Rightarrow> bytes \<Rightarrow> ws_session \<Rightarrow> ws_session \<times> session_exn option" where
  "OnData cb data s = ProcessFrames cb (s\<lparr>recv_buffer := recv_buffer s @ data\<rparr>)"

subsection \<open>Base 64\<close>

text \<open>The decoder of RFC 4648, as the reference.\<close>

definition b64_index :: "byte \<Rightarrow> nat" where
  "b64_index c = length (takeWhile (\<lambda>x. x \<noteq> c) base64_chars)"

fun b64_decode :: "bytes \<Rightarrow> bytes" where
  "b64_decode (w # x # y # z # rest) =
     (let b1 = of_nat (4 * b64_index w + b64_index x div 16);
          b2 = of_nat (16 * (b64_index x mod 16) + b64_index y div 4);
          b3 = of_nat (64 * (b64_index y mod 4) + b64_index z)
      in if y = 61 then [b1] else if z = 61 then [b1, b2] else b1 # b2 # b3 # b64_decode rest)"
| "b64_decode _ = []"

lemma takeWhile_nth_distinct: "distinct xs \<Longrightarrow> k < length xs \<Longrightarrow> length (takeWhile (\<lambda>x. x \<noteq> xs ! k) xs) = k"
proof (induction xs arbitrary: k)
  case (Cons x xs)
  then show ?case by (cases k) (auto simp: in_set_conv_nth)
qed simp

lemma base64_chars_table:
  "base64_chars = map of_nat ([65..<91] @ [97..<123] @ [48..<58] @ [43, 47])"
  by (simp add: base64_chars_def str_def upt_rec)

lemma base64_chars_distinct: "distinct base64_chars" "61 \<notin> set base64_chars" "length base64_chars = 64"
proof -
  show "distinct base64_chars"
    by (simp add: base64_chars_table upt_rec)
  show "61 \<notin> set base64_chars" "length base64_chars = 64"
    by (simp_all add: base64_chars_table upt_rec)
qed

lemma b64_index_char:
  assumes "unat v < 64"
  shows "b64_index (base64_char v) = unat v" and "base64_char v \<noteq> 61"
proof -
  show "b64_index (base64_char v) = unat v"
    using assms base64_chars_distinct takeWhile_nth_distinct [of base64_chars "unat v"]
    by (simp add: base64_char_def b64_index_def)
  show "base64_char v \<noteq> 61"
    using assms base64_chars_distinct nth_mem [of "unat v" base64_chars]
    by (metis base64_char_def)
qed

lemma and_consts:
  "(x :: byte) AND 0x03 = take_bit 2 x" "x AND 0x0f = take_bit 4 x" "x AND 0x3f = take_bit 6 x"
  by (simp_all add: take_bit_eq_mask mask_eq_exp_minus_1)

lemma unat_byte: "unat (x :: byte) < 256"
  by (rule order_less_le_trans [OF unsigned_less]) simp

lemma unat_bits:
  "unat (drop_bit n (x :: byte)) = unat x div 2 ^ n" "unat (take_bit n x) = unat x mod 2 ^ n"
  by (simp_all add: unsigned_drop_bit_eq unsigned_take_bit_eq take_bit_nat_eq_self unat_byte
      flip: drop_bit_eq_div take_bit_eq_mod)

lemma quad_indices:
  "map unat (base64_quad a b c) =
     [unat a div 4, 16 * (unat a mod 4) + unat b div 16, 4 * (unat b mod 16) + unat c div 64, unat c mod 64]"
  using unat_byte [of a] unat_byte [of b] unat_byte [of c]
  by (simp add: base64_quad_def and_consts unat_bits unat_word_ariths push_bit_eq_mult)

lemma base64_foldl:
  "foldl base64_step (arr, res) xs =
     (fst (foldl base64_step (arr, []) xs), res @ snd (foldl base64_step (arr, []) xs))"
proof (induction xs arbitrary: arr res)
  case (Cons x xs)
  obtain arr' out where st: "\<And>res. base64_step (arr, res) x = (arr', res @ out)"
  proof (cases "length (arr @ [x]) = 3")
    case True
    then show ?thesis by (intro that) (simp add: base64_step_def Let_def)
  next
    case False
    then show ?thesis by (intro that [of "arr @ [x]" "[]"]) (simp add: base64_step_def Let_def)
  qed
  show ?case
    using Cons [of arr' "res @ out"] Cons [of arr' out] by (simp add: st)
qed simp

lemma base64Encode_triple:
  "base64Encode (a # b # c # xs) = map base64_char (base64_quad a b c) @ base64Encode xs"
proof -
  have "foldl base64_step ([], []) (a # b # c # xs) =
      foldl base64_step ([], map base64_char (base64_quad a b c)) xs"
    by (simp add: base64_step_def)
  then show ?thesis
    using base64_foldl [of "[]" "map base64_char (base64_quad a b c)" xs]
    by (simp add: base64Encode_def split: prod.split)
qed

lemma base64Encode_short:
  "base64Encode [] = []"
  "base64Encode [a] = map base64_char (take 2 (base64_quad a 0 0)) @ [61, 61]"
  "base64Encode [a, b] = map base64_char (take 3 (base64_quad a b 0)) @ [61]"
  by (simp_all add: base64Encode_def base64_step_def base64_tail_def numeral_2_eq_2 numeral_3_eq_3)

lemma quad_cases:
  obtains w x y z where "base64_quad a b c = [w, x, y, z]"
    "unat w = unat a div 4" "unat x = 16 * (unat a mod 4) + unat b div 16"
    "unat y = 4 * (unat b mod 16) + unat c div 64" "unat z = unat c mod 64"
  using quad_indices [of a b c] by (auto simp: base64_quad_def)

lemma b64_bytes:
  assumes "unat w = unat a div 4" "unat x = 16 * (unat a mod 4) + unat b div 16"
    "unat y = 4 * (unat b mod 16) + unat c div 64" "unat z = unat c mod 64"
  shows "of_nat (4 * b64_index (base64_char w) + b64_index (base64_char x) div 16) = (a :: byte)"
    and "of_nat (16 * (b64_index (base64_char x) mod 16) + b64_index (base64_char y) div 4) = (b :: byte)"
    and "of_nat (64 * (b64_index (base64_char y) mod 4) + b64_index (base64_char z)) = (c :: byte)"
    and "base64_char y \<noteq> 61" and "base64_char z \<noteq> 61"
proof -
  have lt: "unat w < 64" "unat x < 64" "unat y < 64" "unat z < 64"
    using assms unat_byte [of a] unat_byte [of b] unat_byte [of c] by auto
  have "4 * unat w + unat x div 16 = unat a" "16 * (unat x mod 16) + unat y div 4 = unat b"
    "64 * (unat y mod 4) + unat z = unat c"
    using assms unat_byte [of b] unat_byte [of c] by auto
  then show "of_nat (4 * b64_index (base64_char w) + b64_index (base64_char x) div 16) = (a :: byte)"
    "of_nat (16 * (b64_index (base64_char x) mod 16) + b64_index (base64_char y) div 4) = (b :: byte)"
    "of_nat (64 * (b64_index (base64_char y) mod 4) + b64_index (base64_char z)) = (c :: byte)"
    "base64_char y \<noteq> 61" "base64_char z \<noteq> 61"
    using lt b64_index_char by (simp_all del: of_nat_add of_nat_mult)
qed

lemma triple_cases:
  obtains "xs = []" | a where "xs = [a]" | a b where "xs = [a, b]" | a b c ys where "xs = a # b # c # ys"
  by (cases xs; cases "tl xs"; cases "tl (tl xs)") auto

lemma base64_decode_encode: "b64_decode (base64Encode xs) = xs"
proof (induction "length xs" arbitrary: xs rule: less_induct)
  case less
  show ?case
  proof (cases xs rule: triple_cases)
    case (2 a)
    obtain w x y z where q: "base64_quad a 0 0 = [w, x, y, z]" "unat w = unat a div 4"
        "unat x = 16 * (unat a mod 4) + unat (0 :: byte) div 16"
        "unat y = 4 * (unat (0 :: byte) mod 16) + unat (0 :: byte) div 64" "unat z = unat (0 :: byte) mod 64"
      by (rule quad_cases)
    show ?thesis using b64_bytes(1) [OF q(2-5)] by (simp add: 2 base64Encode_short q(1) Let_def)
  next
    case (3 a b)
    obtain w x y z where q: "base64_quad a b 0 = [w, x, y, z]" "unat w = unat a div 4"
        "unat x = 16 * (unat a mod 4) + unat b div 16"
        "unat y = 4 * (unat b mod 16) + unat (0 :: byte) div 64" "unat z = unat (0 :: byte) mod 64"
      by (rule quad_cases)
    show ?thesis using b64_bytes [OF q(2-5)] by (simp add: 3 base64Encode_short q(1) Let_def)
  next
    case (4 a b c ys)
    obtain w x y z where q: "base64_quad a b c = [w, x, y, z]" "unat w = unat a div 4"
        "unat x = 16 * (unat a mod 4) + unat b div 16"
        "unat y = 4 * (unat b mod 16) + unat c div 64" "unat z = unat c mod 64"
      by (rule quad_cases)
    show ?thesis
      using b64_bytes [OF q(2-5)] less [of ys] by (simp add: 4 base64Encode_triple q(1) Let_def)
  qed (simp add: base64Encode_short)
qed

lemma length_base64Encode: "length (base64Encode xs) = 4 * ((length xs + 2) div 3)"
proof (induction "length xs" arbitrary: xs rule: less_induct)
  case less
  show ?case
  proof (cases xs rule: triple_cases)
    case (4 a b c ys)
    then have "(length xs + 2) div 3 = 1 + (length ys + 2) div 3" by simp
    then show ?thesis
      using less [of ys] 4 by (simp add: base64Encode_triple base64_quad_def)
  qed (simp_all add: base64Encode_short base64_quad_def)
qed

subsection \<open>What a session does with its frames\<close>

definition frame_calls :: "ws_callbacks \<Rightarrow> frame \<Rightarrow> conn_op list" where
  "frame_calls cb f = calls (fst (handle_frame cb f ws_session_new))"

definition continues :: "frame \<Rightarrow> bool" where
  "continues f \<longleftrightarrow> opcode f \<in> {TEXT, BINARY, PING, PONG}"

lemma conn_call_simps [simp]:
  "calls (conn_call ops s) = calls s @ ops" "conn_call a (conn_call b s) = conn_call (b @ a) s"
  "conn_call [] s = s"
  by (simp_all add: conn_call_def)

lemma handle_frame_eq: "handle_frame cb f s = (conn_call (frame_calls cb f) s, continues f)"
  by (auto simp: handle_frame_def frame_calls_def continues_def ws_session_new_def SendPong_def
      ws_Close_def split: option.split prod.split)

lemma Decode_Nil [simp]: "Decode [] = Incomplete"
  by (simp add: Decode_def)

lemma ProcessFrames_step:
  "Decode (recv_buffer s) = Decoded n f \<Longrightarrow>
     ProcessFrames cb s =
       (let s' = conn_call (frame_calls cb f) (s\<lparr>recv_buffer := drop n (recv_buffer s)\<rparr>)
        in if continues f then ProcessFrames cb s' else (s', None))"
  by (subst ProcessFrames.simps) (auto simp: handle_frame_eq Let_def)

lemma ProcessFrames_stop:
  "Decode (recv_buffer s) = Incomplete \<Longrightarrow> ProcessFrames cb s = (s, None)"
  "Decode (recv_buffer s) = Failed \<Longrightarrow> ProcessFrames cb s = (s, Some Length_Error)"
  by (subst ProcessFrames.simps, auto)+

lemma ProcessFrames_all:
  assumes "\<forall>f \<in> set (fst (decode_all Decode (recv_buffer s))). continues f"
  shows "ProcessFrames cb s =
    (conn_call (concat (map (frame_calls cb) (fst (decode_all Decode (recv_buffer s)))))
       (s\<lparr>recv_buffer := snd (decode_all Decode (recv_buffer s))\<rparr>),
     if Decode (snd (decode_all Decode (recv_buffer s))) = Failed then Some Length_Error else None)"
  using assms
proof (induction "length (recv_buffer s)" arbitrary: s rule: less_induct)
  case less
  show ?case
  proof (cases "Decode (recv_buffer s)")
    case (Decoded n f)
    let ?s = "conn_call (frame_calls cb f) (s\<lparr>recv_buffer := drop n (recv_buffer s)\<rparr>)"
    note d = ws.decode_all_step [OF Decoded]
    have "length (recv_buffer ?s) < length (recv_buffer s)"
      using Decode_consumed [OF Decoded] by auto
    from less.hyps [OF this] less.prems d
    show ?thesis
      by (simp add: ProcessFrames_step [OF Decoded] Let_def)
  qed (simp_all add: ws.decode_all_stop ProcessFrames_stop conn_call_def)
qed

lemma OnData_append:
  assumes "\<forall>f \<in> set (fst (decode_all Decode (recv_buffer s @ a @ b))). continues f"
  shows "OnData cb b (fst (OnData cb a s)) = OnData cb (a @ b) s"
proof -
  let ?D = "decode_all Decode"
  have split: "?D (recv_buffer s @ a @ b) =
      (fst (?D (recv_buffer s @ a)) @ fst (?D (snd (?D (recv_buffer s @ a)) @ b)),
       snd (?D (snd (?D (recv_buffer s @ a)) @ b)))"
    using ws.decode_all_append [of "recv_buffer s @ a" b] by simp
  have 1: "\<forall>f \<in> set (fst (?D (recv_buffer s @ a))). continues f"
    and 2: "\<forall>f \<in> set (fst (?D (snd (?D (recv_buffer s @ a)) @ b))). continues f"
    using assms split by auto
  show ?thesis
    using 1 2 assms unfolding OnData_def
    by (simp add: ProcessFrames_all) (simp add: split conn_call_def)
qed

lemma OnData_chunks:
  assumes "\<forall>f \<in> set (fst (decode_all Decode (recv_buffer s @ concat (d # ds)))). continues f"
  shows "foldl (\<lambda>r x. OnData cb x (fst r)) (OnData cb d s) ds = OnData cb (concat (d # ds)) s"
  using assms
proof (induction ds arbitrary: d)
  case (Cons x ds)
  have "\<forall>f \<in> set (fst (decode_all Decode (recv_buffer s @ d @ x))). continues f"
    using Cons.prems ws.decode_all_append [of "recv_buffer s @ d @ x" "concat ds"] by auto
  from OnData_append [OF this] Cons.IH [of "d @ x"] Cons.prems show ?case by simp
qed simp

subsection \<open>Properties\<close>

text \<open>
  The accept key. Whatever digest of 20 bytes \<^verbatim>\<open>SHA1\<close> computes, the value in the handshake
  response is its base-64 text: 28 characters from which the reference decoder recovers the digest
  of the client's key followed by the protocol's constant.
\<close>

theorem ws_accept_key:
  assumes "length (sha1 (key @ ws_guid)) = 20"
  shows "b64_decode (ComputeAccept sha1 key) = sha1 (key @ ws_guid) \<and>
    length (ComputeAccept sha1 key) = 28"
  using assms by (simp add: ComputeAccept_def base64_decode_encode length_base64Encode)

theorem ws_accept_key_witness:
  "(let sha1 = (\<lambda>m. take 20 (m @ replicate 20 0)); key = str ''abc''
    in length (sha1 (key @ ws_guid)) = 20 \<and>
       b64_decode (ComputeAccept sha1 key) = str ''abc258EAFA5-E914-47D'')"
proof -
  let ?sha1 = "\<lambda>m :: bytes. take 20 (m @ replicate 20 0)"
  have 20: "length (?sha1 (str ''abc'' @ ws_guid)) = 20" by simp
  moreover have "?sha1 (str ''abc'' @ ws_guid) = str ''abc258EAFA5-E914-47D''"
    by (simp add: str_def ws_guid_def)
  ultimately show ?thesis
    using ws_accept_key [of ?sha1 "str ''abc''"] unfolding Let_def by metis
qed

text \<open>
  C5: a session does not depend on how the network cut the stream. A client sends well-formed text,
  binary, ping and pong frames; in whatever chunks the bytes arrive, the session makes the calls of
  the frames' callbacks in the order of the frames, each once, and ends with an empty buffer and without
  an exception.
\<close>

theorem ws_session_any_chunking:
  assumes "recv_buffer s = []" and "\<forall>f \<in> set fs. frame_ok f \<and> continues f"
    and "concat (d # ds) = concat (map Encode fs)"
  shows "foldl (\<lambda>r x. OnData cb x (fst r)) (OnData cb d s) ds =
    (conn_call (concat (map (frame_calls cb) fs)) s, None)"
proof -
  have D: "decode_all Decode (concat (map Encode fs)) = (fs, [])"
    using ws.decode_all_encoded [of frame_ok Encode fs "[]"] Decode_Encode assms(2)
    by (simp add: ws.decode_all_stop)
  have "foldl (\<lambda>r x. OnData cb x (fst r)) (OnData cb d s) ds = OnData cb (concat (d # ds)) s"
    using assms D by (intro OnData_chunks) simp
  also have "\<dots> = (conn_call (concat (map (frame_calls cb) fs)) s, None)"
    using assms D unfolding OnData_def by (simp add: ProcessFrames_all)
  finally show ?thesis .
qed

definition echo_callbacks :: ws_callbacks where
  "echo_callbacks = \<lparr>on_message = Some (\<lambda>m. [Conn_Send (EncodeText m)]), on_binary = None, on_close = None\<rparr>"

lemma sample_frame_ok: "frame_ok sample_frame"
  by (simp add: frame_ok_def sample_frame_def vector_max_size_def and_0F take_bit_self)

theorem ws_session_any_chunking_witness:
  "(let d = take 3 (Encode sample_frame); e = drop 3 (Encode sample_frame)
    in OnData echo_callbacks e (fst (OnData echo_callbacks d ws_session_new)) =
       (ws_session_new\<lparr>calls := [Conn_Send (EncodeText [72, 105])]\<rparr>, None))"
proof -
  have "continues sample_frame" by (simp add: continues_def sample_frame_def)
  moreover have "frame_calls echo_callbacks sample_frame = [Conn_Send (EncodeText [72, 105])]"
    by (simp add: frame_calls_def handle_frame_def sample_frame_def echo_callbacks_def ws_session_new_def)
  ultimately show ?thesis
    using ws_session_any_chunking [of ws_session_new "[sample_frame]" "take 3 (Encode sample_frame)"
        "[drop 3 (Encode sample_frame)]" echo_callbacks] sample_frame_ok
    by (simp add: ws_session_new_def Let_def conn_call_def)
qed

text \<open>
  A session goes on after it has closed the connection. When a close frame and a text frame arrive
  together, the session closes the connection and leaves the text frame in its buffer; the next byte
  that is delivered makes it handle that text frame, so the message callback runs after \<^verbatim>\<open>Close\<close>.
\<close>

theorem ws_session_after_close:
  assumes "recv_buffer s = []" and "frame_ok c" and "opcode c = CLOSE"
    and "frame_ok f" and "opcode f = TEXT" and "on_message cb = Some h"
  shows "\<exists>s1. OnData cb (Encode c @ Encode f) s = (s1, None) \<and> last (calls s1) = Conn_Close \<and>
    recv_buffer s1 = Encode f \<and> calls (fst (OnData cb [x] s1)) = calls s1 @ h (payload f)"
proof -
  let ?s1 = "conn_call (frame_calls cb c) (s\<lparr>recv_buffer := Encode f\<rparr>)"
  have stop: "\<not> continues c" and go: "continues f"
    using assms by (simp_all add: continues_def)
  have 1: "OnData cb (Encode c @ Encode f) s = (?s1, None)"
    unfolding OnData_def
    using assms(1) stop ProcessFrames_step [of "s\<lparr>recv_buffer := Encode c @ Encode f\<rparr>"]
      Decode_Encode [OF assms(2), of "Encode f"] by (simp add: Let_def)
  have "frame_calls cb f = h (payload f)"
    using assms(5,6) by (simp add: frame_calls_def handle_frame_def ws_session_new_def)
  moreover have "Decode [x] = Incomplete" by (simp add: Decode_def)
  ultimately have "calls (fst (OnData cb [x] ?s1)) = calls ?s1 @ h (payload f)"
    unfolding OnData_def
    using go ProcessFrames_step [of "?s1\<lparr>recv_buffer := Encode f @ [x]\<rparr>"]
      Decode_Encode [OF assms(4), of "[x]"]
    by (simp add: Let_def ProcessFrames_stop)
  moreover have "last (calls ?s1) = Conn_Close"
    using assms(3) by (simp add: frame_calls_def handle_frame_def ws_Close_def split: prod.split)
  ultimately show ?thesis using 1 by auto
qed

definition sample_close :: frame where
  "sample_close = \<lparr>fin = True, opcode = CLOSE, mask = False, payload_len = 0, masking_key = 0, payload = []\<rparr>"

theorem ws_session_after_close_witness:
  "frame_ok sample_close \<and>
   (\<exists>s1. OnData echo_callbacks (Encode sample_close @ Encode sample_frame) ws_session_new = (s1, None) \<and>
     last (calls s1) = Conn_Close \<and>
     last (calls (fst (OnData echo_callbacks [0] s1))) = Conn_Send (EncodeText [72, 105]))"
proof -
  have c: "frame_ok sample_close"
    by (simp add: frame_ok_def sample_close_def vector_max_size_def and_0F take_bit_self)
  have "recv_buffer ws_session_new = []" "opcode sample_close = CLOSE" "opcode sample_frame = TEXT"
    "on_message echo_callbacks = Some (\<lambda>m. [Conn_Send (EncodeText m)])" "payload sample_frame = [72, 105]"
    by (simp_all add: ws_session_new_def sample_close_def sample_frame_def echo_callbacks_def)
  with ws_session_after_close [of ws_session_new sample_close sample_frame echo_callbacks _ 0] c
    sample_frame_ok
  show ?thesis by fastforce
qed

end
