(* ===== verification/Speedtest_Ws_Handler.thy ===== *)
theory Speedtest_Ws_Handler
  imports Websocket_Session
begin

section \<open>The speed-test endpoint (\<^verbatim>\<open>src/application/websocket/speedtest_ws_handler.cpp\<close>)\<close>

text \<open>
  The JSON helpers, the callbacks the endpoint installs on a session, the opening of a session
  (\<^verbatim>\<open>CreateAndHandle\<close>) and the thread that pushes test data. The outcome of each \<^verbatim>\<open>Send\<close> of that
  thread and whether ten seconds have passed come from outside: \<open>push_loop\<close> runs over a list of them
  and says what was sent and whether the thread has ended.
\<close>

definition quoted :: "bytes \<Rightarrow> bytes" where
  "quoted s = [34] @ s @ [34]"

definition extractJsonString :: "bytes \<Rightarrow> bytes \<Rightarrow> bytes" where
  "extractJsonString json key =
     (case cpp_find (quoted key) 0 json of
        None \<Rightarrow> []
      | Some p \<Rightarrow>
          (case cpp_find (str '':'') p json of
             None \<Rightarrow> []
           | Some q \<Rightarrow>
               let pos = skip_blanks json (q + 1)
               in if length json \<le> pos then []
                  else if json ! pos = 34 then
                    (case cpp_find [34] (pos + 1) json of
                       None \<Rightarrow> []
                     | Some e \<Rightarrow> substr json (pos + 1) (e - (pos + 1)))
                  else
                    let e = (case find_first_of {44, 125} pos json of None \<Rightarrow> length json | Some e \<Rightarrow> e)
                    in trim_right (substr json pos (e - pos))))"

definition extractJsonInt :: "bytes \<Rightarrow> bytes \<Rightarrow> int \<Rightarrow> int" where
  "extractJsonInt json key default_val =
     (let val = extractJsonString json key
      in if val = [] then default_val
         else case stoi val of Inl _ \<Rightarrow> default_val | Inr n \<Rightarrow> n)"

definition getJsonType :: "bytes \<Rightarrow> bytes" where
  "getJsonType json = extractJsonString json (str ''type'')"

definition pong_text :: "int \<Rightarrow> bytes" where
  "pong_text n =
     str ''{'' @ quoted (str ''type'') @ str '':'' @ quoted (str ''pong'') @ str '','' @
     quoted (str ''seq'') @ str '':'' @ to_string n @ str ''}''"

definition speedtest_on_message :: "bytes \<Rightarrow> conn_op list" where
  "speedtest_on_message msg =
     (if getJsonType msg = str ''ping''
      then [Conn_Send (EncodeText (pong_text (extractJsonInt msg (str ''seq'') (- 1))))]
      else [])"

definition speedtest_callbacks :: ws_callbacks where
  "speedtest_callbacks =
     \<lparr>on_message = Some speedtest_on_message, on_binary = Some (\<lambda>_. []), on_close = Some (\<lambda>_ _. [])\<rparr>"

datatype send_result = Sent | Would_Block | Send_Error

definition CreateAndHandle ::
  "(bytes \<Rightarrow> bytes) \<Rightarrow> bytes \<Rightarrow> send_result \<Rightarrow> conn_op list \<times> (ws_session \<times> ws_callbacks) option" where
  "CreateAndHandle sha1 key result =
     (let response = HandshakeResponse sha1 key
      in if result \<noteq> Sent then ([Conn_Send response, Conn_Close], None)
         else ([Conn_Send response], Some (ws_session_new, speedtest_callbacks)))"

definition chunk_frame :: bytes where
  "chunk_frame = EncodeBinary (replicate (64 * 1024) 0xAA)"

definition push_end :: "conn_op list" where
  "push_end = [Conn_Send (EncodeClose 1000 (str ''Test finished''))]"

fun push_loop :: "(send_result \<times> bool) list \<Rightarrow> conn_op list \<times> bool" where
  "push_loop [] = ([], False)"
| "push_loop ((result, time_over) # env) =
     (case result of
        Send_Error \<Rightarrow> (Conn_Send chunk_frame # push_end, True)
      | Would_Block \<Rightarrow> (case push_loop env of (ops, ended) \<Rightarrow> (Conn_Send chunk_frame # ops, ended))
      | Sent \<Rightarrow>
          if time_over then (Conn_Send chunk_frame # push_end, True)
          else (case push_loop env of (ops, ended) \<Rightarrow> (Conn_Send chunk_frame # ops, ended)))"

subsection \<open>Ping and pong\<close>

text \<open>The message a client has to send to be answered.\<close>

definition ping_text :: "int \<Rightarrow> bytes" where
  "ping_text n =
     str ''{'' @ quoted (str ''type'') @ str '':'' @ quoted (str ''ping'') @ str '','' @
     quoted (str ''seq'') @ str '':'' @ to_string n @ str ''}''"

definition ping_head :: bytes where
  "ping_head = str ''{'' @ quoted (str ''type'') @ str '':'' @ quoted (str ''ping'') @ str '','' @
     quoted (str ''seq'') @ str '':''"

lemma ping_text_eq: "ping_text n = ping_head @ to_string n @ [125]"
  by (simp add: ping_text_def ping_head_def str_simps)

lemma ping_head_finds:
  "cpp_find (quoted (str ''type'')) 0 ping_head = Some (Suc 0)" "cpp_find (str '':'') (Suc 0) ping_head = Some 7"
  "cpp_find [34] 9 ping_head = Some 13" "cpp_find (quoted (str ''seq'')) 0 ping_head = Some 15"
  "cpp_find (str '':'') 15 ping_head = Some 20" "length ping_head = 21"
  by code_simp+

lemma ping_text_finds:
  "cpp_find (quoted (str ''type'')) 0 (ping_text n) = Some (Suc 0)" "cpp_find (str '':'') (Suc 0) (ping_text n) = Some 7"
  "cpp_find [34] 9 (ping_text n) = Some 13" "cpp_find (quoted (str ''seq'')) 0 (ping_text n) = Some 15"
  "cpp_find (str '':'') 15 (ping_text n) = Some 20" "length (ping_text n) = 22 + length (to_string n)"
  unfolding ping_text_eq
  using ping_head_finds(1-5) [THEN cpp_find_append] ping_head_finds(6)
  by (simp_all del: cpp_find_0)

lemma ping_type: "getJsonType (ping_text n) = str ''ping''"
proof -
  have "skip_blanks (ping_text n) 8 = 8" "ping_text n ! 8 = 34" "substr (ping_text n) 9 4 = str ''ping''"
    by (simp_all add: skip_blanks_def substr_def ping_text_def quoted_def is_blank_def str_simps)
  then show ?thesis
    by (simp add: getJsonType_def extractJsonString_def ping_text_finds del: cpp_find_0)
qed

lemma ping_seq:
  assumes "- (2 ^ 31) \<le> n" and "n < 2 ^ 31"
  shows "extractJsonInt (ping_text n) (str ''seq'') d = n"
proof -
  let ?t = "to_string n"
  have plain: "c \<noteq> 34 \<and> c \<noteq> 44 \<and> c \<noteq> 125 \<and> \<not> is_blank c" if "c \<in> set ?t" for c
    using to_string_chars [OF that] by (auto simp: is_digit_def is_blank_def word_le_nat_alt)
  obtain c cs where t: "?t = c # cs" by (cases ?t) auto
  have drop: "drop 21 (ping_text n) = ?t @ [125]" "length (ping_text n) = 22 + length ?t"
    by (simp_all add: ping_text_eq ping_head_finds)
  have 1: "skip_blanks (ping_text n) 21 = 21" using plain t by (simp add: skip_blanks_def drop)
  have 2: "ping_text n ! 21 = c" using t by (simp add: ping_text_eq nth_append ping_head_finds)
  have "takeWhile (\<lambda>c. c \<notin> {44, 125}) (?t @ [125]) = ?t"
    using plain by (subst takeWhile_append2) auto
  then have 3: "find_first_of {44, 125} 21 (ping_text n) = Some (21 + length ?t)"
    by (simp add: find_first_of_def drop Let_def)
  have 4: "trim_right (substr (ping_text n) 21 (length ?t)) = ?t"
    using plain by (cases ?t rule: rev_cases) (auto simp: substr_def drop trim_right_def)
  have "extractJsonString (ping_text n) (str ''seq'') = ?t"
    using 1 2 3 4 plain t
    by (simp add: extractJsonString_def ping_text_finds del: cpp_find_0)
  then show ?thesis using stoi_to_string [OF assms] by (simp add: extractJsonInt_def)
qed

subsection \<open>Properties\<close>

text \<open>
  The endpoint answers a JSON ping. For every sequence number of the C++ type \<^verbatim>\<open>int\<close>, the message
  callback answers the ping with one text frame that carries a pong with the same number.
\<close>

theorem speedtest_ping_answered:
  assumes "- (2 ^ 31) \<le> n" and "n < 2 ^ 31"
  shows "speedtest_on_message (ping_text n) = [Conn_Send (EncodeText (pong_text n))]"
  using ping_seq [OF assms, of "- 1"] by (simp add: speedtest_on_message_def ping_type)

theorem speedtest_ping_answered_witness:
  "speedtest_on_message (ping_text 42) = [Conn_Send (EncodeText (pong_text 42))]"
  using speedtest_ping_answered [of 42] by simp

text \<open>
  C31: the pushing thread. Whatever the connection answers, it sends the same data frame again and
  again and, if it ends, one close frame. It ends exactly when a send fails for good, or succeeds after the ten
  seconds: as long as the connection only reports that it would block, the thread goes on, no matter
  how much time has passed.
\<close>

theorem push_loop_ends_iff:
  "snd (push_loop env) \<longleftrightarrow> (\<exists>e \<in> set env. fst e = Send_Error \<or> e = (Sent, True))"
proof (induction env)
  case (Cons e env)
  obtain r t where e: "e = (r, t)" by (cases e)
  obtain ops ended where l: "push_loop env = (ops, ended)" by (cases "push_loop env")
  show ?case
    using Cons by (cases r; cases t) (simp_all add: e l)
qed simp

text \<open>
  The calls of the pushing thread, after any number of answers of the connection: \<open>k\<close> data frames,
  one per answer it has taken, then the close frame exactly if it has ended.
\<close>

theorem push_loop_calls:
  "\<exists>k \<le> length env. fst (push_loop env) =
     replicate k (Conn_Send chunk_frame) @ (if snd (push_loop env) then push_end else [])"
proof (induction env rule: push_loop.induct)
  case (2 result time_over env)
  show ?case
  proof (cases "result = Send_Error \<or> result = Sent \<and> time_over")
    case True
    then show ?thesis by (intro exI [of _ 1]) auto
  next
    case False
    then have "\<exists>k \<le> length env. fst (push_loop env) =
        replicate k (Conn_Send chunk_frame) @ (if snd (push_loop env) then push_end else [])"
      using 2 by (cases result) auto
    then obtain k where "k \<le> length env" "fst (push_loop env) =
        replicate k (Conn_Send chunk_frame) @ (if snd (push_loop env) then push_end else [])"
      by blast
    with False show ?thesis
      by (intro exI [of _ "Suc k"]) (cases result; auto split: prod.split)
  qed
qed simp

end
