(* ===== verification/Http_Message.thy ===== *)
theory Http_Message
  imports Cpp_String "HOL-Library.AList" "HOL-Library.Multiset"
begin

section \<open>HTTP messages (\<^verbatim>\<open>http_request\<close>, \<^verbatim>\<open>http_response\<close>)\<close>

text \<open>
  The request and response objects, URL decoding and form parsing. An \<^verbatim>\<open>unordered_map\<close> is an association
  list with at most one entry per key; \<open>AList.update\<close> is \<^verbatim>\<open>operator[]\<close> with assignment. The order in
  which such a map is iterated is up to the library: \<open>resp_ToString\<close> takes it as the parameter
  \<open>iter\<close>, which permutes the entries. A status code is printed with \<^verbatim>\<open>operator<<\<close>.
\<close>

type_synonym string_map = "(bytes \<times> bytes) list"

record http_request =
  req_method :: bytes
  req_path :: bytes
  req_version :: bytes
  req_headers :: string_map
  req_body :: bytes
  form_data :: string_map

definition http_request_new :: http_request where
  "http_request_new =
     \<lparr>req_method = [], req_path = [], req_version = [], req_headers = [], req_body = [], form_data = []\<rparr>"

definition AddHeader :: "bytes \<Rightarrow> bytes \<Rightarrow> http_request \<Rightarrow> http_request" where
  "AddHeader k v r = r\<lparr>req_headers := AList.update k v (req_headers r)\<rparr>"

definition GetHeader :: "bytes \<Rightarrow> http_request \<Rightarrow> bytes" where
  "GetHeader k r = (case map_of (req_headers r) k of Some v \<Rightarrow> v | None \<Rightarrow> [])"

definition hex_digit :: "byte \<Rightarrow> nat option" where
  "hex_digit c =
     (if 48 \<le> c \<and> c \<le> 57 then Some (unat c - 48)
      else if 97 \<le> c \<and> c \<le> 102 then Some (unat c - 87)
      else if 65 \<le> c \<and> c \<le> 70 then Some (unat c - 55)
      else None)"

text \<open>
  \<^verbatim>\<open>strtol(hex, &endptr, 16)\<close> on two characters, where it consumes both: two hexadecimal digits, or
  white space or a sign followed by one.
\<close>

definition hex_pair :: "byte \<Rightarrow> byte \<Rightarrow> byte option" where
  "hex_pair c d =
     (case hex_digit d of
        None \<Rightarrow> None
      | Some y \<Rightarrow>
          (case hex_digit c of
             Some x \<Rightarrow> Some (of_nat (16 * x + y))
           | None \<Rightarrow>
               if is_space c \<or> c = 43 then Some (of_nat y)
               else if c = 45 then Some (- of_nat y)
               else None))"

function urlDecode :: "bytes \<Rightarrow> bytes" where
  "urlDecode [] = []"
| "urlDecode (c # cs) =
     (if c = 37 \<and> 2 \<le> length cs then
        (case hex_pair (cs ! 0) (cs ! 1) of
           Some v \<Rightarrow> v # urlDecode (drop 2 cs)
         | None \<Rightarrow> c # urlDecode cs)
      else if c = 43 then 32 # urlDecode cs
      else c # urlDecode cs)"
  by pat_completeness auto
termination by (relation "measure length") auto

definition form_type :: bytes where
  "form_type = str ''application/x-www-form-urlencoded''"

function split_pairs :: "bytes \<Rightarrow> bytes list" where
  "split_pairs body =
     (case find_sub [38] body of
        None \<Rightarrow> [body]
      | Some e \<Rightarrow> take e body # split_pairs (drop (e + 1) body))"
  by pat_completeness auto
termination
  by (relation "measure length") (auto dest!: find_sub_Some)

declare split_pairs.simps [simp del]

definition add_pair :: "bytes \<Rightarrow> string_map \<Rightarrow> string_map" where
  "add_pair p m =
     (case find_sub [61] p of
        None \<Rightarrow> m
      | Some e \<Rightarrow> AList.update (urlDecode (take e p)) (urlDecode (drop (e + 1) p)) m)"

definition ParseFormData :: "http_request \<Rightarrow> http_request" where
  "ParseFormData r =
     (if \<not> contains (GetHeader (str ''Content-Type'') r) form_type then r
      else r\<lparr>form_data := fold add_pair (split_pairs (req_body r)) []\<rparr>)"

definition GetFormValue :: "bytes \<Rightarrow> http_request \<Rightarrow> bytes" where
  "GetFormValue k r = (case map_of (form_data r) k of Some v \<Rightarrow> v | None \<Rightarrow> [])"

record http_response =
  status_code :: int
  status_message :: bytes
  resp_headers :: string_map
  resp_body :: bytes

definition http_response_new :: http_response where
  "http_response_new = \<lparr>status_code = 200, status_message = str ''OK'', resp_headers = [], resp_body = []\<rparr>"

definition GetDefaultMessage :: "int \<Rightarrow> bytes" where
  "GetDefaultMessage code =
     (if code = 200 then str ''OK'' else if code = 400 then str ''Bad Request''
      else if code = 404 then str ''Not Found'' else if code = 500 then str ''Internal Server Error''
      else str ''Unknown'')"

definition SetStatus :: "int \<Rightarrow> bytes \<Rightarrow> http_response \<Rightarrow> http_response" where
  "SetStatus code message r =
     r\<lparr>status_code := code, status_message := (if message = [] then GetDefaultMessage code else message)\<rparr>"

definition resp_AddHeader :: "bytes \<Rightarrow> bytes \<Rightarrow> http_response \<Rightarrow> http_response" where
  "resp_AddHeader k v r = r\<lparr>resp_headers := AList.update k v (resp_headers r)\<rparr>"

definition SetBody :: "bytes \<Rightarrow> http_response \<Rightarrow> http_response" where
  "SetBody b r = r\<lparr>resp_body := b\<rparr>"

definition SetContentType :: "bytes \<Rightarrow> http_response \<Rightarrow> http_response" where
  "SetContentType t = resp_AddHeader (str ''Content-Type'') t"

definition header_text :: "bytes \<times> bytes \<Rightarrow> bytes" where
  "header_text h = (case h of (k, v) \<Rightarrow> k @ str '': '' @ v @ CRLF)"

definition resp_ToString :: "(string_map \<Rightarrow> string_map) \<Rightarrow> http_response \<Rightarrow> bytes" where
  "resp_ToString iter r =
     str ''HTTP/1.1 '' @ to_string (status_code r) @ str '' '' @ status_message r @ CRLF @
     concat (map header_text (iter (resp_headers r))) @
     str ''Content-Length: '' @ to_string (int (length (resp_body r))) @ CRLF @ CRLF @ resp_body r"

subsection \<open>URL encoding, the reference\<close>

text \<open>
  The encoding of the form type of the HTML standard: letters, digits and \<open>*-._\<close> stand for
  themselves, a space is a plus sign, everything else is \<^verbatim>\<open>%XX\<close>.
\<close>

definition hex_char :: "nat \<Rightarrow> byte" where
  "hex_char n = of_nat (if n < 10 then 48 + n else 55 + n)"

definition url_plain :: "byte \<Rightarrow> bool" where
  "url_plain c \<longleftrightarrow> is_digit c \<or> (65 \<le> c \<and> c \<le> 90) \<or> (97 \<le> c \<and> c \<le> 122) \<or> c \<in> {42, 45, 46, 95}"

definition url_encode_char :: "byte \<Rightarrow> bytes" where
  "url_encode_char c =
     (if url_plain c then [c] else if c = 32 then [43]
      else [37, hex_char (unat c div 16), hex_char (unat c mod 16)])"

definition url_encode :: "bytes \<Rightarrow> bytes" where
  "url_encode bs = concat (map url_encode_char bs)"

lemma unat_byte_less: "unat (x :: byte) < 256"
  by (rule order_less_le_trans [OF unsigned_less]) simp

lemma unat_hex_char: "n < 16 \<Longrightarrow> unat (hex_char n) = (if n < 10 then 48 + n else 55 + n)"
  by (simp add: hex_char_def unat_of_nat del: of_nat_add)

lemma hex_digit_char: "n < 16 \<Longrightarrow> hex_digit (hex_char n) = Some n"
  by (auto simp: hex_digit_def word_le_nat_alt unat_hex_char)

lemma hex_pair_chars: "hex_pair (hex_char (unat c div 16)) (hex_char (unat c mod 16)) = Some c"
  using unat_byte_less [of c] by (simp add: hex_pair_def hex_digit_char)

lemma url_plain_special: "url_plain c \<Longrightarrow> c \<noteq> 37 \<and> c \<noteq> 43 \<and> c \<noteq> 38 \<and> c \<noteq> 61"
  by (auto simp: url_plain_def is_digit_def word_le_nat_alt)

lemma urlDecode_encode_char: "urlDecode (url_encode_char c @ rest) = c # urlDecode rest"
  using url_plain_special [of c] by (simp add: url_encode_char_def hex_pair_chars)

lemma urlDecode_encode: "urlDecode (url_encode bs) = bs"
  by (induction bs) (simp_all add: url_encode_def urlDecode_encode_char)

lemma hex_char_special: "n < 16 \<Longrightarrow> hex_char n \<noteq> 38 \<and> hex_char n \<noteq> 61"
  using unat_hex_char [of n] by (auto split: if_splits)

lemma url_encode_char_clean: "c \<in> set (url_encode_char x) \<Longrightarrow> c \<noteq> 38 \<and> c \<noteq> 61"
proof -
  have "unat x div 16 < 16" using unat_byte_less [of x] by simp
  then show "c \<in> set (url_encode_char x) \<Longrightarrow> c \<noteq> 38 \<and> c \<noteq> 61"
    using url_plain_special [of x] hex_char_special [of "unat x div 16"]
      hex_char_special [of "unat x mod 16"]
    by (auto simp: url_encode_char_def split: if_splits)
qed

lemma url_encode_clean: "c \<in> set (url_encode bs) \<Longrightarrow> c \<noteq> 38 \<and> c \<noteq> 61"
  using url_encode_char_clean by (auto simp: url_encode_def)

subsection \<open>Forms\<close>

fun form_body :: "(bytes \<times> bytes) list \<Rightarrow> bytes" where
  "form_body [] = []"
| "form_body [(k, v)] = url_encode k @ [61] @ url_encode v"
| "form_body ((k, v) # kv # kvs) = url_encode k @ [61] @ url_encode v @ [38] @ form_body (kv # kvs)"

lemma add_pair_encoded: "add_pair (url_encode k @ [61] @ url_encode v) m = AList.update k v m"
proof -
  have "61 \<notin> set (url_encode k)" using url_encode_clean by blast
  then show ?thesis by (simp add: add_pair_def find_sub_single urlDecode_encode)
qed

lemma split_pairs_form:
  "kvs \<noteq> [] \<Longrightarrow> split_pairs (form_body kvs) = map (\<lambda>(k, v). url_encode k @ [61] @ url_encode v) kvs"
proof (induction kvs rule: form_body.induct)
  case (2 k v)
  have "38 \<notin> set (url_encode k @ [61] @ url_encode v)" using url_encode_clean by auto
  then show ?case by (subst split_pairs.simps) (simp add: find_sub_single)
next
  case (3 k v kv kvs)
  let ?p = "url_encode k @ [61] @ url_encode v"
  have "38 \<notin> set ?p" using url_encode_clean by auto
  then have "find_sub [38] (?p @ 38 # form_body (kv # kvs)) = Some (length ?p)"
    by (rule find_sub_single(1))
  then show ?case
    using 3 by (subst split_pairs.simps) simp
qed simp

lemma fold_update_map_of:
  "map_of (fold (\<lambda>(k, v). AList.update k v) kvs m) = map_of m ++ map_of (rev kvs)"
  by (induction kvs arbitrary: m) (auto simp: update_conv' map_add_def fun_eq_iff split: option.splits)

lemma form_parse:
  "map_of (fold add_pair (split_pairs (form_body kvs)) []) = map_of (rev kvs)"
proof (cases "kvs = []")
  case True
  then show ?thesis by (subst split_pairs.simps) (simp add: add_pair_def)
next
  case False
  have "fold add_pair (map (\<lambda>(k, v). url_encode k @ [61] @ url_encode v) kvs) m =
      fold (\<lambda>(k, v). AList.update k v) kvs m" for m
    by (induction kvs arbitrary: m) (auto simp: add_pair_encoded [simplified])
  then show ?thesis
    using fold_update_map_of [of kvs "[]"] by (simp add: split_pairs_form [OF False])
qed

subsection \<open>Properties\<close>

text \<open>
  C12: a submitted form arrives as it was filled in. When the body is the URL-encoded list of fields
  and the content type says so, looking up a name in the parsed form returns the value of the last field
  of that name, for names and values made of any bytes.
\<close>

theorem form_roundtrip:
  assumes "contains (GetHeader (str ''Content-Type'') r) form_type" and "req_body r = form_body kvs"
  shows "map_of (form_data (ParseFormData r)) = map_of (rev kvs)"
  using assms form_parse [of kvs] by (simp add: ParseFormData_def)

definition sample_form :: http_request where
  "sample_form = http_request_new\<lparr>req_headers := [(str ''Content-Type'', form_type)],
     req_body := form_body [(str ''a'', str ''x y''), (str ''b'', str ''&='')]\<rparr>"

theorem form_roundtrip_witness:
  "GetFormValue (str ''b'') (ParseFormData sample_form) = str ''&=''"
proof -
  have "contains (GetHeader (str ''Content-Type'') sample_form) form_type"
    by (simp add: contains_def sample_form_def GetHeader_def form_type_def str_simps starts_with_def)
  from form_roundtrip [OF this, of "[(str ''a'', str ''x y''), (str ''b'', str ''&='')]"]
  show ?thesis by (simp add: GetFormValue_def sample_form_def http_request_new_def str_simps)
qed

end
