(* ===== verification/Http_Parser.thy ===== *)
theory Http_Parser
  imports Http_Message Stream_Decoder
begin

section \<open>The two request parsers\<close>

text \<open>
  \<open>HttpParser_Parse\<close> is \<^verbatim>\<open>HttpParser::Parse\<close> of \<^verbatim>\<open>http_parser.cpp\<close>; \<open>ParseHttpRequest\<close> is the private function of
  that name of \<^verbatim>\<open>http_protocol_handler.cpp\<close>, which the server runs on the buffer of a connection. Where
  it returns \<^verbatim>\<open>false\<close> the result is \<open>Incomplete\<close> and the buffer is kept; the exceptions of \<^verbatim>\<open>std::stoul\<close>
  are \<open>Failed\<close>; otherwise it returns the request, whether the connection is kept alive, and how many bytes
  are erased from the buffer. A position into the text is a suffix of it; the header loop stops after \<open>k\<close>
  bytes, the distance to the position that ends the \<^verbatim>\<open>while\<close> loop.
\<close>

definition request_line :: "bytes \<Rightarrow> (bytes \<times> bytes \<times> bytes) option" where
  "request_line s =
     (case read_word s of
        None \<Rightarrow> None
      | Some (m, s1) \<Rightarrow>
          (case read_word s1 of
             None \<Rightarrow> None
           | Some (p, s2) \<Rightarrow>
               (case read_word s2 of None \<Rightarrow> None | Some (v, s3) \<Rightarrow> Some (m, p, v))))"

function header_lines :: "nat \<Rightarrow> bytes \<Rightarrow> bytes list" where
  "header_lines k xs =
     (if k = 0 then []
      else case find_sub CRLF xs of
             None \<Rightarrow> []
           | Some i \<Rightarrow> take i xs # header_lines (k - (i + 2)) (drop (i + 2) xs))"
  by pat_completeness auto
termination by (relation "measure fst") auto

declare header_lines.simps [simp del]

definition add_header_line :: "bytes \<Rightarrow> http_request \<Rightarrow> http_request" where
  "add_header_line l r =
     (case find_sub [58] l of
        None \<Rightarrow> r
      | Some c \<Rightarrow> AddHeader (take c l) (trim_left (drop (c + 1) l)) r)"

definition content_length :: "http_request \<Rightarrow> conv_error + nat" where
  "content_length r =
     (let s = GetHeader (str ''Content-Length'') r in if s = [] then Inr 0 else stoul s)"

definition HttpParser_Parse :: "bytes \<Rightarrow> http_request \<Rightarrow> conv_error + int \<times> http_request" where
  "HttpParser_Parse data r =
     (case find_sub CRLF data of
        None \<Rightarrow> Inr (0, r)
      | Some line_end \<Rightarrow>
          (case request_line (take line_end data) of
             None \<Rightarrow> Inr (- 1, r)
           | Some (m, p, v) \<Rightarrow>
               let r1 = r\<lparr>req_method := m, req_path := p, req_version := v\<rparr>
               in (case find_sub (CRLF @ CRLF) data of
                     None \<Rightarrow> Inr (0, r1)
                   | Some header_end \<Rightarrow>
                       let pos = line_end + 2;
                           r2 = fold add_header_line (header_lines (header_end - pos) (drop pos data)) r1;
                           body_start = header_end + 4
                       in if body_start < length data \<and> GetHeader (str ''Content-Length'') r2 \<noteq> [] then
                            (case content_length r2 of
                               Inl e \<Rightarrow> Inl e
                             | Inr n \<Rightarrow>
                                 if (body_start + n) mod 2 ^ 64 \<le> length data then
                                   let r3 = r2\<lparr>req_body := take n (drop body_start data)\<rparr>
                                   in Inr (int body_start,
                                        if contains (GetHeader (str ''Content-Type'') r3) form_type
                                        then ParseFormData r3 else r3)
                                 else Inr (int body_start, r2))
                          else Inr (int body_start, r2))))"

definition parse_head :: "bytes \<Rightarrow> http_request option" where
  "parse_head hp =
     (case find_sub CRLF hp of
        None \<Rightarrow> None
      | Some line_end \<Rightarrow>
          (case request_line (take line_end hp) of
             None \<Rightarrow> None
           | Some (m, p, v) \<Rightarrow>
               let rest = drop (line_end + 2) hp
               in Some (fold add_header_line (header_lines (length rest) rest)
                    (http_request_new\<lparr>req_method := m, req_path := p, req_version := v\<rparr>))))"

definition finish_request :: "bytes \<Rightarrow> http_request \<Rightarrow> http_request" where
  "finish_request body r =
     (let r1 = (if body = [] then r else r\<lparr>req_body := body\<rparr>);
          r2 = (case find_sub [63] (req_path r1) of
                  None \<Rightarrow> r1 | Some q \<Rightarrow> r1\<lparr>req_path := take q (req_path r1)\<rparr>)
      in if req_method r2 = str ''POST'' \<and> contains (GetHeader (str ''Content-Type'') r2) form_type
         then ParseFormData r2 else r2)"

definition keep_alive :: "http_request \<Rightarrow> bool" where
  "keep_alive r =
     (let h = GetHeader (str ''Connection'') r
      in h = str ''keep-alive'' \<or> (h = [] \<and> req_version r = str ''HTTP/1.1''))"

definition ParseHttpRequest :: "nat \<Rightarrow> bytes \<Rightarrow> (http_request \<times> bool) decode_result" where
  "ParseHttpRequest max_body_size buf =
     (case find_sub (CRLF @ CRLF) buf of
        None \<Rightarrow> Incomplete
      | Some header_end \<Rightarrow>
          (case parse_head (take header_end buf) of
             None \<Rightarrow> Incomplete
           | Some r \<Rightarrow>
               (case content_length r of
                  Inl _ \<Rightarrow> Failed
                | Inr n \<Rightarrow>
                    let body_start = header_end + 4
                    in if max_body_size < n then Incomplete
                       else if length buf < body_start + n then Incomplete
                       else let r' = finish_request (take n (drop body_start buf)) r
                            in Decoded (body_start + n) (r', keep_alive r'))))"

subsection \<open>The server's parser reads a stream\<close>

lemma length_CRLF2 [simp]: "length (CRLF @ CRLF) = 4"
  by simp

lemma ParseHttpRequest_cases:
  assumes "ParseHttpRequest mx buf \<noteq> Incomplete"
  obtains he r where "find_sub (CRLF @ CRLF) buf = Some he" and "he + 4 \<le> length buf"
    and "parse_head (take he buf) = Some r"
  using assms find_sub_Some [of "CRLF @ CRLF" buf]
  by (auto simp: ParseHttpRequest_def split: option.splits)

lemma ParseHttpRequest_consumed:
  "ParseHttpRequest mx buf = Decoded n x \<Longrightarrow> 0 < n \<and> n \<le> length buf"
  by (auto simp: ParseHttpRequest_def Let_def split: option.splits sum.splits if_splits)

lemma ParseHttpRequest_stable:
  assumes "ParseHttpRequest mx buf \<noteq> Incomplete"
  shows "ParseHttpRequest mx (buf @ ys) = ParseHttpRequest mx buf"
proof -
  obtain he r where f: "find_sub (CRLF @ CRLF) buf = Some he" "he + 4 \<le> length buf"
      "parse_head (take he buf) = Some r"
    using assms by (rule ParseHttpRequest_cases)
  then show ?thesis
    using assms find_sub_append [OF f(1), of ys]
    by (auto simp: ParseHttpRequest_def Let_def split: sum.splits if_splits)
qed

interpretation http: stream_decoder "ParseHttpRequest mx" for mx
  by unfold_locales (simp_all add: ParseHttpRequest_consumed ParseHttpRequest_stable)

subsection \<open>The text of a request\<close>

definition line_text :: "bytes \<Rightarrow> bytes" where
  "line_text l = l @ CRLF"

lemma length_line_text: "length (line_text l) = length l + 2"
  by (simp add: line_text_def)

definition plain_line :: "bytes \<Rightarrow> bool" where
  "plain_line l \<longleftrightarrow> l \<noteq> [] \<and> 13 \<notin> set l"

lemma find_sub_skip:
  "c \<notin> set xs \<Longrightarrow> find_sub (c # p) (xs @ ys) = map_option (\<lambda>i. length xs + i) (find_sub (c # p) ys)"
proof (induction xs)
  case Nil
  then show ?case by (cases "find_sub (c # p) ys") simp_all
next
  case (Cons x xs)
  then show ?case by (cases "find_sub (c # p) ys") (auto simp: starts_with_def)
qed

lemma find_sub_line:
  "13 \<notin> set l \<Longrightarrow> find_sub CRLF (l @ CRLF @ ys) = Some (length l)"
  using find_sub_skip [of 13 l "[10]" "CRLF @ ys"] by (simp add: CRLF_def starts_with_def)

lemma find_sub_no_line: "13 \<notin> set l \<Longrightarrow> find_sub CRLF l = None"
  using find_sub_skip [of 13 l "[10]" "[]"] by (simp add: CRLF_def)

lemma find_head_end:
  assumes "\<forall>l \<in> set ls. plain_line l" and "ls \<noteq> []"
  shows "find_sub (CRLF @ CRLF) (concat (map line_text ls) @ CRLF @ rest) =
    Some (length (concat (map line_text ls)) - 2)"
  using assms
proof (induction ls)
  case (Cons l ls)
  have l: "13 \<notin> set l" using Cons.prems by (simp add: plain_line_def)
  note skip = find_sub_skip [OF l, of "[10, 13, 10]"]
  show ?case
  proof (cases ls)
    case Nil
    then show ?thesis using skip [of "[13, 10, 13, 10] @ rest"]
      by (simp add: line_text_def CRLF_def starts_with_def)
  next
    case (Cons l2 ls2)
    then obtain c cs where c: "l2 = c # cs" "c \<noteq> 13"
      using Cons.prems by (cases l2) (auto simp: plain_line_def)
    let ?more = "concat (map line_text ls) @ CRLF @ rest"
    have "find_sub (CRLF @ CRLF) ?more = Some (length (concat (map line_text ls)) - 2)"
      using Cons.IH Cons.prems Cons by simp
    moreover have "?more = c # tl ?more" using Cons c by (simp add: line_text_def)
    moreover have "find_sub (13 # p) (13 # 10 # c # zs) = map_option (\<lambda>i. 2 + i) (find_sub (13 # p) (c # zs))"
      if "p = [10, 13, 10]" for p zs
      using that c(2) by (cases "find_sub (13 # p) (c # zs)") (auto simp: starts_with_def)
    ultimately have "find_sub (CRLF @ CRLF) (CRLF @ ?more) = Some (2 + (length (concat (map line_text ls)) - 2))"
      by (metis (no_types, lifting) CRLF_def append_Cons append_Nil option.simps(9))
    moreover have "2 \<le> length (concat (map line_text ls))" using Cons by (simp add: line_text_def)
    ultimately show ?thesis
      using skip [of "CRLF @ ?more"] by (simp add: line_text_def [of l] CRLF_def)
  qed
qed simp

definition join_lines :: "bytes list \<Rightarrow> bytes" where
  "join_lines ls = (let t = concat (map line_text ls) in take (length t - 2) t)"

lemma join_lines_Cons: "join_lines (l # ls) = (if ls = [] then l else l @ CRLF @ join_lines ls)"
proof (cases ls)
  case (Cons l2 ls2)
  then have "2 \<le> length (concat (map line_text ls))" by (simp add: line_text_def)
  then show ?thesis using Cons by (simp add: join_lines_def Let_def line_text_def [of l])
qed (simp add: join_lines_def line_text_def)

lemma header_lines_join:
  assumes "\<forall>l \<in> set ls. plain_line l" and "length (join_lines ls) \<le> k"
  shows "header_lines k (join_lines ls) = butlast ls"
  using assms
proof (induction ls arbitrary: k)
  case Nil
  then show ?case by (subst header_lines.simps) (simp add: join_lines_def CRLF_def)
next
  case (Cons l ls)
  have l: "13 \<notin> set l" "l \<noteq> []" using Cons.prems by (auto simp: plain_line_def)
  show ?case
  proof (cases "ls = []")
    case True
    then show ?thesis
      using l by (subst header_lines.simps) (simp add: join_lines_Cons find_sub_no_line)
  next
    case False
    then have "length (join_lines ls) \<le> k - (length l + 2)" "k \<noteq> 0"
      using Cons.prems by (auto simp: join_lines_Cons)
    then show ?thesis
      using False l Cons
      by (subst header_lines.simps) (simp add: join_lines_Cons find_sub_line)
  qed
qed

lemma header_lines_text:
  assumes "\<forall>l \<in> set ls. plain_line l" and "k + 2 = length (concat (map line_text ls)) \<or> k = 0 \<and> ls = []"
  shows "header_lines k (concat (map line_text ls) @ rest) = ls"
  using assms
proof (induction ls arbitrary: k)
  case Nil
  then show ?case by (subst header_lines.simps) simp
next
  case (Cons l ls)
  have l: "13 \<notin> set l" "l \<noteq> []" using Cons.prems by (auto simp: plain_line_def)
  then have "k \<noteq> 0" using Cons.prems by (auto simp: line_text_def)
  moreover have "find_sub CRLF (concat (map line_text (l # ls)) @ rest) = Some (length l)"
    using find_sub_line [OF l(1), of "concat (map line_text ls) @ rest"] by (simp add: line_text_def [of l])
  moreover have "k - (length l + 2) + 2 = length (concat (map line_text ls)) \<or> k - (length l + 2) = 0 \<and> ls = []"
    using Cons.prems by (cases ls) (auto simp: length_line_text)
  ultimately show ?case
    using Cons.IH Cons.prems
    by (subst header_lines.simps) (simp add: line_text_def [of l])
qed

definition token :: "bytes \<Rightarrow> bool" where
  "token t \<longleftrightarrow> t \<noteq> [] \<and> (\<forall>c \<in> set t. \<not> is_space c)"

definition request_head :: "bytes \<Rightarrow> bytes \<Rightarrow> bytes \<Rightarrow> bytes" where
  "request_head m p v = m @ [32] @ p @ [32] @ v"

definition header_line :: "bytes \<times> bytes \<Rightarrow> bytes" where
  "header_line h = fst h @ str '': '' @ snd h"

definition header_ok :: "bytes \<times> bytes \<Rightarrow> bool" where
  "header_ok h \<longleftrightarrow> 58 \<notin> set (fst h) \<and> 13 \<notin> set (fst h) \<and> 13 \<notin> set (snd h) \<and>
     (snd h = [] \<or> \<not> is_blank (hd (snd h)))"

definition request_text :: "bytes \<Rightarrow> bytes \<Rightarrow> bytes \<Rightarrow> (bytes \<times> bytes) list \<Rightarrow> bytes \<Rightarrow> bytes" where
  "request_text m p v hs body =
     concat (map line_text (request_head m p v # map header_line hs)) @ CRLF @ body"

lemma read_word_token:
  assumes "token t" and "rest = [] \<or> is_space (hd rest)"
  shows "read_word (t @ rest) = Some (t, rest)" and "is_space c \<Longrightarrow> read_word (c # t @ rest) = Some (t, rest)"
proof -
  obtain x xs where x: "t = x # xs" "\<not> is_space x" using assms(1) by (cases t) (auto simp: token_def)
  have 1: "dropWhile is_space (t @ rest) = t @ rest" using x by simp
  have 2: "takeWhile (\<lambda>c. \<not> is_space c) (t @ rest) = t" "dropWhile (\<lambda>c. \<not> is_space c) (t @ rest) = rest"
    using assms by (cases rest; auto simp: token_def takeWhile_append dropWhile_append)+
  show "read_word (t @ rest) = Some (t, rest)"
    unfolding read_word_def 1 Let_def 2 using x by simp
  show "is_space c \<Longrightarrow> read_word (c # t @ rest) = Some (t, rest)"
    unfolding read_word_def Let_def using x 1 2 by simp
qed

lemma is_space_32 [simp]: "is_space 32"
  by (simp add: is_space_def)

lemma request_line_head:
  assumes "token m" "token p" "token v"
  shows "request_line (request_head m p v) = Some (m, p, v)"
  using read_word_token(1) [OF assms(1), of "32 # p @ 32 # v"]
    read_word_token(2) [OF assms(2), of "32 # v" 32] read_word_token(2) [OF assms(3), of "[]" 32]
  by (simp add: request_line_def request_head_def)

lemma token_no_CR: "token t \<Longrightarrow> 13 \<notin> set t"
  by (auto simp: token_def is_space_def)

lemma plain_request_head: "token m \<Longrightarrow> token p \<Longrightarrow> token v \<Longrightarrow> plain_line (request_head m p v)"
  using token_no_CR by (auto simp: plain_line_def request_head_def)

lemma plain_header_line: "header_ok h \<Longrightarrow> plain_line (header_line h)"
  by (auto simp: plain_line_def header_line_def header_ok_def str_simps)

lemma add_header_line_ok: "header_ok h \<Longrightarrow> add_header_line (header_line h) r = AddHeader (fst h) (snd h) r"
proof -
  assume ok: "header_ok h"
  then have "find_sub [58] (header_line h) = Some (length (fst h))"
    using find_sub_single(1) [of 58 "fst h" "32 # snd h"] by (simp add: header_line_def header_ok_def str_simps)
  moreover have "trim_left (32 # snd h) = snd h"
    using ok by (cases "snd h") (auto simp: trim_left_def header_ok_def is_blank_def)
  ultimately show ?thesis by (simp add: add_header_line_def header_line_def str_simps)
qed

lemma fold_header_lines:
  assumes "\<forall>h \<in> set hs. header_ok h"
  shows "fold add_header_line (map header_line hs) r =
    r\<lparr>req_headers := fold (\<lambda>(k, x). AList.update k x) hs (req_headers r)\<rparr>"
  using assms
  by (induction hs arbitrary: r) (auto simp: add_header_line_ok AddHeader_def)

definition headed :: "bytes \<Rightarrow> bytes \<Rightarrow> bytes \<Rightarrow> (bytes \<times> bytes) list \<Rightarrow> http_request" where
  "headed m p v hs = http_request_new\<lparr>req_method := m, req_path := p, req_version := v,
     req_headers := fold (\<lambda>(k, x). AList.update k x) hs []\<rparr>"

lemma request_text_find:
  assumes "token m" "token p" "token v" and "\<forall>h \<in> set hs. header_ok h"
  shows "find_sub (CRLF @ CRLF) (request_text m p v hs rest) =
      Some (length (join_lines (request_head m p v # map header_line hs)))"
    and "take (length (join_lines (request_head m p v # map header_line hs))) (request_text m p v hs rest) =
      join_lines (request_head m p v # map header_line hs)"
    and "length (join_lines (request_head m p v # map header_line hs)) + 4 = length (request_text m p v hs [])"
proof -
  let ?ls = "request_head m p v # map header_line hs"
  have pl: "\<forall>l \<in> set ?ls. plain_line l"
    using assms plain_request_head plain_header_line by auto
  have two: "2 \<le> length (concat (map line_text ?ls))" by (simp add: length_line_text)
  then have len: "length (join_lines ?ls) = length (concat (map line_text ?ls)) - 2"
    by (simp add: join_lines_def Let_def)
  show "find_sub (CRLF @ CRLF) (request_text m p v hs rest) = Some (length (join_lines ?ls))"
    using find_head_end [OF pl, of rest] unfolding request_text_def len by simp
  show "take (length (join_lines ?ls)) (request_text m p v hs rest) = join_lines ?ls"
    using two unfolding request_text_def len by (simp add: join_lines_def Let_def)
  show "length (join_lines ?ls) + 4 = length (request_text m p v hs [])"
    using two unfolding request_text_def len by simp
qed

lemma parse_head_text:
  assumes "token m" "token p" "token v" and "\<forall>h \<in> set hs. header_ok h"
  shows "parse_head (join_lines (request_head m p v # map header_line hs)) =
    (if hs = [] then None else Some (headed m p v (butlast hs)))"
proof -
  have rh: "13 \<notin> set (request_head m p v)"
    using plain_request_head [OF assms(1-3)] by (simp add: plain_line_def)
  have pl: "\<forall>l \<in> set (map header_line hs). plain_line l" using assms(4) plain_header_line by auto
  show ?thesis
  proof (cases "hs = []")
    case True
    then show ?thesis using find_sub_no_line [OF rh] by (simp add: parse_head_def join_lines_Cons)
  next
    case False
    have "header_lines k (join_lines (map header_line hs)) = map header_line (butlast hs)"
      if "length (join_lines (map header_line hs)) \<le> k" for k
      using header_lines_join [OF pl that] by (simp add: map_butlast)
    moreover have "\<forall>h \<in> set (butlast hs). header_ok h" using assms(4) in_set_butlastD by fast
    ultimately show ?thesis
      using False find_sub_line [OF rh] request_line_head [OF assms(1-3)] fold_header_lines [of "butlast hs"]
      by (simp add: parse_head_def join_lines_Cons headed_def http_request_new_def)
  qed
qed

lemma finish_request_headers [simp]:
  "req_headers (finish_request b r) = req_headers r" "req_version (finish_request b r) = req_version r"
  by (simp_all add: finish_request_def ParseFormData_def Let_def split: option.split)

lemma ParseHttpRequest_text:
  assumes "token m" "token p" "token v" and "\<forall>h \<in> set hs. header_ok h" and "hs \<noteq> []"
    and "content_length (headed m p v (butlast hs)) = Inr n" and "n \<le> mx" and "n \<le> length body"
  shows "ParseHttpRequest mx (request_text m p v hs body) =
    (let r = finish_request (take n body) (headed m p v (butlast hs))
     in Decoded (length (request_text m p v hs []) + n) (r, keep_alive r))"
proof -
  note f = request_text_find [OF assms(1-4)]
  have "drop (length (request_text m p v hs [])) (request_text m p v hs body) = body"
    and "length (request_text m p v hs body) = length (request_text m p v hs []) + length body"
    by (simp_all add: request_text_def)
  then show ?thesis
    using assms parse_head_text [OF assms(1-4)] f(1,2) [of body] f(3)
    by (simp add: ParseHttpRequest_def Let_def)
qed

lemma ParseHttpRequest_no_headers:
  assumes "token m" "token p" "token v"
  shows "ParseHttpRequest mx (request_text m p v [] body) = Incomplete"
  using request_text_find(1,2) [of m p v "[]" body] parse_head_text [of m p v "[]"] assms
  by (simp add: ParseHttpRequest_def)

lemma HttpParser_text:
  assumes "token m" "token p" "token v" and "\<forall>h \<in> set hs. header_ok h"
  shows "HttpParser_Parse (request_text m p v hs []) http_request_new =
    Inr (int (length (request_text m p v hs [])), headed m p v hs)"
proof -
  let ?h = "request_head m p v" and ?ls = "map header_line hs"
  have rh: "13 \<notin> set ?h" using plain_request_head [OF assms(1-3)] by (simp add: plain_line_def)
  have pl: "\<forall>l \<in> set ?ls. plain_line l" using assms(4) plain_header_line by auto
  have t: "request_text m p v hs [] = ?h @ CRLF @ concat (map line_text ?ls) @ CRLF"
    by (simp add: request_text_def line_text_def [of ?h])
  have len: "length (join_lines (?h # ?ls)) - (length ?h + 2) + 2 = length (concat (map line_text ?ls)) \<or>
      length (join_lines (?h # ?ls)) - (length ?h + 2) = 0 \<and> ?ls = []"
    by (cases hs) (auto simp: join_lines_def Let_def length_line_text)
  have "header_lines (length (join_lines (?h # ?ls)) - (length ?h + 2)) (concat (map line_text ?ls) @ CRLF) = ?ls"
    by (rule header_lines_text [OF pl len])
  then show ?thesis
    using find_sub_line [OF rh, of "concat (map line_text ?ls) @ CRLF"] request_line_head [OF assms(1-3)]
      request_text_find(1) [OF assms, of "[]"] request_text_find(3) [OF assms] fold_header_lines [OF assms(4)]
    by (simp add: HttpParser_Parse_def t headed_def http_request_new_def)
qed

subsection \<open>Properties\<close>

text \<open>
  C32: the server's parser drops the last header line. For a well-formed request whose other headers
  announce no body, \<^verbatim>\<open>ParseHttpRequest\<close> returns a request that has all headers but the last, and takes only
  the head off the buffer; \<^verbatim>\<open>HttpParser::Parse\<close> returns all of them. If the last header is the content
  length, the body stays in the buffer and is read as the next request.
\<close>

theorem http_last_header_lost:
  assumes "token m" and "token p" and "token v" and "\<forall>h \<in> set hs. header_ok h" and "hs \<noteq> []"
    and "content_length (headed m p v (butlast hs)) = Inr 0"
  shows "(\<exists>r ka. ParseHttpRequest mx (request_text m p v hs body) =
           Decoded (length (request_text m p v hs [])) (r, ka) \<and>
           map_of (req_headers r) = map_of (rev (butlast hs))) \<and>
    (\<exists>r. HttpParser_Parse (request_text m p v hs []) http_request_new =
           Inr (int (length (request_text m p v hs [])), r) \<and> map_of (req_headers r) = map_of (rev hs))"
  using ParseHttpRequest_text [OF assms(1-6), of mx body] HttpParser_text [OF assms(1-4)]
    fold_update_map_of [of "butlast hs" "[]"] fold_update_map_of [of hs "[]"]
  by (simp add: headed_def Let_def)

definition sample_headers :: "(bytes \<times> bytes) list" where
  "sample_headers = [(str ''Host'', str ''h''), (str ''Content-Length'', str ''2'')]"

theorem http_last_header_lost_witness:
  "let req = request_text (str ''POST'') (str ''/f'') (str ''HTTP/1.1'') sample_headers
   in \<exists>r ka. ParseHttpRequest 100 (req (str ''hi'')) = Decoded (length (req [])) (r, ka) \<and>
        map_of (req_headers r) (str ''Content-Length'') = None"
proof -
  have t: "token (str ''POST'')" "token (str ''/f'')" "token (str ''HTTP/1.1'')"
    by (simp_all add: token_def str_simps is_space_def word_le_nat_alt)
  have h: "\<forall>h \<in> set sample_headers. header_ok h"
    by (simp add: sample_headers_def header_ok_def str_simps is_blank_def)
  have "map_of (rev (butlast sample_headers)) (str ''Content-Length'') = None" "sample_headers \<noteq> []"
    "content_length (headed m p v (butlast sample_headers)) = Inr 0" for m p v
    by (simp_all add: sample_headers_def content_length_def headed_def GetHeader_def str_simps)
  then show ?thesis
    using http_last_header_lost [OF t h, of 100 "str ''hi''"] unfolding Let_def by metis
qed

text \<open>
  A request without header lines is never answered: however much data follows it on the connection,
  \<^verbatim>\<open>ParseHttpRequest\<close> reports it as incomplete, and the buffer keeps growing.
\<close>

theorem http_no_headers_stuck:
  assumes "token m" and "token p" and "token v"
  shows "ParseHttpRequest mx (request_text m p v [] following) = Incomplete"
  using assms by (rule ParseHttpRequest_no_headers)

theorem http_no_headers_stuck_witness:
  "ParseHttpRequest 100 (request_text (str ''GET'') (str ''/'') (str ''HTTP/1.0'') [] (str ''x'')) = Incomplete"
proof -
  have "token (str ''GET'')" "token (str ''/'')" "token (str ''HTTP/1.0'')"
    by (simp_all add: token_def str_simps is_space_def word_le_nat_alt)
  then show ?thesis by (rule http_no_headers_stuck)
qed


end
