(* ===== verification/Http_Protocol.thy ===== *)
theory Http_Protocol
  imports Http_Parser Speedtest_Ws_Handler
begin

section \<open>The HTTP protocol handler (\<^verbatim>\<open>src/application/http/http_protocol_handler.cpp\<close>)\<close>

text \<open>
  The handler keeps routes, static directories, middlewares and one context per connection; each member
  function is one definition. A request handler or middleware is a function that may change the
  state \<open>'w\<close> of the application behind it. The calls made on the connection are a list of \<open>http_op\<close>.
  \<open>files\<close> stands for the file system: the contents of the regular files that can be opened. \<open>iter\<close>
  is the iteration order of a header map (see \<open>Http_Message\<close>), \<open>sha1\<close> the digest of OpenSSL, and
  \<open>result\<close> what the connection answers to the handshake response. Time is in milliseconds.

  A route pattern is compiled to tokens in place of a \<^verbatim>\<open>std::regex\<close>: a literal character (escaped by
  the code where the regular expression syntax needs it) or a parameter, \<^verbatim>\<open>([^/]+)\<close>. The characters
  \<^verbatim>\<open>[\<close>, \<^verbatim>\<open>]\<close> and the backslash, which the code does not escape, are outside the model.

  Exceptions: \<^verbatim>\<open>std::stoul\<close> on a content length (\<open>Bad_Content_Length\<close>) and the call of an empty
  \<^verbatim>\<open>std::function\<close> (\<open>Bad_Function_Call\<close>) leave \<^verbatim>\<open>OnData\<close>; the context is left as it was then.
\<close>

subsection \<open>Routes\<close>

datatype route_token = Lit byte | Param bytes

type_synonym 'w handler = "http_request \<Rightarrow> http_response \<times> 'w \<Rightarrow> http_response \<times> 'w"

type_synonym 'w middleware =
  "http_request \<times> http_response \<times> 'w \<Rightarrow> bool \<times> http_request \<times> http_response \<times> 'w"

record 'w route =
  route_pattern :: bytes
  route_handler :: "'w handler"
  route_tokens :: "route_token list"

function compile_pattern :: "bytes \<Rightarrow> route_token list" where
  "compile_pattern [] = []"
| "compile_pattern (c # cs) =
     (if c = 58
      then Param (takeWhile (\<lambda>x. x \<noteq> 47) cs) # compile_pattern (dropWhile (\<lambda>x. x \<noteq> 47) cs)
      else Lit c # compile_pattern cs)"
  by pat_completeness auto
termination
  by (relation "measure length") (auto simp: le_imp_less_Suc length_dropWhile_le)

definition CreateRouteEntry :: "bytes \<Rightarrow> 'w handler \<Rightarrow> 'w route" where
  "CreateRouteEntry pat h = \<lparr>route_pattern = pat, route_handler = h, route_tokens = compile_pattern pat\<rparr>"

primrec first_some :: "('a \<Rightarrow> 'b option) \<Rightarrow> 'a list \<Rightarrow> 'b option" where
  "first_some f [] = None"
| "first_some f (x # xs) = (case f x of Some y \<Rightarrow> Some y | None \<Rightarrow> first_some f xs)"

fun match_tokens :: "route_token list \<Rightarrow> bytes \<Rightarrow> bytes list option" where
  "match_tokens [] xs = (if xs = [] then Some [] else None)"
| "match_tokens (Lit c # ts) xs =
     (case xs of [] \<Rightarrow> None | y # ys \<Rightarrow> if y = c then match_tokens ts ys else None)"
| "match_tokens (Param n # ts) xs =
     first_some (\<lambda>k. map_option (\<lambda>cs. take k xs # cs) (match_tokens ts (drop k xs)))
       (rev [1..<Suc (length (takeWhile (\<lambda>x. x \<noteq> 47) xs))])"

fun param_names :: "route_token list \<Rightarrow> bytes list" where
  "param_names [] = []"
| "param_names (Lit c # ts) = param_names ts"
| "param_names (Param n # ts) = n # param_names ts"

fun MatchRoute :: "'w route list \<Rightarrow> bytes \<Rightarrow> ('w handler \<times> string_map) option" where
  "MatchRoute [] path = None"
| "MatchRoute (rt # rts) path =
     (case match_tokens (route_tokens rt) path of
        Some caps \<Rightarrow>
          Some (route_handler rt,
                fold (\<lambda>(k, v). AList.update k v) (zip (param_names (route_tokens rt)) caps) [])
      | None \<Rightarrow> MatchRoute rts path)"

subsection \<open>State\<close>

record http_context =
  ctx_buffer :: bytes
  last_activity :: nat
  is_keep_alive :: bool

record 'w protocol =
  running :: bool
  max_body_size :: nat
  request_timeout :: nat
  total_requests :: nat
  get_routes :: "'w route list"
  post_routes :: "'w route list"
  put_routes :: "'w route list"
  delete_routes :: "'w route list"
  static_configs :: "(bytes \<times> bytes) list"
  middlewares :: "'w middleware list"
  contexts :: "nat \<rightharpoonup> http_context"

datatype http_op =
    Op_SendAsync bytes
  | Op_Send bytes
  | Op_Close
  | Op_SetUserData bytes bytes
  | Op_SetDataCallback

datatype http_exn = Bad_Function_Call | Bad_Content_Length

definition protocol_new :: "'w protocol" where
  "protocol_new =
     \<lparr>running = False, max_body_size = 10 * 1024 * 1024, request_timeout = 30000, total_requests = 0,
      get_routes = [], post_routes = [], put_routes = [], delete_routes = [], static_configs = [],
      middlewares = [], contexts = Map.empty\<rparr>"

definition Start :: "'w protocol \<Rightarrow> 'w protocol" where
  "Start s = s\<lparr>running := True\<rparr>"

definition Stop :: "'w protocol \<Rightarrow> 'w protocol" where
  "Stop s = s\<lparr>running := False\<rparr>"

definition Get :: "bytes \<Rightarrow> 'w handler \<Rightarrow> 'w protocol \<Rightarrow> 'w protocol" where
  "Get path h s = s\<lparr>get_routes := get_routes s @ [CreateRouteEntry path h]\<rparr>"

definition Post :: "bytes \<Rightarrow> 'w handler \<Rightarrow> 'w protocol \<Rightarrow> 'w protocol" where
  "Post path h s = s\<lparr>post_routes := post_routes s @ [CreateRouteEntry path h]\<rparr>"

definition Put :: "bytes \<Rightarrow> 'w handler \<Rightarrow> 'w protocol \<Rightarrow> 'w protocol" where
  "Put path h s = s\<lparr>put_routes := put_routes s @ [CreateRouteEntry path h]\<rparr>"

definition Delete :: "bytes \<Rightarrow> 'w handler \<Rightarrow> 'w protocol \<Rightarrow> 'w protocol" where
  "Delete path h s = s\<lparr>delete_routes := delete_routes s @ [CreateRouteEntry path h]\<rparr>"

definition ServeStatic :: "bytes \<Rightarrow> bytes \<Rightarrow> 'w protocol \<Rightarrow> 'w protocol" where
  "ServeStatic prefix root s = s\<lparr>static_configs := static_configs s @ [(prefix, root)]\<rparr>"

definition AddMiddleware :: "'w middleware \<Rightarrow> 'w protocol \<Rightarrow> 'w protocol" where
  "AddMiddleware m s = s\<lparr>middlewares := middlewares s @ [m]\<rparr>"

subsection \<open>Static files\<close>

definition mime_types :: "(bytes \<times> bytes) list" where
  "mime_types =
     [(str ''.html'', str ''text/html''), (str ''.htm'', str ''text/html''),
      (str ''.css'', str ''text/css''), (str ''.js'', str ''application/javascript''),
      (str ''.json'', str ''application/json''), (str ''.png'', str ''image/png''),
      (str ''.jpg'', str ''image/jpeg''), (str ''.jpeg'', str ''image/jpeg''),
      (str ''.gif'', str ''image/gif''), (str ''.svg'', str ''image/svg+xml''),
      (str ''.ico'', str ''image/x-icon''), (str ''.txt'', str ''text/plain''),
      (str ''.xml'', str ''application/xml''), (str ''.pdf'', str ''application/pdf''),
      (str ''.zip'', str ''application/zip''), (str ''.mp3'', str ''audio/mpeg''),
      (str ''.mp4'', str ''video/mp4'')]"

definition GetMimeType :: "bytes \<Rightarrow> bytes" where
  "GetMimeType ext =
     (case map_of mime_types ext of Some t \<Rightarrow> t | None \<Rightarrow> str ''application/octet-stream'')"

definition path_extension :: "bytes \<Rightarrow> bytes" where
  "path_extension path =
     (let name = rev (takeWhile (\<lambda>c. c \<noteq> 47) (rev path));
          tail = rev (takeWhile (\<lambda>c. c \<noteq> 46) (rev name))
      in if length name \<le> length tail + 1 \<or> name = str ''..'' then [] else 46 # tail)"

text \<open>\<^verbatim>\<open>fs::path(root) / rel\<close>: a relative path is appended, an absolute one replaces the root.\<close>

definition path_join :: "bytes \<Rightarrow> bytes \<Rightarrow> bytes" where
  "path_join root rel =
     (if starts_with (str ''/'') rel then rel
      else if root = [] \<or> last root = 47 then root @ rel
      else root @ str ''/'' @ rel)"

definition HandleStaticFile ::
  "(bytes \<rightharpoonup> bytes) \<Rightarrow> bytes \<Rightarrow> bytes \<Rightarrow> bytes \<Rightarrow> http_response \<Rightarrow> http_response option" where
  "HandleStaticFile files url_prefix root_dir path resp =
     (let rel0 = drop (length url_prefix) path;
          relative_path = (if rel0 = [] \<or> rel0 ! 0 \<noteq> 47 then 47 # rel0 else rel0)
      in if contains relative_path (str ''..'') then None
         else let file_path = path_join root_dir (drop 1 relative_path)
              in case files file_path of
                   None \<Rightarrow> None
                 | Some content \<Rightarrow>
                     Some (SetContentType (GetMimeType (path_extension file_path)) (SetBody content resp)))"

fun static_lookup ::
  "(bytes \<rightharpoonup> bytes) \<Rightarrow> (bytes \<times> bytes) list \<Rightarrow> bytes \<Rightarrow> http_response \<Rightarrow> http_response option" where
  "static_lookup files [] path resp = None"
| "static_lookup files ((prefix, root) # cfgs) path resp =
     (if cpp_find prefix 0 path = Some 0
      then (case HandleStaticFile files prefix root path resp of
              Some r \<Rightarrow> Some r
            | None \<Rightarrow> static_lookup files cfgs path resp)
      else static_lookup files cfgs path resp)"

subsection \<open>Requests\<close>

fun ExecuteMiddlewares ::
  "'w middleware list \<Rightarrow> http_request \<times> http_response \<times> 'w \<Rightarrow> bool \<times> http_request \<times> http_response \<times> 'w" where
  "ExecuteMiddlewares [] x = (True, x)"
| "ExecuteMiddlewares (m # ms) x =
     (case m x of (ok, x') \<Rightarrow> if ok then ExecuteMiddlewares ms x' else (False, x'))"

definition routes_for :: "bytes \<Rightarrow> 'w protocol \<Rightarrow> 'w route list" where
  "routes_for meth s =
     (if meth = str ''GET'' then get_routes s
      else if meth = str ''POST'' then post_routes s
      else if meth = str ''PUT'' then put_routes s
      else if meth = str ''DELETE'' then delete_routes s
      else [])"

definition not_found :: "http_response \<Rightarrow> http_response" where
  "not_found resp = SetBody (str ''404 - Page Not Found'') (SetStatus 404 (str ''Not Found'') resp)"

definition HandleRequest ::
  "(bytes \<rightharpoonup> bytes) \<Rightarrow> (string_map \<Rightarrow> string_map) \<Rightarrow> 'w protocol \<Rightarrow> http_request \<Rightarrow> 'w \<Rightarrow>
   http_op list \<times> 'w \<times> http_exn option" where
  "HandleRequest files iter s req w =
     (case ExecuteMiddlewares (middlewares s) (req, http_response_new, w) of
        (ok, mutable_req, resp, w1) \<Rightarrow>
          if \<not> ok then ([Op_SendAsync (resp_ToString iter resp)], w1, None)
          else case MatchRoute (routes_for (req_method req) s) (req_path req) of
                 Some (h, path_params) \<Rightarrow>
                   (case h mutable_req (resp, w1) of
                      (resp', w2) \<Rightarrow>
                        (map (\<lambda>(k, v). Op_SetUserData (str ''param:'' @ k) v) (iter path_params) @
                           [Op_SendAsync (resp_ToString iter resp')], w2, None))
               | None \<Rightarrow>
                   if req_method req = str ''GET'' \<and>
                      static_lookup files (static_configs s) (req_path req) resp \<noteq> None
                   then ([], w1, Some Bad_Function_Call)
                   else ([Op_SendAsync (resp_ToString iter (not_found resp))], w1, None))"

subsection \<open>Data from a connection\<close>

definition context_new :: "nat \<Rightarrow> http_context" where
  "context_new now = \<lparr>ctx_buffer = [], last_activity = now, is_keep_alive = True\<rparr>"

definition GetContext :: "nat \<Rightarrow> nat \<Rightarrow> 'w protocol \<Rightarrow> http_context" where
  "GetContext conn_id now s = (case contexts s conn_id of Some c \<Rightarrow> c | None \<Rightarrow> context_new now)"

definition RemoveContext :: "nat \<Rightarrow> 'w protocol \<Rightarrow> 'w protocol" where
  "RemoveContext conn_id s = s\<lparr>contexts := (contexts s)(conn_id := None)\<rparr>"

definition put_context :: "nat \<Rightarrow> http_context \<Rightarrow> 'w protocol \<Rightarrow> 'w protocol" where
  "put_context conn_id c s = s\<lparr>contexts := (contexts s)(conn_id \<mapsto> c)\<rparr>"

text \<open>
  The \<^verbatim>\<open>while\<close> loop of \<^verbatim>\<open>OnData\<close>: the calls made on the connection, the state of the application, the
  number of requests taken, and how the loop ended: waiting for more data with the rest of the buffer, with
  the connection closed, or with an exception.
\<close>

datatype loop_end = Waiting bytes | Closed | Threw http_exn bytes bool

function request_loop ::
  "(bytes \<rightharpoonup> bytes) \<Rightarrow> (string_map \<Rightarrow> string_map) \<Rightarrow> 'w protocol \<Rightarrow> bytes \<Rightarrow> 'w \<Rightarrow>
   http_op list \<times> 'w \<times> nat \<times> loop_end" where
  "request_loop files iter s buf w =
     (if buf = [] then ([], w, 0, Waiting [])
      else case ParseHttpRequest (max_body_size s) buf of
             Incomplete \<Rightarrow> ([], w, 0, Waiting buf)
           | Failed \<Rightarrow> ([], w, 0, Threw Bad_Content_Length buf True)
           | Decoded n (req, ka) \<Rightarrow>
               (case HandleRequest files iter s req w of
                  (ops, w1, Some e) \<Rightarrow> (ops, w1, 1, Threw e (drop n buf) ka)
                | (ops, w1, None) \<Rightarrow>
                    if \<not> ka then (ops @ [Op_Close], w1, 1, Closed)
                    else (case request_loop files iter s (drop n buf) w1 of
                            (ops', w2, k, ending) \<Rightarrow> (ops @ ops', w2, Suc k, ending))))"
  by pat_completeness auto
termination
  by (relation "measure (\<lambda>(files, iter, s, buf, w). length buf)")
     (auto dest!: ParseHttpRequest_consumed)

declare request_loop.simps [simp del]

definition wants_upgrade :: "bytes \<Rightarrow> bool" where
  "wants_upgrade buf =
     (case find_sub (CRLF @ CRLF) buf of
        None \<Rightarrow> False
      | Some e \<Rightarrow> contains (take e buf) (str ''Upgrade: websocket'') \<or>
                  contains (take e buf) (str ''Upgrade: WebSocket''))"

definition is_speedtest_upgrade :: "http_request \<Rightarrow> bool" where
  "is_speedtest_upgrade r \<longleftrightarrow>
     map to_lower (GetHeader (str ''Upgrade'') r) = str ''websocket'' \<and> req_path r = str ''/ws/speedtest''"

definition conn_to_http :: "conn_op \<Rightarrow> http_op" where
  "conn_to_http c = (case c of Conn_Send b \<Rightarrow> Op_Send b | Conn_Close \<Rightarrow> Op_Close)"

record 'w on_data_result =
  out_state :: "'w protocol"
  out_ops :: "http_op list"
  out_world :: 'w
  out_exn :: "http_exn option"
  out_session :: "(ws_session \<times> ws_callbacks) option"

definition upgrade ::
  "(bytes \<Rightarrow> bytes) \<Rightarrow> send_result \<Rightarrow> nat \<Rightarrow> http_request \<Rightarrow> 'w protocol \<Rightarrow> 'w \<Rightarrow> 'w on_data_result" where
  "upgrade sha1 result conn_id r s w =
     (let key = GetHeader (str ''Sec-WebSocket-Key'') r;
          opened = (if key = [] then ([], None) else CreateAndHandle sha1 key result)
      in case snd opened of
           Some ses \<Rightarrow>
             \<lparr>out_state = RemoveContext conn_id s,
              out_ops = map conn_to_http (fst opened) @ [Op_SetDataCallback],
              out_world = w, out_exn = None, out_session = Some ses\<rparr>
         | None \<Rightarrow>
             \<lparr>out_state = RemoveContext conn_id s, out_ops = map conn_to_http (fst opened) @ [Op_Close],
              out_world = w, out_exn = None, out_session = None\<rparr>)"

definition serve ::
  "(bytes \<rightharpoonup> bytes) \<Rightarrow> (string_map \<Rightarrow> string_map) \<Rightarrow> nat \<Rightarrow> http_context \<Rightarrow> 'w protocol \<Rightarrow> 'w \<Rightarrow>
   'w on_data_result" where
  "serve files iter conn_id ctx s w =
     (case request_loop files iter s (ctx_buffer ctx) w of
        (ops, w', k, ending) \<Rightarrow>
          let s1 = s\<lparr>total_requests := total_requests s + k\<rparr>;
              keep = (if k = 0 then is_keep_alive ctx else True)
          in (case ending of
                Waiting rest \<Rightarrow>
                  \<lparr>out_state = put_context conn_id (ctx\<lparr>ctx_buffer := rest, is_keep_alive := keep\<rparr>) s1,
                   out_ops = ops, out_world = w', out_exn = None, out_session = None\<rparr>
              | Closed \<Rightarrow>
                  \<lparr>out_state = RemoveContext conn_id s1, out_ops = ops, out_world = w', out_exn = None,
                   out_session = None\<rparr>
              | Threw e rest ka \<Rightarrow>
                  \<lparr>out_state = put_context conn_id
                     (ctx\<lparr>ctx_buffer := rest,
                          is_keep_alive := (if e = Bad_Content_Length then keep else ka)\<rparr>) s1,
                   out_ops = ops, out_world = w', out_exn = Some e, out_session = None\<rparr>))"

definition http_OnData ::
  "(bytes \<rightharpoonup> bytes) \<Rightarrow> (string_map \<Rightarrow> string_map) \<Rightarrow> (bytes \<Rightarrow> bytes) \<Rightarrow> send_result \<Rightarrow> nat \<Rightarrow> nat \<Rightarrow>
   bytes \<Rightarrow> 'w protocol \<Rightarrow> 'w \<Rightarrow> 'w on_data_result" where
  "http_OnData files iter sha1 result now conn_id data s w =
     (if \<not> running s then
        \<lparr>out_state = s, out_ops = [], out_world = w, out_exn = None, out_session = None\<rparr>
      else
        let ctx0 = GetContext conn_id now s;
            ctx = ctx0\<lparr>last_activity := now, ctx_buffer := ctx_buffer ctx0 @ data\<rparr>;
            s1 = put_context conn_id ctx s
        in if wants_upgrade (ctx_buffer ctx) then
             (case ParseHttpRequest (max_body_size s) (ctx_buffer ctx) of
                Failed \<Rightarrow>
                  \<lparr>out_state = s1, out_ops = [], out_world = w, out_exn = Some Bad_Content_Length,
                   out_session = None\<rparr>
              | Decoded n (r, ka) \<Rightarrow>
                  if is_speedtest_upgrade r then upgrade sha1 result conn_id r s1 w
                  else serve files iter conn_id ctx s1 w
              | Incomplete \<Rightarrow> serve files iter conn_id ctx s1 w)
           else serve files iter conn_id ctx s1 w)"

definition http_OnError :: "nat \<Rightarrow> 'w protocol \<Rightarrow> 'w protocol" where
  "http_OnError conn_id s = RemoveContext conn_id s"

definition CleanupTimeoutConnections :: "nat \<Rightarrow> 'w protocol \<Rightarrow> 'w protocol" where
  "CleanupTimeoutConnections now s =
     s\<lparr>contexts := (\<lambda>i. case contexts s i of
          None \<Rightarrow> None
        | Some c \<Rightarrow> if request_timeout s < now - last_activity c then None else Some c)\<rparr>"

definition GetStats :: "'w protocol \<Rightarrow> nat \<times> nat" where
  "GetStats s = (total_requests s, card (dom (contexts s)))"

subsection \<open>What a route matches\<close>

fun instantiate :: "route_token list \<Rightarrow> bytes list \<Rightarrow> bytes" where
  "instantiate [] args = []"
| "instantiate (Lit c # ts) args = c # instantiate ts args"
| "instantiate (Param n # ts) (a # args) = a @ instantiate ts args"
| "instantiate (Param n # ts) [] = []"

fun slash_after_param :: "route_token list \<Rightarrow> bool" where
  "slash_after_param [] \<longleftrightarrow> True"
| "slash_after_param (Lit c # ts) \<longleftrightarrow> slash_after_param ts"
| "slash_after_param (Param n # ts) \<longleftrightarrow> (ts = [] \<or> hd ts = Lit 47) \<and> slash_after_param ts"

definition segment :: "bytes \<Rightarrow> bool" where
  "segment a \<longleftrightarrow> a \<noteq> [] \<and> 47 \<notin> set a"

lemma compile_slash: "slash_after_param (compile_pattern pat)"
proof (induction pat rule: compile_pattern.induct)
  case (2 c cs)
  show ?case
  proof (cases "c = 58")
    case True
    let ?r = "dropWhile (\<lambda>x. x \<noteq> 47) cs"
    have "?r = [] \<or> hd ?r = 47" using hd_dropWhile [of "\<lambda>x. x \<noteq> 47" cs] by blast
    moreover have "compile_pattern r = [] \<or> hd (compile_pattern r) = Lit 47"
      if "r = [] \<or> hd r = 47" for r
      using that by (cases r) auto
    ultimately have "compile_pattern ?r = [] \<or> hd (compile_pattern ?r) = Lit 47" by blast
    with True 2 show ?thesis by simp
  qed (use 2 in simp)
qed simp

lemma first_some_SomeD: "first_some f xs = Some y \<Longrightarrow> \<exists>x \<in> set xs. f x = Some y"
  by (induction xs) (auto split: option.splits)

lemma match_tokens_sound:
  "match_tokens ts xs = Some caps \<Longrightarrow>
     xs = instantiate ts caps \<and> length caps = length (param_names ts) \<and> (\<forall>a \<in> set caps. segment a)"
proof (induction ts xs arbitrary: caps rule: match_tokens.induct)
  case (3 n ts xs)
  obtain k cs where k: "k \<in> set [1..<Suc (length (takeWhile (\<lambda>x. x \<noteq> 47) xs))]"
      "match_tokens ts (drop k xs) = Some cs" "caps = take k xs # cs"
    using first_some_SomeD [OF 3(2) [unfolded match_tokens.simps]] by auto
  have "take k xs = take k (takeWhile (\<lambda>x. x \<noteq> 47) xs)"
    using k(1) by (metis atLeastLessThan_iff less_Suc_eq_le set_upt take_all_iff take_append takeWhile_dropWhile_id
        append_Nil2 diff_is_0_eq take_0)
  then have "segment (take k xs)"
    using k(1) by (auto simp: segment_def dest: in_set_takeD set_takeWhileD)
  moreover have "drop k xs = instantiate ts cs" "length cs = length (param_names ts)" "\<forall>a \<in> set cs. segment a"
    using 3(1) [OF k(2)] by auto
  moreover from this(1) have "xs = take k xs @ instantiate ts cs" by (metis append_take_drop_id)
  ultimately show ?case unfolding k(3) by auto
qed (auto split: if_splits list.splits)

lemma match_tokens_complete:
  assumes "slash_after_param ts" and "length args = length (param_names ts)" and "\<forall>a \<in> set args. segment a"
  shows "match_tokens ts (instantiate ts args) = Some args"
  using assms
proof (induction ts args rule: instantiate.induct)
  case (3 n ts a args)
  let ?rest = "instantiate ts args"
  have a: "a \<noteq> []" "47 \<notin> set a" using 3 by (auto simp: segment_def)
  have "?rest = [] \<or> hd ?rest = 47" using 3 by (cases ts) auto
  then have t: "takeWhile (\<lambda>x. x \<noteq> 47) (a @ ?rest) = a"
    using a(2) by (cases ?rest) (auto simp: takeWhile_append takeWhile_eq_all_conv)
  obtain k where k: "length a = Suc k" using a(1) by (cases a) auto
  have "rev [1..<Suc (length a)] = length a # rev [1..<length a]" using k by simp
  with 3 show ?case unfolding instantiate.simps match_tokens.simps t by simp
qed auto

lemma match_tokens_iff:
  "match_tokens (compile_pattern pat) path = Some caps \<longleftrightarrow>
     path = instantiate (compile_pattern pat) caps \<and>
     length caps = length (param_names (compile_pattern pat)) \<and> (\<forall>a \<in> set caps. segment a)"
  using match_tokens_sound match_tokens_complete [OF compile_slash] by blast

subsection \<open>Responses\<close>

definition is_response :: "http_op \<Rightarrow> bool" where
  "is_response op = (case op of Op_SendAsync _ \<Rightarrow> True | _ \<Rightarrow> False)"

lemma HandleRequest_response:
  assumes "HandleRequest files iter s req w = (ops, w', None)"
  shows "\<exists>pre t. ops = pre @ [Op_SendAsync t] \<and> filter is_response pre = []"
  using assms
  by (auto simp: HandleRequest_def is_response_def filter_empty_conv split: prod.splits if_splits option.splits)

lemma HandleRequest_throws:
  assumes "HandleRequest files iter s req w = (ops, w', Some e)"
  shows "e = Bad_Function_Call \<and> ops = [] \<and> req_method req = str ''GET'' \<and>
    MatchRoute (get_routes s) (req_path req) = None \<and>
    (\<exists>resp. static_lookup files (static_configs s) (req_path req) resp \<noteq> None)"
  using assms
  by (auto simp: HandleRequest_def routes_for_def split: prod.splits if_splits option.splits)

lemma request_loop_wait:
  "ParseHttpRequest (max_body_size s) buf = Incomplete \<Longrightarrow> request_loop files iter s buf w = ([], w, 0, Waiting buf)"
  by (subst request_loop.simps) simp

lemma request_loop_failed:
  "ParseHttpRequest (max_body_size s) buf = Failed \<Longrightarrow>
     request_loop files iter s buf w = ([], w, 0, Threw Bad_Content_Length buf True)"
  by (subst request_loop.simps) (auto simp: ParseHttpRequest_def CRLF_def)

lemma request_loop_next:
  assumes "ParseHttpRequest (max_body_size s) buf = Decoded n (req, ka)"
  shows "request_loop files iter s buf w =
    (case HandleRequest files iter s req w of
       (ops, w1, Some e) \<Rightarrow> (ops, w1, 1, Threw e (drop n buf) ka)
     | (ops, w1, None) \<Rightarrow>
         if \<not> ka then (ops @ [Op_Close], w1, 1, Closed)
         else (case request_loop files iter s (drop n buf) w1 of
                 (ops', w2, k, ending) \<Rightarrow> (ops @ ops', w2, Suc k, ending)))"
proof -
  have "buf \<noteq> []" using ParseHttpRequest_consumed [OF assms] by auto
  with assms show ?thesis by (subst request_loop.simps) simp
qed

definition crashed :: "loop_end \<Rightarrow> nat" where
  "crashed e = (case e of Threw Bad_Function_Call _ _ \<Rightarrow> 1 | _ \<Rightarrow> 0)"

lemma HandleRequest_count:
  "HandleRequest files iter s req w = (ops, w', x) \<Longrightarrow>
     length (filter is_response ops) = (if x = None then 1 else 0)"
  using HandleRequest_response [of files iter s req w ops w'] HandleRequest_throws [of files iter s req w ops w']
  by (cases x) (auto simp: is_response_def)

lemma request_loop_responses:
  "request_loop files iter s buf w = (ops, w', k, e) \<Longrightarrow> length (filter is_response ops) + crashed e = k"
proof (induction "length buf" arbitrary: buf w ops w' k e rule: less_induct)
  case less
  show ?case
  proof (cases "ParseHttpRequest (max_body_size s) buf")
    case (Decoded n x)
    obtain req ka where x: "x = (req, ka)" by (cases x)
    obtain ops1 w1 e1 where h: "HandleRequest files iter s req w = (ops1, w1, e1)"
      by (cases "HandleRequest files iter s req w")
    obtain ops2 w2 k2 e2 where l: "request_loop files iter s (drop n buf) w1 = (ops2, w2, k2, e2)"
      by (cases "request_loop files iter s (drop n buf) w1")
    note nx = request_loop_next [OF Decoded [unfolded x], of files iter w, unfolded h, simplified]
    have "length (drop n buf) < length buf" using ParseHttpRequest_consumed [OF Decoded] by auto
    from less.hyps [OF this l] HandleRequest_count [OF h] less.prems
    show ?thesis
      using HandleRequest_throws [of files iter s req w ops1 w1] h
      by (cases e1; cases ka) (auto simp: nx l crashed_def is_response_def)
  qed (use less.prems in \<open>auto simp: request_loop_wait request_loop_failed crashed_def\<close>)
qed

lemma request_loop_append:
  "request_loop files iter s a w = (ops1, w1, k1, Waiting rest) \<Longrightarrow>
   request_loop files iter s (rest @ b) w1 = (ops2, w2, k2, e) \<Longrightarrow>
     request_loop files iter s (a @ b) w = (ops1 @ ops2, w2, k1 + k2, e)"
proof (induction "length a" arbitrary: a w ops1 k1 rule: less_induct)
  case less
  show ?case
  proof (cases "ParseHttpRequest (max_body_size s) a")
    case (Decoded n x)
    obtain req ka where x: "x = (req, ka)" by (cases x)
    obtain opsh wh eh where h: "HandleRequest files iter s req w = (opsh, wh, eh)"
      by (cases "HandleRequest files iter s req w")
    obtain ops3 w3 k3 e3 where l: "request_loop files iter s (drop n a) wh = (ops3, w3, k3, e3)"
      by (cases "request_loop files iter s (drop n a) wh")
    note nx = request_loop_next [OF Decoded [unfolded x], of files iter w, unfolded h, simplified]
    have n: "length (drop n a) < length a" "n \<le> length a"
      using ParseHttpRequest_consumed [OF Decoded] by auto
    have d: "ParseHttpRequest (max_body_size s) (a @ b) = Decoded n (req, ka)"
      using ParseHttpRequest_stable [of "max_body_size s" a b] Decoded x by simp
    have eh: "eh = None" "ka" using less.prems(1) nx by (auto split: option.splits if_splits)
    then have e3: "e3 = Waiting rest" "w3 = w1" "ops1 = opsh @ ops3" "k1 = Suc k3"
      using less.prems(1) nx l by auto
    from less.hyps [OF n(1)] l e3 less.prems(2)
    have "request_loop files iter s (drop n a @ b) wh = (ops3 @ ops2, w2, k3 + k2, e)" by blast
    then show ?thesis
      using n(2) eh e3 by (simp add: request_loop_next [OF d] h)
  qed (use less.prems in \<open>auto simp: request_loop_wait request_loop_failed\<close>)
qed

subsection \<open>Properties\<close>



text \<open>
  C8: one response for each request. However many requests the buffer holds and however the loop of
  \<^verbatim>\<open>OnData\<close> ends, it has sent as many responses as it has counted requests, one less if the
  call of an empty handler ended it.
\<close>

theorem http_one_response_each:
  assumes "request_loop files iter s buf w = (ops, w', k, ending)"
  shows "length (filter is_response ops) + crashed ending = k"
  using assms by (rule request_loop_responses)

text \<open>
  Pipelining and fragmentation. If the loop has emptied the buffer of all complete requests and more
  bytes arrive, then the responses, the effects on the application and the way it ends are those
  of one run over all the bytes.
\<close>

theorem http_loop_fragments:
  assumes "request_loop files iter s a w = (ops1, w1, k1, Waiting rest)"
    and "request_loop files iter s (rest @ b) w1 = (ops2, w2, k2, ending)"
  shows "request_loop files iter s (a @ b) w = (ops1 @ ops2, w2, k1 + k2, ending)"
  using assms by (rule request_loop_append)

definition empty_protocol :: "nat protocol" where
  "empty_protocol = protocol_new"

definition sample_get :: bytes where
  "sample_get = request_text (str ''GET'') (str ''/x'') (str ''HTTP/1.1'') [(str ''Host'', str ''h'')] []"

lemma sample_get_parse:
  "ParseHttpRequest mx sample_get =
     (let r = finish_request [] (headed (str ''GET'') (str ''/x'') (str ''HTTP/1.1'') [])
      in Decoded (length sample_get) (r, keep_alive r))"
proof -
  have t: "token (str ''GET'')" "token (str ''/x'')" "token (str ''HTTP/1.1'')"
    by (simp_all add: token_def str_simps is_space_def word_le_nat_alt)
  have "\<forall>h \<in> set [(str ''Host'', str ''h'')]. header_ok h"
    by (simp add: header_ok_def str_simps is_blank_def)
  moreover have "content_length (headed (str ''GET'') (str ''/x'') (str ''HTTP/1.1'') []) = Inr 0"
    by (simp add: content_length_def headed_def GetHeader_def)
  ultimately show ?thesis
    using ParseHttpRequest_text [OF t, of "[(str ''Host'', str ''h'')]" 0 mx "[]"]
    by (simp add: sample_get_def)
qed

lemma sample_get_loop:
  "request_loop (\<lambda>_. None) id empty_protocol sample_get w =
     ([Op_SendAsync (resp_ToString id (not_found http_response_new))], w, 1, Waiting [])"
proof -
  let ?r = "finish_request [] (headed (str ''GET'') (str ''/x'') (str ''HTTP/1.1'') [])"
  have "keep_alive ?r"
    by (simp add: keep_alive_def GetHeader_def headed_def)
  moreover have "HandleRequest (\<lambda>_. None) id empty_protocol ?r w =
      ([Op_SendAsync (resp_ToString id (not_found http_response_new))], w, None)"
    by (simp add: HandleRequest_def empty_protocol_def protocol_new_def routes_for_def)
  moreover have "request_loop (\<lambda>_. None) id empty_protocol [] w = ([], w, 0, Waiting [])"
    by (subst request_loop.simps) simp
  ultimately show ?thesis
    using request_loop_next [OF sample_get_parse [unfolded Let_def], of "\<lambda>_. None" id empty_protocol w]
    by simp
qed

theorem http_one_response_each_witness:
  "\<exists>ops. request_loop (\<lambda>_. None) id empty_protocol sample_get 0 = (ops, 0, 1, Waiting []) \<and>
     length (filter is_response ops) + crashed (Waiting []) = 1"
  using sample_get_loop [of 0] http_one_response_each [OF sample_get_loop [of 0]] by blast

theorem http_loop_fragments_witness:
  "\<exists>ops. request_loop (\<lambda>_. None) id empty_protocol (sample_get @ sample_get) 0 = (ops @ ops, 0, 2, Waiting [])"
proof -
  have "request_loop (\<lambda>_. None) id empty_protocol ([] @ sample_get) 0 =
      ([Op_SendAsync (resp_ToString id (not_found http_response_new))], 0, 1, Waiting [])"
    using sample_get_loop [of 0] by simp
  from http_loop_fragments [OF sample_get_loop [of 0] this] show ?thesis
    by (intro exI [of _ "[Op_SendAsync (resp_ToString id (not_found http_response_new))]"])
       (simp add: numeral_2_eq_2)
qed

text \<open>
  Static files are never served. When no route matches a \<^verbatim>\<open>GET\<close> request and a static directory has the
  file, \<^verbatim>\<open>HandleRequest\<close> calls the route handler, which is empty: the exception leaves the loop, and the
  file is not sent.
\<close>

theorem static_file_throws:
  assumes "middlewares s = []" and "req_method req = str ''GET''"
    and "MatchRoute (get_routes s) (req_path req) = None"
    and "static_lookup files (static_configs s) (req_path req) http_response_new = Some r"
  shows "HandleRequest files iter s req w = ([], w, Some Bad_Function_Call)"
  using assms by (simp add: HandleRequest_def routes_for_def)

definition css_protocol :: "nat protocol" where
  "css_protocol = ServeStatic (str ''/css'') (str ''examples/public/css'') protocol_new"

definition css_files :: "bytes \<rightharpoonup> bytes" where
  "css_files = [str ''examples/public/css/style.css'' \<mapsto> str ''body''] "

theorem static_file_throws_witness:
  "HandleRequest css_files id css_protocol
     (http_request_new\<lparr>req_method := str ''GET'', req_path := str ''/css/style.css''\<rparr>) 0 =
   ([], 0, Some Bad_Function_Call)"
proof -
  let ?req = "http_request_new\<lparr>req_method := str ''GET'', req_path := str ''/css/style.css''\<rparr>"
  have "\<exists>r. static_lookup css_files (static_configs css_protocol) (req_path ?req) http_response_new = Some r"
    by (simp add: css_protocol_def ServeStatic_def protocol_new_def HandleStaticFile_def path_join_def
        contains_def starts_with_def str_simps css_files_def)
  moreover have "middlewares css_protocol = []" "get_routes css_protocol = []"
    by (simp_all add: css_protocol_def ServeStatic_def protocol_new_def)
  ultimately show ?thesis
    using static_file_throws [of css_protocol ?req css_files _ id 0] by auto
qed

text \<open>
  The check for \<^verbatim>\<open>..\<close> does not keep a request inside the static directory. A path that continues behind
  the prefix with two slashes names an absolute file: \<^verbatim>\<open>HandleStaticFile\<close> reads the file with that
  absolute name, whatever the root directory is.
\<close>

theorem static_absolute_escape:
  assumes "starts_with (str ''/'') q" and "\<not> contains (str ''/'' @ q) (str ''..'')" and "files q = Some content"
  shows "\<exists>r. HandleStaticFile files prefix root (prefix @ str ''/'' @ q) resp = Some r \<and> resp_body r = content"
  using assms
  by (simp add: HandleStaticFile_def path_join_def SetContentType_def resp_AddHeader_def SetBody_def str_simps)

theorem static_absolute_escape_witness:
  "\<exists>r. HandleStaticFile [str ''/etc/passwd'' \<mapsto> str ''root''] (str ''/static'') (str ''examples/public'')
       (str ''/static//etc/passwd'') http_response_new = Some r \<and> resp_body r = str ''root''"
proof -
  have "starts_with (str ''/'') (str ''/etc/passwd'')"
    and "\<not> contains (str ''/'' @ str ''/etc/passwd'') (str ''..'')"
    by (simp_all add: contains_def starts_with_def str_simps)
  from static_absolute_escape [OF this, of "[str ''/etc/passwd'' \<mapsto> str ''root'']" "str ''root''"
      "str ''/static''" "str ''examples/public''" http_response_new]
  show ?thesis by (simp add: str_simps)
qed

end
