(* ===== verification/Byte_Queue.thy ===== *)
theory Byte_Queue
  imports Prelude
begin

section \<open>Queues of outgoing bytes\<close>

text \<open>
  The server has three structures that hold bytes until a socket takes them: the send queue of a
  connection (\<^verbatim>\<open>ConnectionBufferManager\<close>), the stand-alone \<^verbatim>\<open>SendBufferQueue\<close> and the ring buffer. Each lets
  its client look at a contiguous piece of what comes next and then consume a part of it. The locale
  \<open>byte_queue\<close> states that contract; \<open>flush\<close> is the client, the loop of \<^verbatim>\<open>TCPConnection::Flush\<close>, over
  the answers of the socket: a number of bytes taken, or an error number. When the list of answers is used
  up the socket takes nothing more (\<^verbatim>\<open>EAGAIN\<close>). The result is what went to the socket, the queue, and
  the error \<^verbatim>\<open>Flush\<close> returns.
\<close>

type_synonym errno = int

definition EAGAIN :: errno where
  "EAGAIN = 11"

datatype io_send = Accepted nat | Refused errno

fun flush :: "('q \<Rightarrow> bytes) \<Rightarrow> (nat \<Rightarrow> 'q \<Rightarrow> 'q) \<Rightarrow> io_send list \<Rightarrow> 'q \<Rightarrow> bytes \<times> 'q \<times> errno option" where
  "flush pk consume [] q = (if pk q = [] then ([], q, None) else ([], q, Some EAGAIN))"
| "flush pk consume (r # io) q =
     (if pk q = [] then ([], q, None)
      else case r of
             Refused e \<Rightarrow> ([], q, Some e)
           | Accepted n \<Rightarrow>
               let sent = min n (length (pk q)); q' = consume sent q
               in if sent < length (pk q) then (take sent (pk q), q', None)
                  else (case flush pk consume io q' of (out, q'', e) \<Rightarrow> (take sent (pk q) @ out, q'', e)))"

locale byte_queue =
  fixes inv :: "'q \<Rightarrow> bool"
    and pending :: "'q \<Rightarrow> bytes"
    and pk :: "'q \<Rightarrow> bytes"
    and consume :: "nat \<Rightarrow> 'q \<Rightarrow> 'q"
  assumes peek_prefix: "inv q \<Longrightarrow> take (length (pk q)) (pending q) = pk q"
    and peek_Nil: "inv q \<Longrightarrow> pk q = [] \<longleftrightarrow> pending q = []"
    and consume_inv: "inv q \<Longrightarrow> n \<le> length (pk q) \<Longrightarrow> inv (consume n q)"
    and consume_pending: "inv q \<Longrightarrow> n \<le> length (pk q) \<Longrightarrow> pending (consume n q) = drop n (pending q)"
begin

lemma flush_split:
  "inv q \<Longrightarrow> flush pk consume io q = (out, q', e) \<Longrightarrow> inv q' \<and> out @ pending q' = pending q"
proof (induction io arbitrary: q out q' e)
  case Nil
  then show ?case by (auto split: if_splits)
next
  case (Cons r io)
  show ?case
  proof (cases "pk q = [] \<or> (\<exists>x. r = Refused x)")
    case True
    then show ?thesis using Cons.prems by (auto split: if_splits)
  next
    case False
    then obtain n where r: "r = Accepted n" by (cases r) auto
    let ?n = "min n (length (pk q))"
    have head: "take ?n (pk q) @ pending (consume ?n q) = pending q"
      using peek_prefix [OF Cons.prems(1)] consume_pending [OF Cons.prems(1), of ?n]
      by (metis append_take_drop_id min.cobounded2 min.idem take_take)
    have inv: "inv (consume ?n q)" using consume_inv [OF Cons.prems(1), of ?n] by simp
    show ?thesis
    proof (cases "?n < length (pk q)")
      case True
      then have "n < length (pk q)" by simp
      then show ?thesis using False Cons.prems r head inv by (auto simp: Let_def)
    next
      case full: False
      obtain out2 q2 e2 where f: "flush pk consume io (consume ?n q) = (out2, q2, e2)"
        by (cases "flush pk consume io (consume ?n q)")
      have "inv q2 \<and> out2 @ pending q2 = pending (consume ?n q)" by (rule Cons.IH [OF inv f])
      then show ?thesis
        using False Cons.prems(2) r full f head by (auto simp: Let_def)
    qed
  qed
qed

lemma flush_done:
  "inv q \<Longrightarrow> flush pk consume io q = (out, q', e) \<Longrightarrow>
     (\<forall>r \<in> set io. \<exists>n \<ge> length (pending q). r = Accepted n) \<Longrightarrow> length (pending q) \<le> length io \<Longrightarrow>
     pending q' = [] \<and> out = pending q \<and> e = None"
proof (induction io arbitrary: q out q' e)
  case Nil
  then show ?case using peek_Nil by (auto split: if_splits)
next
  case (Cons r io)
  show ?case
  proof (cases "pk q = []")
    case True
    then show ?thesis using Cons.prems peek_Nil by auto
  next
    case False
    obtain n where r: "r = Accepted n" "length (pending q) \<le> n" using Cons.prems by auto
    have len: "length (pk q) \<le> length (pending q)"
      using peek_prefix [OF Cons.prems(1)] by (metis length_take min.cobounded1)
    let ?q = "consume (length (pk q)) q"
    have q: "inv ?q" "pending ?q = drop (length (pk q)) (pending q)"
      using consume_inv consume_pending Cons.prems(1) by auto
    obtain out2 q2 e2 where f: "flush pk consume io ?q = (out2, q2, e2)"
      by (cases "flush pk consume io ?q")
    have "length (pending ?q) \<le> length io"
      using Cons.prems(4) False unfolding q(2) by (cases "pk q") auto
    then have "pending q2 = [] \<and> out2 = pending ?q \<and> e2 = None"
      using Cons.prems(3) by (intro Cons.IH [OF q(1) f]) (auto simp: q(2))
    moreover have "pk q @ drop (length (pk q)) (pending q) = pending q"
      using peek_prefix [OF Cons.prems(1)] by (metis append_take_drop_id)
    moreover have "min n (length (pk q)) = length (pk q)" using r(2) len by simp
    ultimately show ?thesis
      using Cons.prems(2) False r f q(2) by (auto simp: Let_def)
  qed
qed

end

end
