(* ===== verification/Connection_Buffer.thy ===== *)
theory Connection_Buffer
  imports Byte_Queue
begin

section \<open>Buffers of a connection\<close>

text \<open>
  \<^verbatim>\<open>Buffer\<close> and \<^verbatim>\<open>DefaultBufferOperator\<close> (\<^verbatim>\<open>src/core/Buffer\<close>): a buffer owns a memory block, \<open>mem\<close>, whose length
  is the capacity, of which the first \<open>bsize\<close> bytes are data. \<^verbatim>\<open>ConnectionBufferManager\<close>: a deque of
  cloned buffers with the number of bytes of the first one already sent, and one receive buffer.
  \<^verbatim>\<open>SendBufferQueue\<close> and \<^verbatim>\<open>ReceiveBuffer\<close> of \<^verbatim>\<open>src/core/Connection/Component/buffer_manager.cpp\<close>: the same
  roles with other representations.

  Whether the memory pool grants an allocation is the argument \<open>alloc\<close> (see \<open>Memory_Pool\<close> for
  when it does); fresh memory holds arbitrary bytes, the argument \<open>junk\<close>.
\<close>

subsection \<open>Buffers\<close>

record buf =
  mem :: bytes
  bsize :: nat

definition buf_capacity :: "buf \<Rightarrow> nat" where
  "buf_capacity b = length (mem b)"

definition buf_data :: "buf \<Rightarrow> bytes" where
  "buf_data b = take (bsize b) (mem b)"

definition buf_resize :: "nat \<Rightarrow> buf \<Rightarrow> buf option" where
  "buf_resize n b = (if buf_capacity b < n then None else Some (b\<lparr>bsize := n\<rparr>))"

definition CreateBuffer :: "bool \<Rightarrow> bytes \<Rightarrow> nat \<Rightarrow> buf option" where
  "CreateBuffer alloc junk n =
     (if n = 0 \<or> \<not> alloc then None else Some \<lparr>mem = take n (junk @ replicate n 0), bsize = 0\<rparr>)"

definition CloneBuffer :: "bool \<Rightarrow> bytes \<Rightarrow> bytes \<Rightarrow> buf option" where
  "CloneBuffer alloc junk view =
     (case CreateBuffer alloc junk (length view) of
        None \<Rightarrow> None
      | Some b \<Rightarrow> buf_resize (length view) (b\<lparr>mem := splice (mem b) 0 view\<rparr>))"

definition Append :: "buf \<Rightarrow> bytes \<Rightarrow> buf \<times> bool" where
  "Append dest src =
     (if src = [] then (dest, True)
      else if buf_capacity dest - bsize dest < length src then (dest, False)
      else (dest\<lparr>mem := splice (mem dest) (bsize dest) src, bsize := bsize dest + length src\<rparr>, True))"

definition Prepend :: "buf \<Rightarrow> bytes \<Rightarrow> buf \<times> bool" where
  "Prepend dest src =
     (if src = [] then (dest, True)
      else if buf_capacity dest - bsize dest < length src then (dest, False)
      else (dest\<lparr>mem := splice (splice (mem dest) (length src) (take (bsize dest) (mem dest))) 0 src,
                 bsize := bsize dest + length src\<rparr>, True))"

definition Merge :: "bool \<Rightarrow> bytes \<Rightarrow> bytes list \<Rightarrow> buf option" where
  "Merge alloc junk views =
     (let total_size = sum_list (map length views)
      in case CreateBuffer alloc junk total_size of
           None \<Rightarrow> None
         | Some b \<Rightarrow> buf_resize total_size (b\<lparr>mem := splice (mem b) 0 (concat views)\<rparr>))"

definition Split :: "bool \<Rightarrow> bytes \<Rightarrow> buf \<Rightarrow> nat \<Rightarrow> buf option" where
  "Split alloc junk src pos =
     (if bsize src < pos then None
      else let new_size = bsize src - pos
           in case CreateBuffer alloc junk new_size of
                None \<Rightarrow> None
              | Some b \<Rightarrow> buf_resize new_size (b\<lparr>mem := splice (mem b) 0 (take new_size (drop pos (mem src)))\<rparr>))"

definition Copy :: "buf \<Rightarrow> bytes \<Rightarrow> nat \<Rightarrow> buf \<times> bool" where
  "Copy dest src off =
     (if src = [] then (dest, True)
      else if buf_capacity dest < off + length src then (dest, False)
      else (dest\<lparr>mem := splice (mem dest) off src, bsize := max (bsize dest) (off + length src)\<rparr>, True))"

definition Fill :: "buf \<Rightarrow> byte \<Rightarrow> buf" where
  "Fill dest v = dest\<lparr>mem := replicate (buf_capacity dest) v\<rparr>"

definition Resize :: "bool \<Rightarrow> bytes \<Rightarrow> buf \<Rightarrow> nat \<Rightarrow> buf \<times> bool" where
  "Resize alloc junk b n =
     (if n \<le> buf_capacity b then (b\<lparr>bsize := n\<rparr>, True)
      else case CreateBuffer alloc junk n of
             None \<Rightarrow> (b, False)
           | Some nb \<Rightarrow> (nb\<lparr>mem := splice (mem nb) 0 (buf_data b), bsize := bsize b\<rparr>, True))"

definition buf_ok :: "buf \<Rightarrow> bool" where
  "buf_ok b \<longleftrightarrow> bsize b \<le> buf_capacity b"

lemma length_CreateBuffer: "CreateBuffer alloc junk n = Some b \<Longrightarrow> length (mem b) = n \<and> bsize b = 0 \<and> 0 < n"
  by (auto simp: CreateBuffer_def split: if_splits)

lemma splice_all: "length src = length blk \<Longrightarrow> splice blk 0 src = src"
  by (simp add: splice_def)

lemma CloneBuffer_data: "CloneBuffer alloc junk view = Some b \<Longrightarrow> buf_data b = view \<and> buf_ok b \<and> view \<noteq> []"
  by (auto simp: CloneBuffer_def buf_resize_def buf_capacity_def buf_data_def buf_ok_def splice_all
      split: option.splits if_splits dest!: length_CreateBuffer)

subsection \<open>The buffer manager of a connection\<close>

record conn_buffer =
  send_queue :: "bytes list"
  send_consumed :: nat
  receive_buffer :: "buf option"
  receive_committed :: nat
  max_send_queue_size :: nat
  receive_strategy :: "nat \<Rightarrow> nat"

definition default_receive_strategy :: "nat \<Rightarrow> nat" where
  "default_receive_strategy current = (if current = 0 then 4096 else current * 2)"

definition conn_buffer_new :: conn_buffer where
  "conn_buffer_new =
     \<lparr>send_queue = [], send_consumed = 0, receive_buffer = None, receive_committed = 0,
      max_send_queue_size = 1024 * 1024, receive_strategy = default_receive_strategy\<rparr>"

definition GetSendQueueSize :: "conn_buffer \<Rightarrow> nat" where
  "GetSendQueueSize c =
     (case send_queue c of
        [] \<Rightarrow> 0
      | front # rest \<Rightarrow> (length front - send_consumed c) + sum_list (map length rest))"

definition EnqueueSend :: "bool \<Rightarrow> bytes \<Rightarrow> bytes \<Rightarrow> conn_buffer \<Rightarrow> conn_buffer \<times> bool" where
  "EnqueueSend alloc junk data c =
     (if data = [] then (c, True)
      else if max_send_queue_size c < GetSendQueueSize c + length data then (c, False)
      else case CloneBuffer alloc junk data of
             None \<Rightarrow> (c, False)
           | Some b \<Rightarrow> (c\<lparr>send_queue := send_queue c @ [buf_data b]\<rparr>, True))"

definition PeekSend :: "conn_buffer \<Rightarrow> bytes" where
  "PeekSend c =
     (case send_queue c of
        [] \<Rightarrow> []
      | front # _ \<Rightarrow> if length front \<le> send_consumed c then [] else drop (send_consumed c) front)"

function consume_loop :: "nat \<Rightarrow> bytes list \<Rightarrow> nat \<Rightarrow> bytes list \<times> nat" where
  "consume_loop n [] consumed = ([], consumed)"
| "consume_loop n (front # rest) consumed =
     (if n = 0 then (front # rest, consumed)
      else let remaining = length front - consumed
           in if n < remaining then (front # rest, consumed + n)
              else consume_loop (n - remaining) rest 0)"
  by pat_completeness auto
termination by (relation "measure (\<lambda>(n, q, c). length q)") auto

definition ConsumeSend :: "nat \<Rightarrow> conn_buffer \<Rightarrow> conn_buffer" where
  "ConsumeSend n c =
     (case consume_loop n (send_queue c) (send_consumed c) of
        (q, k) \<Rightarrow> c\<lparr>send_queue := q, send_consumed := k\<rparr>)"

definition IsSendQueueEmpty :: "conn_buffer \<Rightarrow> bool" where
  "IsSendQueueEmpty c \<longleftrightarrow> send_queue c = [] \<and> send_consumed c = 0"

definition PrepareReceive :: "bool \<Rightarrow> bytes \<Rightarrow> nat \<Rightarrow> conn_buffer \<Rightarrow> conn_buffer \<times> bool" where
  "PrepareReceive alloc junk expected c =
     (if expected = 0 then (c, True)
      else case receive_buffer c of
             None \<Rightarrow>
               (case CreateBuffer alloc junk expected of
                  None \<Rightarrow> (c, False)
                | Some b \<Rightarrow> (c\<lparr>receive_buffer := Some b, receive_committed := 0\<rparr>, True))
           | Some b \<Rightarrow>
               if expected \<le> buf_capacity b - receive_committed c then (c, True)
               else let new_capacity = max (receive_strategy c (buf_capacity b)) (receive_committed c + expected)
                    in case CreateBuffer alloc junk new_capacity of
                         None \<Rightarrow> (c, False)
                       | Some nb \<Rightarrow>
                           (c\<lparr>receive_buffer := Some (nb\<lparr>mem := splice (mem nb) 0 (take (receive_committed c) (mem b)),
                                                       bsize := receive_committed c\<rparr>)\<rparr>, True))"

text \<open>The writable view: the offset into the receive buffer and its size.\<close>

definition GetReceiveBuffer :: "bool \<Rightarrow> bytes \<Rightarrow> conn_buffer \<Rightarrow> conn_buffer \<times> (nat \<times> nat) option" where
  "GetReceiveBuffer alloc junk c =
     (case (if receive_buffer c = None then PrepareReceive alloc junk 4096 c else (c, True)) of
        (c', ok) \<Rightarrow>
          (case receive_buffer c' of
             None \<Rightarrow> (c', None)
           | Some b \<Rightarrow> (c', Some (receive_committed c', buf_capacity b - receive_committed c'))))"

definition CommitReceive :: "nat \<Rightarrow> conn_buffer \<Rightarrow> conn_buffer option" where
  "CommitReceive n c =
     (case receive_buffer c of
        None \<Rightarrow> Some c
      | Some b \<Rightarrow>
          if n = 0 then Some c
          else (case buf_resize (receive_committed c + n) b of
                  None \<Rightarrow> None
                | Some b' \<Rightarrow> Some (c\<lparr>receive_committed := receive_committed c + n, receive_buffer := Some b'\<rparr>)))"

definition GetReceiveBufferSize :: "conn_buffer \<Rightarrow> nat" where
  "GetReceiveBufferSize c = receive_committed c"

definition ClearAll :: "conn_buffer \<Rightarrow> conn_buffer" where
  "ClearAll c = c\<lparr>send_queue := [], receive_buffer := None, send_consumed := 0, receive_committed := 0\<rparr>"

definition SetMaxSendQueueSize :: "nat \<Rightarrow> conn_buffer \<Rightarrow> conn_buffer" where
  "SetMaxSendQueueSize n c = c\<lparr>max_send_queue_size := n\<rparr>"

definition SetReceiveBufferStrategy :: "(nat \<Rightarrow> nat) option \<Rightarrow> conn_buffer \<Rightarrow> conn_buffer" where
  "SetReceiveBufferStrategy strategy c =
     c\<lparr>receive_strategy := (case strategy of Some f \<Rightarrow> f | None \<Rightarrow> default_receive_strategy)\<rparr>"

definition Swap :: "conn_buffer \<Rightarrow> conn_buffer \<Rightarrow> conn_buffer \<times> conn_buffer" where
  "Swap a b = (b, a)"

subsection \<open>The stand-alone queue and receive buffer\<close>

record send_buffer_queue =
  chunks :: "(bytes \<times> nat) list"
  total_bytes :: nat

definition sbq_EnqueueSend :: "bytes \<Rightarrow> send_buffer_queue \<Rightarrow> send_buffer_queue" where
  "sbq_EnqueueSend view q =
     (if view = [] then q
      else q\<lparr>chunks := chunks q @ [(view, 0)], total_bytes := total_bytes q + length view\<rparr>)"

definition sbq_PeekSend :: "send_buffer_queue \<Rightarrow> bytes" where
  "sbq_PeekSend q = (case chunks q of [] \<Rightarrow> [] | (d, off) # _ \<Rightarrow> drop off d)"

definition sbq_ConsumeSend :: "nat \<Rightarrow> send_buffer_queue \<Rightarrow> send_buffer_queue" where
  "sbq_ConsumeSend n q =
     (case chunks q of
        [] \<Rightarrow> q
      | (d, off) # rest \<Rightarrow>
          if n = 0 then q
          else let consumed = min n (length d - off)
               in q\<lparr>chunks := (if off + consumed = length d then rest else (d, off + consumed) # rest),
                    total_bytes := total_bytes q - consumed\<rparr>)"

definition sbq_IsSendQueueEmpty :: "send_buffer_queue \<Rightarrow> bool" where
  "sbq_IsSendQueueEmpty q \<longleftrightarrow> chunks q = []"

definition sbq_GetSendQueueSize :: "send_buffer_queue \<Rightarrow> nat" where
  "sbq_GetSendQueueSize q = total_bytes q"

definition sbq_ClearAll :: "send_buffer_queue \<Rightarrow> send_buffer_queue" where
  "sbq_ClearAll q = q\<lparr>chunks := [], total_bytes := 0\<rparr>"

record recv_buffer_comp =
  rbuffer :: bytes
  rread_pos :: nat
  rwrite_pos :: nat

definition rb_GetReceiveBuffer :: "recv_buffer_comp \<Rightarrow> recv_buffer_comp \<times> nat \<times> nat" where
  "rb_GetReceiveBuffer r =
     (let r' = (if rwrite_pos r = length (rbuffer r)
                then r\<lparr>rbuffer := rbuffer r @ replicate (length (rbuffer r)) 0\<rparr> else r)
      in (r', rwrite_pos r', length (rbuffer r') - rwrite_pos r'))"

definition rb_CommitReceive :: "nat \<Rightarrow> recv_buffer_comp \<Rightarrow> recv_buffer_comp" where
  "rb_CommitReceive n r = r\<lparr>rwrite_pos := rwrite_pos r + n\<rparr>"

definition rb_GetReceiveBufferSize :: "recv_buffer_comp \<Rightarrow> nat" where
  "rb_GetReceiveBufferSize r = rwrite_pos r - rread_pos r"

definition rb_ClearAll :: "recv_buffer_comp \<Rightarrow> recv_buffer_comp" where
  "rb_ClearAll r = r\<lparr>rread_pos := 0, rwrite_pos := 0\<rparr>"

subsection \<open>Both queues keep the contract\<close>

definition conn_buffer_inv :: "conn_buffer \<Rightarrow> bool" where
  "conn_buffer_inv c \<longleftrightarrow> [] \<notin> set (send_queue c) \<and>
     (case send_queue c of [] \<Rightarrow> send_consumed c = 0 | front # _ \<Rightarrow> send_consumed c < length front)"

definition send_pending :: "conn_buffer \<Rightarrow> bytes" where
  "send_pending c = drop (send_consumed c) (concat (send_queue c))"

lemma consume_loop_ok:
  "[] \<notin> set q \<Longrightarrow> (case q of [] \<Rightarrow> k = 0 | front # _ \<Rightarrow> k < length front) \<Longrightarrow>
   n \<le> length (concat q) - k \<Longrightarrow> consume_loop n q k = (q', k') \<Longrightarrow>
   [] \<notin> set q' \<and> (case q' of [] \<Rightarrow> k' = 0 | front # _ \<Rightarrow> k' < length front) \<and>
   drop k' (concat q') = drop (k + n) (concat q)"
proof (induction n q k rule: consume_loop.induct)
  case (2 n front rest consumed)
  show ?case
  proof (cases "n < length front - consumed")
    case True
    then show ?thesis using 2(2-5) by (auto simp: Let_def split: if_splits)
  next
    case False
    let ?r = "length front - consumed"
    have n: "n \<noteq> 0" using False 2(3) by auto
    then have l: "consume_loop (n - ?r) rest 0 = (q', k')" using False 2(5) by (simp add: Let_def)
    have "[] \<notin> set rest" using 2(2) by simp
    moreover have "case rest of [] \<Rightarrow> 0 = (0 :: nat) | f # _ \<Rightarrow> 0 < length f"
      using 2(2) by (auto split: list.split)
    moreover have "n - ?r \<le> length (concat rest) - 0" using 2(4) by simp
    ultimately have "[] \<notin> set q' \<and> (case q' of [] \<Rightarrow> k' = 0 | front # _ \<Rightarrow> k' < length front) \<and>
        drop k' (concat q') = drop (0 + (n - ?r)) (concat rest)"
      using 2(1) [OF n refl False _ _ _ l] by blast
    moreover have "consumed + n - length front = n - ?r" using 2(3) by simp
    ultimately show ?thesis using False by auto
  qed
qed auto

lemma PeekSend_eq:
  "conn_buffer_inv c \<Longrightarrow> PeekSend c = (case send_queue c of [] \<Rightarrow> [] | front # _ \<Rightarrow> drop (send_consumed c) front)"
  by (auto simp: PeekSend_def conn_buffer_inv_def split: list.splits)

lemma PeekSend_prefix:
  "conn_buffer_inv c \<Longrightarrow> take (length (PeekSend c)) (send_pending c) = PeekSend c"
  by (auto simp: PeekSend_eq send_pending_def conn_buffer_inv_def split: list.splits)

lemma ConsumeSend_ok:
  assumes inv: "conn_buffer_inv c" and n: "n \<le> length (send_pending c)"
  shows "conn_buffer_inv (ConsumeSend n c) \<and> send_pending (ConsumeSend n c) = drop n (send_pending c)"
proof -
  obtain q k where l: "consume_loop n (send_queue c) (send_consumed c) = (q, k)"
    by (cases "consume_loop n (send_queue c) (send_consumed c)")
  then show ?thesis
    using consume_loop_ok [OF _ _ _ l] inv n
    by (auto simp: ConsumeSend_def conn_buffer_inv_def send_pending_def add.commute split: list.splits)
qed

lemma PeekSend_length: "conn_buffer_inv c \<Longrightarrow> length (PeekSend c) \<le> length (send_pending c)"
  using PeekSend_prefix [of c] by (metis length_take min.cobounded1)

interpretation cb: byte_queue conn_buffer_inv send_pending PeekSend ConsumeSend
proof
  fix q :: conn_buffer and n
  assume inv: "conn_buffer_inv q"
  show "take (length (PeekSend q)) (send_pending q) = PeekSend q"
    by (rule PeekSend_prefix [OF inv])
  show "PeekSend q = [] \<longleftrightarrow> send_pending q = []"
    using inv by (auto simp: PeekSend_eq send_pending_def conn_buffer_inv_def split: list.splits)
  assume "n \<le> length (PeekSend q)"
  then have "n \<le> length (send_pending q)" using PeekSend_length [OF inv] by simp
  from ConsumeSend_ok [OF inv this]
  show "conn_buffer_inv (ConsumeSend n q)" "send_pending (ConsumeSend n q) = drop n (send_pending q)" by auto
qed

definition sbq_inv :: "send_buffer_queue \<Rightarrow> bool" where
  "sbq_inv q \<longleftrightarrow> (\<forall>(d, off) \<in> set (chunks q). off < length d) \<and>
     total_bytes q = sum_list (map (\<lambda>(d, off). length d - off) (chunks q))"

definition sbq_pending :: "send_buffer_queue \<Rightarrow> bytes" where
  "sbq_pending q = concat (map (\<lambda>(d, off). drop off d) (chunks q))"

interpretation sbq: byte_queue sbq_inv sbq_pending sbq_PeekSend sbq_ConsumeSend
  by unfold_locales
     (auto simp: sbq_inv_def sbq_pending_def sbq_PeekSend_def sbq_ConsumeSend_def Let_def add.commute
      split: list.splits)

lemma GetSendQueueSize_pending: "conn_buffer_inv c \<Longrightarrow> GetSendQueueSize c = length (send_pending c)"
  by (auto simp: GetSendQueueSize_def send_pending_def conn_buffer_inv_def length_concat split: list.splits)

lemma EnqueueSend_ok:
  assumes "conn_buffer_inv c" and "EnqueueSend alloc junk data c = (c', ok)"
  shows "conn_buffer_inv c' \<and> send_pending c' = (if ok then send_pending c @ data else send_pending c) \<and>
    (ok \<longleftrightarrow> data = [] \<or> alloc \<and> length (send_pending c) + length data \<le> max_send_queue_size c)"
proof (cases "data = [] \<or> max_send_queue_size c < GetSendQueueSize c + length data")
  case True
  then show ?thesis
    using assms GetSendQueueSize_pending [OF assms(1)] by (auto simp: EnqueueSend_def split: if_splits)
next
  case False
  show ?thesis
  proof (cases "CloneBuffer alloc junk data")
    case None
    then have "\<not> alloc"
      using False by (auto simp: CloneBuffer_def CreateBuffer_def buf_resize_def buf_capacity_def split: if_splits)
    then show ?thesis using None False assms by (simp add: EnqueueSend_def)
  next
    case (Some b)
    then have "alloc" by (auto simp: CloneBuffer_def CreateBuffer_def split: if_splits)
    then show ?thesis
      using Some False assms CloneBuffer_data [OF Some] GetSendQueueSize_pending [OF assms(1)]
      by (auto simp: EnqueueSend_def conn_buffer_inv_def send_pending_def split: list.splits)
  qed
qed

end
