(* ===== verification/Memory_Pool.thy ===== *)
theory Memory_Pool
  imports Prelude
begin

unbundle bit_operations_syntax

section \<open>The memory pool (\<^verbatim>\<open>src/core/Buffer/memory_pool.cpp\<close>)\<close>

text \<open>
  \<^verbatim>\<open>DefaultMemoryPool\<close>. Sizes and addresses are 64-bit words, so every sum and difference wraps as
  \<^verbatim>\<open>size_t\<close> does. What \<^verbatim>\<open>::operator new\<close> returns is an argument (\<open>raw\<close>, one address per
  call); a block remembers the address of its header, and \<open>ClearPool\<close> and \<open>SetPreAllocation\<close> return, beside the
  new state, the addresses they pass to \<^verbatim>\<open>::operator delete\<close>. \<^verbatim>\<open>sizeof(BlockHeader)\<close> is 24 and
  \<^verbatim>\<open>alignof(std::max_align_t)\<close> 16 on the 64-bit platforms the build supports.
\<close>

record block =
  hdr :: u64
  blk_size :: u64
  in_use :: bool

record pool =
  max_pool_size :: u64
  pre_allocated :: bool
  free_list :: "block list"
  allocations :: "u64 \<rightharpoonup> block"
  total_pool_bytes :: u64
  total_allocated_bytes :: u64
  used_bytes :: u64
  allocation_count :: u64
  deallocation_count :: u64

definition sizeof_BlockHeader :: u64 where
  "sizeof_BlockHeader = 24"

definition max_align :: u64 where
  "max_align = 16"

definition pool_new :: pool where
  "pool_new =
     \<lparr>max_pool_size = 1024 * 1024 * 100, pre_allocated = False, free_list = [], allocations = Map.empty,
      total_pool_bytes = 0, total_allocated_bytes = 0, used_bytes = 0, allocation_count = 0,
      deallocation_count = 0\<rparr>"

definition SetMaxPoolSize :: "u64 \<Rightarrow> pool \<Rightarrow> pool" where
  "SetMaxPoolSize n p = p\<lparr>max_pool_size := n\<rparr>"

definition pre_allocate_block :: "u64 \<times> u64 \<Rightarrow> pool \<Rightarrow> pool" where
  "pre_allocate_block a p =
     (case a of
        (raw, n) \<Rightarrow>
          p\<lparr>free_list := \<lparr>hdr = raw, blk_size = n, in_use = False\<rparr> # free_list p,
            total_pool_bytes := total_pool_bytes p + (n + sizeof_BlockHeader)\<rparr>)"

definition SetPreAllocation :: "(nat \<Rightarrow> u64) \<Rightarrow> bool \<Rightarrow> pool \<Rightarrow> pool \<times> u64 list" where
  "SetPreAllocation raws enable p =
     (if enable \<and> \<not> pre_allocated p
      then ((fold pre_allocate_block
               (zip (map raws [0..<30]) (replicate 10 64 @ replicate 10 256 @ replicate 10 1024)) p)
              \<lparr>pre_allocated := True\<rparr>, [])
      else if \<not> enable \<and> pre_allocated p
      then (p\<lparr>free_list := [], total_pool_bytes := 0, pre_allocated := False\<rparr>, map hdr (free_list p))
      else (p, []))"

definition ClearPool :: "pool \<Rightarrow> pool \<times> u64 list" where
  "ClearPool p =
     (p\<lparr>free_list := [], total_pool_bytes := 0, total_allocated_bytes := 0, used_bytes := 0,
        allocation_count := 0, deallocation_count := 0\<rparr>, map hdr (free_list p))"

definition align_up :: "u64 \<Rightarrow> u64 \<Rightarrow> u64" where
  "align_up alignment addr = (addr + sizeof_BlockHeader + alignment - 1) AND NOT (alignment - 1)"

definition AllocateBytesAligned :: "u64 \<Rightarrow> u64 \<Rightarrow> u64 \<Rightarrow> pool \<Rightarrow> pool \<times> u64 option" where
  "AllocateBytesAligned raw n alignment p =
     (if n = 0 then (p, None)
      else let total_needed = n + alignment + sizeof_BlockHeader
           in if max_pool_size p < total_pool_bytes p + total_needed \<and> 0 < max_pool_size p then (p, None)
              else let aligned = align_up alignment raw;
                       header = \<lparr>hdr = aligned - sizeof_BlockHeader, blk_size = n, in_use = True\<rparr>
                   in (p\<lparr>allocations := (allocations p)(aligned \<mapsto> header),
                         total_pool_bytes := total_pool_bytes p + total_needed,
                         total_allocated_bytes := total_allocated_bytes p + n, used_bytes := used_bytes p + n,
                         allocation_count := allocation_count p + 1\<rparr>, Some aligned))"

definition AllocateBytes :: "u64 \<Rightarrow> u64 \<Rightarrow> pool \<Rightarrow> pool \<times> u64 option" where
  "AllocateBytes raw n p = AllocateBytesAligned raw n max_align p"

definition DeallocateBytes :: "u64 \<Rightarrow> pool \<Rightarrow> pool" where
  "DeallocateBytes ptr p =
     (if ptr = 0 then p
      else case allocations p ptr of
             None \<Rightarrow> p
           | Some header \<Rightarrow>
               p\<lparr>used_bytes := used_bytes p - blk_size header, deallocation_count := deallocation_count p + 1,
                 free_list := header\<lparr>in_use := False\<rparr> # free_list p,
                 allocations := (allocations p)(ptr := None)\<rparr>)"

text \<open>\<^verbatim>\<open>GetStats\<close>: allocated, used and pool bytes, and the two counts.\<close>

definition pool_GetStats :: "pool \<Rightarrow> u64 \<times> u64 \<times> u64 \<times> u64 \<times> u64" where
  "pool_GetStats p = (total_allocated_bytes p, used_bytes p, total_pool_bytes p, allocation_count p, deallocation_count p)"

definition GetPoolSize :: "pool \<Rightarrow> u64" where
  "GetPoolSize p = total_pool_bytes p"

definition GetTotalAllocated :: "pool \<Rightarrow> u64" where
  "GetTotalAllocated p = total_allocated_bytes p"

subsection \<open>What a request costs\<close>

definition within_budget :: "pool \<Rightarrow> bool" where
  "within_budget p \<longleftrightarrow> max_pool_size p = 104857600 \<and> unat (total_pool_bytes p) \<le> 104857600"

lemma pool_new_budget: "within_budget pool_new"
  by (simp add: within_budget_def pool_new_def)

lemma unat_cost:
  assumes "n < 2 ^ 62" and "unat a \<le> 104857600"
  shows "unat (a + (of_nat n + 40 :: u64)) = unat a + (n + 40)"
proof -
  have "unat (of_nat n :: u64) = n" using assms(1) by (simp add: unat_of_nat take_bit_nat_eq_self)
  then have 1: "unat (of_nat n + 40 :: u64) = n + 40"
    using assms(1) by (subst unat_add_lem [THEN iffD1]) simp_all
  show ?thesis
    unfolding 1 [symmetric] by (rule unat_add_lem [THEN iffD1]) (use 1 assms in simp)
qed

lemma of_nat_pos: "0 < n \<Longrightarrow> n < 2 ^ 62 \<Longrightarrow> (of_nat n :: u64) \<noteq> 0"
  by (simp add: word_of_nat_eq_0_iff) (auto dest: dvd_imp_le)

lemma AllocateBytes_granted:
  assumes "within_budget p" and "0 < n" and "n < 2 ^ 62"
  shows "AllocateBytes raw (of_nat n) p =
    (if unat (total_pool_bytes p) + (n + 40) \<le> 104857600
     then (let aligned = align_up max_align raw
           in (p\<lparr>allocations := (allocations p)(aligned \<mapsto>
                    \<lparr>hdr = aligned - 24, blk_size = of_nat n, in_use = True\<rparr>),
                 total_pool_bytes := total_pool_bytes p + (of_nat n + 40),
                 total_allocated_bytes := total_allocated_bytes p + of_nat n, used_bytes := used_bytes p + of_nat n,
                 allocation_count := allocation_count p + 1\<rparr>, Some aligned))
     else (p, None))"
proof -
  have "(of_nat n :: u64) \<noteq> 0" by (rule of_nat_pos [OF assms(2,3)])
  moreover have "unat (total_pool_bytes p + (of_nat n + 40)) = unat (total_pool_bytes p) + (n + 40)"
    using unat_cost [OF assms(3)] assms(1) by (simp add: within_budget_def)
  then have "104857600 < total_pool_bytes p + (of_nat n + 40) \<longleftrightarrow>
      \<not> unat (total_pool_bytes p) + (n + 40) \<le> 104857600"
    by (simp add: word_less_nat_alt not_le)
  ultimately show ?thesis
    using assms(1)
    by (simp add: AllocateBytes_def AllocateBytesAligned_def within_budget_def sizeof_BlockHeader_def max_align_def
        Let_def add.assoc)
qed

lemma AllocateBytes_budget:
  assumes "within_budget p" and "0 < n" and "n < 2 ^ 62" and "AllocateBytes raw (of_nat n) p = (p', r)"
  shows "within_budget p' \<and> (r \<noteq> None \<longleftrightarrow> unat (total_pool_bytes p) + (n + 40) \<le> 104857600) \<and>
    unat (total_pool_bytes p') = unat (total_pool_bytes p) + (if r = None then 0 else n + 40)"
  using assms(4) unat_cost [OF assms(3), of "total_pool_bytes p"] assms(1)
  unfolding AllocateBytes_granted [OF assms(1-3)]
  by (auto simp: Let_def within_budget_def split: if_splits)

lemma DeallocateBytes_budget:
  "within_budget (DeallocateBytes ptr p) = within_budget p"
  "total_pool_bytes (DeallocateBytes ptr p) = total_pool_bytes p"
  by (simp_all add: DeallocateBytes_def within_budget_def split: option.split)

lemma and_not_mask: "a AND NOT (mask n) = a - take_bit n a" for a :: "'a::len word"
proof -
  have "a AND NOT (mask n) = push_bit n (drop_bit n a)"
    by (rule bit_word_eqI) (auto simp: bit_simps)
  also have "\<dots> = a - take_bit n a" using bits_ident [of n a] by (simp add: eq_diff_eq)
  finally show ?thesis .
qed

lemma align_up_16:
  assumes "raw mod 16 = 0"
  shows "align_up max_align raw = raw + 32"
proof -
  have t: "take_bit 4 raw = 0" using assms by (simp add: take_bit_eq_mod)
  have u: "take_bit 4 (uint raw) = 0" using arg_cong [OF t, of uint] by (simp add: unsigned_take_bit_eq)
  have "uint (take_bit 4 (raw + 39)) = take_bit 4 (uint raw + 39)"
    by (simp add: unsigned_take_bit_eq uint_word_arith_bintrs)
  also have "\<dots> = take_bit 4 (take_bit 4 (uint raw) + take_bit 4 39)" by (simp only: take_bit_add)
  also have "\<dots> = uint (7 :: u64)" unfolding u by simp
  finally have "take_bit 4 (raw + 39) = 7" by (rule word_uint_eqI)
  then have "(raw + 39) AND NOT (mask 4) = raw + 32" unfolding and_not_mask by simp
  then show ?thesis by (simp add: align_up_def max_align_def sizeof_BlockHeader_def mask_eq_exp_minus_1
        add.commute [of 39 raw])
qed

subsection \<open>Sequences of requests\<close>

datatype pool_call = Allocate u64 nat | Deallocate u64

text \<open>The answers to the requests, in order, and the pool at the end.\<close>

fun pool_calls :: "pool_call list \<Rightarrow> pool \<Rightarrow> bool list \<times> pool" where
  "pool_calls [] p = ([], p)"
| "pool_calls (Allocate raw n # cs) p =
     (case AllocateBytes raw (of_nat n) p of
        (p', r) \<Rightarrow> (case pool_calls cs p' of (gs, q) \<Rightarrow> ((r \<noteq> None) # gs, q)))"
| "pool_calls (Deallocate ptr # cs) p = pool_calls cs (DeallocateBytes ptr p)"

text \<open>What the requests would get from a plain budget that nothing ever returns to.\<close>

fun spend :: "nat \<Rightarrow> nat list \<Rightarrow> bool list" where
  "spend left [] = []"
| "spend left (n # ns) = (if n + 40 \<le> left then True # spend (left - (n + 40)) ns else False # spend left ns)"

fun requests :: "pool_call list \<Rightarrow> nat list" where
  "requests [] = []"
| "requests (Allocate raw n # cs) = n # requests cs"
| "requests (Deallocate ptr # cs) = requests cs"

lemma pool_calls_spend:
  "within_budget p \<Longrightarrow> \<forall>n \<in> set (requests cs). 0 < n \<and> n < 2 ^ 62 \<Longrightarrow>
   fst (pool_calls cs p) = spend (104857600 - unat (total_pool_bytes p)) (requests cs)"
proof (induction cs p rule: pool_calls.induct)
  case (2 raw n cs p)
  obtain p' r where a: "AllocateBytes raw (of_nat n) p = (p', r)" by (cases "AllocateBytes raw (of_nat n) p")
  have n: "0 < n" "n < 2 ^ 62" using 2(3) by simp_all
  note b = AllocateBytes_budget [OF 2(2) n a]
  have "fst (pool_calls cs p') = spend (104857600 - unat (total_pool_bytes p')) (requests cs)"
    using 2(1) [OF a [symmetric]] b 2(3) by simp
  moreover have "n + 40 \<le> 104857600 - unat (total_pool_bytes p) \<longleftrightarrow>
      unat (total_pool_bytes p) + (n + 40) \<le> 104857600"
    using 2(2) by (auto simp: within_budget_def)
  ultimately show ?case using a b by (auto simp: split_beta)
next
  case (3 ptr cs p)
  then show ?case by (simp add: DeallocateBytes_budget)
qed simp

subsection \<open>Properties\<close>

text \<open>
  Memory given back to the pool is never available again. For every sequence of
  requests and releases on a fresh pool, the requests are answered exactly as by a budget of 100 MB from which each
  granted request takes its size and 40 bytes for good: the releases make no difference.
\<close>

theorem pool_never_recovers:
  assumes "\<forall>n \<in> set (requests cs). 0 < n \<and> n < 2 ^ 62"
  shows "fst (pool_calls cs pool_new) = spend 104857600 (requests cs)"
  using pool_calls_spend [OF pool_new_budget assms] by (simp add: pool_new_def)

theorem pool_never_recovers_witness:
  "fst (pool_calls [Allocate 4096 100000000, Deallocate 4128, Allocate 8192 100000000] pool_new) = [True, False]"
  using pool_never_recovers [of "[Allocate 4096 100000000, Deallocate 4128, Allocate 8192 100000000]"] by simp

text \<open>
  C35: \<^verbatim>\<open>ClearPool\<close> hands \<^verbatim>\<open>::operator delete\<close> an address that \<^verbatim>\<open>::operator new\<close> never returned. The header of
  an allocated block lies 8 bytes into the block (24 bytes before the next multiple of 16), and it is
  the header's address that is deleted. Releasing a block after the pool was cleared makes the number of
  used bytes wrap below zero.
\<close>

theorem pool_clear_invalid:
  assumes "raw mod 16 = 0" and "raw + 32 \<noteq> 0" and "0 < n" and "n \<le> 104857560"
  shows "\<exists>p. AllocateBytes raw (of_nat n) pool_new = (p, Some (raw + 32)) \<and>
    snd (ClearPool (DeallocateBytes (raw + 32) p)) = [raw + 8] \<and>
    used_bytes (DeallocateBytes (raw + 32) (fst (ClearPool p))) = - of_nat n"
  using AllocateBytes_granted [OF pool_new_budget assms(3), of raw] assms(2,4) align_up_16 [OF assms(1)]
  by (simp add: Let_def pool_new_def ClearPool_def DeallocateBytes_def)

theorem pool_clear_invalid_witness:
  "\<exists>p. AllocateBytes 4096 100 pool_new = (p, Some 4128) \<and> snd (ClearPool (DeallocateBytes 4128 p)) = [4104] \<and>
     used_bytes (DeallocateBytes 4128 (fst (ClearPool p))) = - 100"
  using pool_clear_invalid [of 4096 100] by simp

end
