(* ===== verification/Tcp_Connection.thy ===== *)
theory Tcp_Connection
  imports Connection_Buffer
begin

section \<open>TCP connections (\<^verbatim>\<open>src/core/Tcp/tcp_connection.cpp\<close>)\<close>

text \<open>
  One record field per data member that an operation changes; \<open>wire\<close> is the sequence of bytes the socket
  has taken and \<open>events\<close> the sequence of events triggered, both only ever extended. What the operating system answers
  is an argument: the answers to \<^verbatim>\<open>send\<close> (see \<open>Byte_Queue\<close>), one answer to \<^verbatim>\<open>recv\<close>, to the creation of a socket
  and to \<^verbatim>\<open>connect\<close>. \<open>alloc\<close> and \<open>junk\<close> are those of \<open>Connection_Buffer\<close>. Error codes are numbers. The
  operations run under \<^verbatim>\<open>state_mutex_\<close>, so a sequence of them is an interleaving of the threads.
\<close>

datatype connection_state =
  ST_DISCONNECTED | ST_CONNECTING | ST_CONNECTED | ST_DISCONNECTING | ST_CLOSING | ST_ERROR

datatype connection_event =
  EV_CONNECTED | EV_DISCONNECTED | EV_DATA_SENT | EV_DATA_RECEIVED | EV_ERROR_OCCURRED | EV_CLOSED

record tcp =
  socket_fd :: int
  conn_state :: connection_state
  tbuf :: conn_buffer
  bytes_sent :: nat
  bytes_received :: nat
  connect_time :: nat
  last_activity_time :: nat
  last_heartbeat_time :: nat
  connection_id :: nat
  send_buffer_size :: nat
  user_data :: "bytes \<rightharpoonup> bytes"
  wire :: bytes
  events :: "connection_event list"

definition ENOTCONN :: errno where "ENOTCONN = 107"

definition ALREADY_CONNECTED :: errno where "ALREADY_CONNECTED = 8"

definition tcp_new :: "nat \<Rightarrow> tcp" where
  "tcp_new now =
     \<lparr>socket_fd = - 1, conn_state = ST_DISCONNECTED, tbuf = conn_buffer_new, bytes_sent = 0, bytes_received = 0,
      connect_time = now, last_activity_time = now, last_heartbeat_time = now, connection_id = 0,
      send_buffer_size = 8192, user_data = Map.empty, wire = [], events = []\<rparr>"

definition tcp_accepted :: "int \<Rightarrow> nat \<Rightarrow> tcp" where
  "tcp_accepted existing_fd now = (tcp_new now)\<lparr>socket_fd := existing_fd, conn_state := ST_CONNECTED\<rparr>"

definition TriggerEvent :: "connection_event \<Rightarrow> tcp \<Rightarrow> tcp" where
  "TriggerEvent e t = t\<lparr>events := events t @ [e]\<rparr>"

definition tcp_Connect :: "errno + int \<Rightarrow> errno option \<Rightarrow> nat \<Rightarrow> tcp \<Rightarrow> tcp \<times> errno option" where
  "tcp_Connect created connected now t =
     (if conn_state t \<noteq> ST_DISCONNECTED then (t, Some ALREADY_CONNECTED)
      else case created of
             Inl e \<Rightarrow> (t\<lparr>conn_state := ST_ERROR\<rparr>, Some e)
           | Inr fd \<Rightarrow>
               (case connected of
                  Some e \<Rightarrow> (t\<lparr>socket_fd := - 1, conn_state := ST_ERROR\<rparr>, Some e)
                | None \<Rightarrow>
                    (TriggerEvent EV_CONNECTED
                       (t\<lparr>socket_fd := fd, conn_state := ST_CONNECTED, connect_time := now,
                          last_activity_time := now\<rparr>), None)))"

definition tcp_Disconnect :: "tcp \<Rightarrow> tcp" where
  "tcp_Disconnect t =
     (if conn_state t \<noteq> ST_CONNECTED then t
      else (TriggerEvent EV_DISCONNECTED (t\<lparr>conn_state := ST_DISCONNECTING\<rparr>))\<lparr>conn_state := ST_DISCONNECTED\<rparr>)"

definition tcp_Close :: "tcp \<Rightarrow> tcp" where
  "tcp_Close t =
     (if 0 \<le> socket_fd t
      then TriggerEvent EV_CLOSED (t\<lparr>socket_fd := - 1, conn_state := ST_CLOSING\<rparr>) else t)"

definition Flush :: "io_send list \<Rightarrow> nat \<Rightarrow> tcp \<Rightarrow> tcp \<times> errno option" where
  "Flush io now t =
     (case flush PeekSend ConsumeSend io (tbuf t) of
        (out, b, e) \<Rightarrow>
          (t\<lparr>tbuf := b, wire := wire t @ out, bytes_sent := bytes_sent t + length out,
             last_activity_time := (if out = [] then last_activity_time t else now)\<rparr>, e))"

definition Send :: "bool \<Rightarrow> bytes \<Rightarrow> io_send list \<Rightarrow> nat \<Rightarrow> bytes \<Rightarrow> tcp \<Rightarrow> tcp \<times> (errno + nat)" where
  "Send alloc junk io now data t =
     (if conn_state t \<noteq> ST_CONNECTED then (t, Inl ENOTCONN)
      else let b = fst (EnqueueSend alloc junk data (tbuf t))
           in case Flush io now (t\<lparr>tbuf := b\<rparr>) of
                (t', None) \<Rightarrow> (t', Inr (length data))
              | (t', Some e) \<Rightarrow> (t', Inl e))"

datatype recv_result = Received bytes | Recv_Error errno

text \<open>
  \<^verbatim>\<open>Receive\<close>: \<^verbatim>\<open>recv\<close> writes at the offset of the view; the answer is cut to the size of the view. The result
  is copied from the view taken again after the commit. \<open>None\<close> marks a copy that would run past the end of
  the memory block, or the exception of \<^verbatim>\<open>resize\<close>.
\<close>

definition store_received :: "nat \<Rightarrow> bytes \<Rightarrow> conn_buffer \<Rightarrow> conn_buffer" where
  "store_received off data c =
     (case receive_buffer c of
        None \<Rightarrow> c
      | Some b \<Rightarrow> c\<lparr>receive_buffer := Some (b\<lparr>mem := splice (mem b) off data\<rparr>)\<rparr>)"

definition fill_receive ::
  "bool \<Rightarrow> bytes \<Rightarrow> recv_result \<Rightarrow> nat \<Rightarrow> nat \<Rightarrow> tcp \<Rightarrow> (tcp \<times> errno option) option" where
  "fill_receive alloc junk answer now max_len t =
     (case GetReceiveBuffer alloc junk (tbuf t) of
        (b1, v1) \<Rightarrow>
          (case (if v1 = None \<or> snd (the v1) = 0
                 then GetReceiveBuffer alloc junk (fst (PrepareReceive alloc junk max_len b1)) else (b1, v1)) of
             (b2, v2) \<Rightarrow>
               (case answer of
                  Recv_Error e \<Rightarrow> Some (t\<lparr>tbuf := b2\<rparr>, Some e)
                | Received data \<Rightarrow>
                    (case v2 of
                       None \<Rightarrow> Some (t\<lparr>tbuf := b2\<rparr>, None)
                     | Some (off, room) \<Rightarrow>
                         let d = take room data
                         in if d = [] then Some (t\<lparr>tbuf := b2\<rparr>, None)
                            else (case CommitReceive (length d) (store_received off d b2) of
                                    None \<Rightarrow> None
                                  | Some b3 \<Rightarrow>
                                      Some (t\<lparr>tbuf := b3, bytes_received := bytes_received t + length d,
                                              last_activity_time := now\<rparr>, None))))))"

definition read_receive :: "bool \<Rightarrow> bytes \<Rightarrow> nat \<Rightarrow> tcp \<Rightarrow> (tcp \<times> bytes) option" where
  "read_receive alloc junk max_len t =
     (let to_read = min max_len (GetReceiveBufferSize (tbuf t))
      in case GetReceiveBuffer alloc junk (tbuf t) of
           (b, None) \<Rightarrow> Some (t\<lparr>tbuf := b\<rparr>, replicate to_read 0)
         | (b, Some (off, room)) \<Rightarrow>
             (case receive_buffer b of
                None \<Rightarrow> Some (t\<lparr>tbuf := b\<rparr>, replicate to_read 0)
              | Some m \<Rightarrow>
                  if room < to_read then None
                  else Some (t\<lparr>tbuf := ClearAll b\<rparr>, take to_read (drop off (mem m)))))"

definition Receive ::
  "bool \<Rightarrow> bytes \<Rightarrow> recv_result \<Rightarrow> nat \<Rightarrow> nat \<Rightarrow> tcp \<Rightarrow> (tcp \<times> (errno + bytes)) option" where
  "Receive alloc junk answer now max_len t =
     (if max_len = 0 then Some (t, Inr [])
      else case (if GetReceiveBufferSize (tbuf t) = 0 then fill_receive alloc junk answer now max_len t
                 else Some (t, None)) of
             None \<Rightarrow> None
           | Some (t1, Some e) \<Rightarrow> Some (t1, Inl e)
           | Some (t1, None) \<Rightarrow> map_option (\<lambda>(t2, s). (t2, Inr s)) (read_receive alloc junk max_len t1))"

definition ClearBuffers :: "tcp \<Rightarrow> tcp" where
  "ClearBuffers t = t\<lparr>tbuf := ClearAll (tbuf t)\<rparr>"

definition GetPendingSendBytes :: "tcp \<Rightarrow> nat" where
  "GetPendingSendBytes t = GetSendQueueSize (tbuf t)"

definition GetPendingReceiveBytes :: "tcp \<Rightarrow> nat" where
  "GetPendingReceiveBytes t = GetReceiveBufferSize (tbuf t)"

definition Configure :: "nat \<Rightarrow> tcp \<Rightarrow> tcp" where
  "Configure size_limit t =
     t\<lparr>send_buffer_size := size_limit, tbuf := SetMaxSendQueueSize size_limit (tbuf t)\<rparr>"

definition IsConnected :: "tcp \<Rightarrow> bool" where
  "IsConnected t \<longleftrightarrow> conn_state t = ST_CONNECTED"

definition IsReadable :: "tcp \<Rightarrow> bool" where
  "IsReadable t \<longleftrightarrow> 0 < GetReceiveBufferSize (tbuf t)"

definition IsWritable :: "tcp \<Rightarrow> bool" where
  "IsWritable t \<longleftrightarrow> GetSendQueueSize (tbuf t) < send_buffer_size t"

definition HasError :: "tcp \<Rightarrow> bool" where
  "HasError t \<longleftrightarrow> conn_state t = ST_ERROR"

definition SetConnectionId :: "nat \<Rightarrow> tcp \<Rightarrow> tcp" where
  "SetConnectionId i t = t\<lparr>connection_id := i\<rparr>"

definition SetUserData :: "bytes \<Rightarrow> bytes \<Rightarrow> tcp \<Rightarrow> tcp" where
  "SetUserData k v t = t\<lparr>user_data := (user_data t)(k \<mapsto> v)\<rparr>"

definition RemoveUserData :: "bytes \<Rightarrow> tcp \<Rightarrow> tcp" where
  "RemoveUserData k t = t\<lparr>user_data := (user_data t)(k := None)\<rparr>"

definition UpdateHeartbeat :: "nat \<Rightarrow> tcp \<Rightarrow> tcp" where
  "UpdateHeartbeat now t = t\<lparr>last_heartbeat_time := now\<rparr>"

definition IsHeartbeatExpired :: "nat \<Rightarrow> nat \<Rightarrow> tcp \<Rightarrow> bool" where
  "IsHeartbeatExpired now timeout t \<longleftrightarrow> timeout < now - last_heartbeat_time t"

text \<open>The read thread of \<^verbatim>\<open>init\<close>: the data it hands on, and whether it has ended with the event.\<close>

datatype read_result = Read_Data bytes | Read_End | Read_Again | Read_Failed

fun read_thread :: "(read_result \<times> bool) list \<Rightarrow> bytes list \<times> bool" where
  "read_thread [] = ([], False)"
| "read_thread ((r, still_connected) # rs) =
     (if \<not> still_connected then ([], True)
      else case r of
             Read_Data d \<Rightarrow> (case read_thread rs of (ds, ended) \<Rightarrow> (d # ds, ended))
           | Read_Again \<Rightarrow> read_thread rs
           | Read_End \<Rightarrow> ([], True)
           | Read_Failed \<Rightarrow> ([], True))"

subsection \<open>The bytes of a connection\<close>

definition outgoing :: "tcp \<Rightarrow> bytes" where
  "outgoing t = wire t @ send_pending (tbuf t)"

definition tcp_inv :: "tcp \<Rightarrow> bool" where
  "tcp_inv t \<longleftrightarrow> conn_buffer_inv (tbuf t) \<and> bytes_sent t = length (wire t)"

lemma Flush_outgoing:
  assumes "tcp_inv t" and "Flush io now t = (t', e)"
  shows "tcp_inv t' \<and> outgoing t' = outgoing t \<and> conn_state t' = conn_state t"
proof -
  obtain out b x where f: "flush PeekSend ConsumeSend io (tbuf t) = (out, b, x)"
    by (cases "flush PeekSend ConsumeSend io (tbuf t)")
  have "conn_buffer_inv (tbuf t)" using assms(1) by (simp add: tcp_inv_def)
  from cb.flush_split [OF this f] assms f show ?thesis by (auto simp: Flush_def tcp_inv_def outgoing_def)
qed

definition accepts :: "bool \<Rightarrow> bytes \<Rightarrow> tcp \<Rightarrow> bool" where
  "accepts alloc data t \<longleftrightarrow> conn_state t = ST_CONNECTED \<and>
     (data = [] \<or> alloc \<and> length (send_pending (tbuf t)) + length data \<le> max_send_queue_size (tbuf t))"

lemma Send_outgoing:
  assumes inv: "tcp_inv t" and send: "Send alloc junk io now data t = (t', r)"
  shows "tcp_inv t' \<and> outgoing t' = outgoing t @ (if accepts alloc data t then data else [])"
proof (cases "conn_state t = ST_CONNECTED")
  case False
  with assms show ?thesis by (simp add: Send_def accepts_def)
next
  case True
  obtain b ok where e: "EnqueueSend alloc junk data (tbuf t) = (b, ok)"
    by (cases "EnqueueSend alloc junk data (tbuf t)")
  have b: "conn_buffer_inv b" "send_pending b = send_pending (tbuf t) @ (if accepts alloc data t then data else [])"
    using EnqueueSend_ok [OF _ e] inv True by (auto simp: tcp_inv_def accepts_def)
  obtain t1 x where f: "Flush io now (t\<lparr>tbuf := b\<rparr>) = (t1, x)" by (cases "Flush io now (t\<lparr>tbuf := b\<rparr>)")
  have "tcp_inv (t\<lparr>tbuf := b\<rparr>)" using inv b(1) by (simp add: tcp_inv_def)
  from Flush_outgoing [OF this f] b(2) True send e f show ?thesis
    by (cases x) (auto simp: Send_def outgoing_def)
qed

text \<open>Calls made on a connection by its threads, in the order of the lock.\<close>

datatype tcp_call = Call_Send bool bytes "io_send list" nat bytes | Call_Flush "io_send list" nat | Call_Close

fun tcp_calls :: "tcp_call list \<Rightarrow> tcp \<Rightarrow> tcp" where
  "tcp_calls [] t = t"
| "tcp_calls (Call_Send alloc junk io now data # cs) t = tcp_calls cs (fst (Send alloc junk io now data t))"
| "tcp_calls (Call_Flush io now # cs) t = tcp_calls cs (fst (Flush io now t))"
| "tcp_calls (Call_Close # cs) t = tcp_calls cs (tcp_Close t)"

fun accepted :: "tcp_call list \<Rightarrow> tcp \<Rightarrow> bytes" where
  "accepted [] t = []"
| "accepted (Call_Send alloc junk io now data # cs) t =
     (if accepts alloc data t then data else []) @ accepted cs (fst (Send alloc junk io now data t))"
| "accepted (Call_Flush io now # cs) t = accepted cs (fst (Flush io now t))"
| "accepted (Call_Close # cs) t = accepted cs (tcp_Close t)"

lemma Close_outgoing: "tcp_inv t \<Longrightarrow> tcp_inv (tcp_Close t) \<and> outgoing (tcp_Close t) = outgoing t"
  by (simp add: tcp_Close_def TriggerEvent_def tcp_inv_def outgoing_def)

lemma tcp_calls_outgoing:
  "tcp_inv t \<Longrightarrow> tcp_inv (tcp_calls cs t) \<and> outgoing (tcp_calls cs t) = outgoing t @ accepted cs t"
proof (induction cs t rule: tcp_calls.induct)
  case (2 alloc junk io now data cs t)
  then show ?case
    using Send_outgoing [of t alloc junk io now data] by (cases "Send alloc junk io now data t") auto
next
  case (3 io now cs t)
  then show ?case using Flush_outgoing [of t io now] by (cases "Flush io now t") auto
next
  case (4 cs t)
  then show ?case using Close_outgoing [of t] by simp
qed simp

subsection \<open>Properties\<close>


lemmas tcp_eval = Send_def Flush_def EnqueueSend_def GetSendQueueSize_def CloneBuffer_def CreateBuffer_def
  buf_resize_def buf_capacity_def buf_data_def splice_def PeekSend_def ConsumeSend_def Let_def
  tcp_accepted_def tcp_new_def conn_buffer_new_def outgoing_def send_pending_def accepts_def EAGAIN_def

lemma tcp_accepted_inv: "tcp_inv (tcp_accepted fd now)"
  by (simp add: tcp_inv_def tcp_accepted_def tcp_new_def conn_buffer_new_def conn_buffer_inv_def)


text \<open>
  C33: \<^verbatim>\<open>Send\<close> reports success for data it has thrown away. When the queue has no room (or no memory is
  granted) and the socket is not in error, the call returns the full length, but neither the wire nor the
  queue has any of the bytes.
\<close>

theorem tcp_send_drops:
  assumes "tcp_inv t" and "conn_state t = ST_CONNECTED" and "data \<noteq> []"
    and "\<not> alloc \<or> max_send_queue_size (tbuf t) < length (send_pending (tbuf t)) + length data"
    and "snd (Flush io now t) = None"
  shows "\<exists>t'. Send alloc junk io now data t = (t', Inr (length data)) \<and> outgoing t' = outgoing t"
proof -
  obtain b ok where e: "EnqueueSend alloc junk data (tbuf t) = (b, ok)"
    by (cases "EnqueueSend alloc junk data (tbuf t)")
  have "\<not> ok" using EnqueueSend_ok [OF _ e] assms by (auto simp: tcp_inv_def)
  then have b: "b = tbuf t" using e assms(3) by (auto simp: EnqueueSend_def split: if_splits option.splits)
  obtain t1 where f: "Flush io now t = (t1, None)" using assms(5) by (cases "Flush io now t") auto
  show ?thesis
    using assms(2) e b f Flush_outgoing [OF assms(1) f] by (simp add: Send_def)
qed

theorem tcp_send_drops_witness:
  "\<exists>t'. Send True [] [] 0 [1, 2, 3] ((tcp_accepted 7 0)\<lparr>tbuf := conn_buffer_new\<lparr>max_send_queue_size := 2\<rparr>\<rparr>) =
     (t', Inr 3) \<and> outgoing t' = []"
proof -
  let ?t = "(tcp_accepted 7 0)\<lparr>tbuf := conn_buffer_new\<lparr>max_send_queue_size := 2\<rparr>\<rparr>"
  have "tcp_inv ?t" "conn_state ?t = ST_CONNECTED" "outgoing ?t = []" "snd (Flush [] 0 ?t) = None"
    "max_send_queue_size (tbuf ?t) < length (send_pending (tbuf ?t)) + length [1 :: byte, 2, 3]"
    by (simp_all add: tcp_inv_def conn_buffer_inv_def tcp_accepted_def tcp_new_def conn_buffer_new_def
        outgoing_def send_pending_def Flush_def PeekSend_def)
  then show ?thesis
    using tcp_send_drops [of ?t "[1, 2, 3]" True "[]" 0 "[]"] by (simp add: numeral_3_eq_3)
qed

text \<open>
  Retrying after \<^verbatim>\<open>EAGAIN\<close> duplicates. A \<^verbatim>\<open>Send\<close> that returns \<^verbatim>\<open>EAGAIN\<close> keeps its data in the
  queue; a caller that takes the error at its word and sends the same data again, as the speed-test thread
  does, puts it on the stream twice.
\<close>

theorem tcp_retry_duplicates:
  assumes "tcp_inv t" and "accepts alloc data t" and "Send alloc junk io now data t = (t1, Inl EAGAIN)"
    and "accepts alloc' data t1" and "Send alloc' junk' io' now' data t1 = (t2, r)"
  shows "outgoing t2 = outgoing t @ data @ data"
  using Send_outgoing [OF assms(1,3)] Send_outgoing [OF _ assms(5)] assms(2,4) by simp

theorem tcp_retry_duplicates_witness:
  "\<exists>t1 t2. Send True [] [] 0 [1, 2] (tcp_accepted 7 0) = (t1, Inl EAGAIN) \<and>
     Send True [] [Accepted 9, Accepted 9] 0 [1, 2] t1 = (t2, Inr 2) \<and> outgoing t2 = [1, 2, 1, 2]"
proof -
  let ?t = "tcp_accepted 7 0"
  let ?t1 = "fst (Send True [] [] 0 [1, 2] ?t)"
  let ?t2 = "fst (Send True [] [Accepted 9, Accepted 9] 0 [1, 2] ?t1)"
  have "snd (Send True [] [] 0 [1, 2] ?t) = Inl EAGAIN"
    "snd (Send True [] [Accepted 9, Accepted 9] 0 [1, 2] ?t1) = Inr 2" "outgoing ?t = []"
    by (simp_all add: tcp_eval numeral_2_eq_2 numeral_3_eq_3)
  then have s: "Send True [] [] 0 [1, 2] ?t = (?t1, Inl EAGAIN)"
    "Send True [] [Accepted 9, Accepted 9] 0 [1, 2] ?t1 = (?t2, Inr 2)" "outgoing ?t = []"
    by (simp_all add: prod_eq_iff)
  have "accepts True [1, 2] ?t" "accepts True [1, 2] ?t1"
    by (simp_all add: tcp_eval numeral_2_eq_2 numeral_3_eq_3)
  from tcp_retry_duplicates [OF tcp_accepted_inv this(1) s(1) this(2) s(2)] s show ?thesis by auto
qed

text \<open>
  C36: \<^verbatim>\<open>Receive\<close> hands over the bytes behind the data. On a connection whose receive buffer is
  empty, whatever the socket delivers (up to half of the fresh block of 4096 bytes), the string returned has
  the right length but holds what the block held behind the data before; the data themselves are discarded, and
  with them everything that was queued for sending.
\<close>

theorem tcp_receive_wrong_bytes:
  assumes "receive_buffer (tbuf t) = None" and "receive_committed (tbuf t) = 0" and "length junk = 4096"
    and "data \<noteq> []" and "2 * length data \<le> 4096" and "length data \<le> max_len"
  shows "\<exists>t'. Receive True junk (Received data) now max_len t =
           Some (t', Inr (take (length data) (drop (length data) junk))) \<and>
         send_pending (tbuf t') = [] \<and> bytes_received t' = bytes_received t + length data"
proof -
  have "GetReceiveBuffer True junk (tbuf t) =
      ((tbuf t)\<lparr>receive_buffer := Some \<lparr>mem = junk, bsize = 0\<rparr>\<rparr>, Some (0, 4096))"
    using assms(1-3) by (simp add: GetReceiveBuffer_def PrepareReceive_def CreateBuffer_def buf_capacity_def)
  moreover have "take 4096 data = data" "data \<noteq> []" using assms(4,5) by simp_all
  ultimately have fill: "fill_receive True junk (Received data) now max_len t =
      Some (t\<lparr>tbuf := (tbuf t)\<lparr>receive_committed := length data,
                receive_buffer := Some \<lparr>mem = splice junk 0 data, bsize = length data\<rparr>\<rparr>,
              bytes_received := bytes_received t + length data, last_activity_time := now\<rparr>, None)"
    using assms(2,3,5)
    by (simp add: fill_receive_def store_received_def CommitReceive_def buf_resize_def buf_capacity_def Let_def
        splice_def)
  have "drop (length data) (splice junk 0 data) = drop (length data) junk" using assms(3,5)
    by (simp add: splice_def)
  moreover have "\<not> 4096 - length data < length data" "0 < max_len" using assms(4-6) by (cases data; simp)+
  ultimately show ?thesis
    using assms fill
    by (simp add: Receive_def read_receive_def GetReceiveBuffer_def GetReceiveBufferSize_def buf_capacity_def
        Let_def ClearAll_def send_pending_def splice_def)
qed

theorem tcp_receive_wrong_bytes_witness:
  "\<exists>t'. Receive True (replicate 4096 0) (Received [71, 69, 84]) 0 1024 (tcp_accepted 7 0) = Some (t', Inr [0, 0, 0])"
proof -
  have "receive_buffer (tbuf (tcp_accepted 7 0)) = None" "receive_committed (tbuf (tcp_accepted 7 0)) = 0"
    by (simp_all add: tcp_accepted_def tcp_new_def conn_buffer_new_def)
  from tcp_receive_wrong_bytes [OF this, of "replicate 4096 0" "[71, 69, 84]" 1024 0]
  show ?thesis by (auto simp: numeral_3_eq_3)
qed

end
