(* ===== verification/Event_Dispatcher.thy ===== *)
theory Event_Dispatcher
  imports Tcp_Connection "HOL-Library.Multiset"
begin

section \<open>The event dispatcher (\<^verbatim>\<open>src/core/Event\<close>)\<close>

text \<open>
  \<^verbatim>\<open>DefaultEventDispatcher\<close> and \<^verbatim>\<open>ConnectionEventManager\<close>. A connection is its number, a subscriber its id, a
  callback a number (\<open>None\<close> for an empty \<^verbatim>\<open>std::function\<close>), and what the dispatcher does to the outside is the
  sequence of calls it makes, \<open>call_log\<close>. A queued closure is the datatype \<open>task\<close>; it reads the lists of
  subscribers and callbacks when it runs, not when it is queued, as the closure does through \<^verbatim>\<open>this\<close>. The
  iteration order of the \<^verbatim>\<open>std::unordered_map\<close> of subscribers is not specified: the argument \<open>order\<close> gives, for the
  ids present, the order in which they are visited.
\<close>

datatype message =
  Msg_Event connection_event nat
| Msg_Data nat bytes
| Msg_Error nat errno

datatype call = To_Subscriber bytes message | To_Callback nat message

datatype task = Broadcast message | Routed "bytes option" connection_event nat

record dispatch_stats =
  st_total_events :: nat
  st_total_data :: nat
  st_total_errors :: nat
  st_active_subscribers :: nat
  st_event_counts :: "connection_event \<Rightarrow> nat"

record dispatcher =
  max_queue_size :: nat
  async_dispatch :: bool
  stopped :: bool
  task_queue :: "task list"
  total_events :: nat
  total_data :: nat
  total_errors :: nat
  active_subscribers :: nat
  dstats :: dispatch_stats
  subscribers :: "bytes list"
  typed_callbacks :: "(connection_event \<times> nat option) list"
  data_callbacks :: "nat option list"
  error_callbacks :: "nat option list"
  filters :: "(connection_event \<Rightarrow> nat \<Rightarrow> bool) option list"
  call_log :: "call list"

definition dispatcher_new :: dispatcher where
  "dispatcher_new =
     \<lparr>max_queue_size = 1000, async_dispatch = False, stopped = False, task_queue = [],
      total_events = 0, total_data = 0, total_errors = 0, active_subscribers = 0,
      dstats = \<lparr>st_total_events = 0, st_total_data = 0, st_total_errors = 0, st_active_subscribers = 0,
                st_event_counts = (\<lambda>_. 0)\<rparr>,
      subscribers = [], typed_callbacks = [], data_callbacks = [], error_callbacks = [], filters = [],
      call_log = []\<rparr>"

subsection \<open>Notification\<close>

definition notifySubscribers :: "(bytes list \<Rightarrow> bytes list) \<Rightarrow> message \<Rightarrow> dispatcher \<Rightarrow> call list" where
  "notifySubscribers order m d = map (\<lambda>i. To_Subscriber i m) (order (subscribers d))"

definition notifyCallbacks :: "nat option list \<Rightarrow> message \<Rightarrow> call list" where
  "notifyCallbacks cbs m = map (\<lambda>c. To_Callback c m) (concat (map (\<lambda>c. case c of None \<Rightarrow> [] | Some i \<Rightarrow> [i]) cbs))"

definition notifyTypedCallbacks :: "connection_event \<Rightarrow> nat \<Rightarrow> dispatcher \<Rightarrow> call list" where
  "notifyTypedCallbacks event conn d =
     notifyCallbacks (map snd (filter (\<lambda>tc. fst tc = event) (typed_callbacks d))) (Msg_Event event conn)"

fun run_task :: "(bytes list \<Rightarrow> bytes list) \<Rightarrow> dispatcher \<Rightarrow> task \<Rightarrow> call list" where
  "run_task order d (Broadcast (Msg_Event e c)) =
     notifySubscribers order (Msg_Event e c) d @ notifyTypedCallbacks e c d"
| "run_task order d (Broadcast (Msg_Data c bs)) =
     notifySubscribers order (Msg_Data c bs) d @ notifyCallbacks (data_callbacks d) (Msg_Data c bs)"
| "run_task order d (Broadcast (Msg_Error c ec)) =
     notifySubscribers order (Msg_Error c ec) d @ notifyCallbacks (error_callbacks d) (Msg_Error c ec)"
| "run_task order d (Routed target e c) =
     (case target of None \<Rightarrow> [] | Some i \<Rightarrow> [To_Subscriber i (Msg_Event e c)]) @ notifyTypedCallbacks e c d"

definition applyFilters :: "connection_event \<Rightarrow> nat \<Rightarrow> dispatcher \<Rightarrow> bool" where
  "applyFilters event conn d \<longleftrightarrow>
     list_all (\<lambda>f. case f of None \<Rightarrow> True | Some p \<Rightarrow> p event conn) (filters d)"

definition perform :: "(bytes list \<Rightarrow> bytes list) \<Rightarrow> task \<Rightarrow> dispatcher \<Rightarrow> dispatcher" where
  "perform order t d = d\<lparr>call_log := call_log d @ run_task order d t\<rparr>"

definition dispatchTask :: "(bytes list \<Rightarrow> bytes list) \<Rightarrow> task \<Rightarrow> dispatcher \<Rightarrow> dispatcher" where
  "dispatchTask order t d =
     (if async_dispatch d
      then if 0 < max_queue_size d \<and> max_queue_size d \<le> length (task_queue d) then d
           else d\<lparr>task_queue := task_queue d @ [t]\<rparr>
      else perform order t d)"

text \<open>
  One round of \<^verbatim>\<open>workerLoop\<close>: nothing when the worker waits or has left the loop. The loop condition is
  tested before the wait: a worker that had passed the test when \<^verbatim>\<open>stop_\<close> was set (\<open>passed\<close>) still runs one task,
  every other one leaves what is queued.
\<close>

definition worker_round :: "(bytes list \<Rightarrow> bytes list) \<Rightarrow> bool \<Rightarrow> dispatcher \<Rightarrow> dispatcher" where
  "worker_round order passed d =
     (if stopped d \<and> \<not> passed then d
      else case task_queue d of [] \<Rightarrow> d | t # ts \<Rightarrow> perform order t (d\<lparr>task_queue := ts\<rparr>))"

subsection \<open>The interface\<close>

definition copy_totals :: "dispatcher \<Rightarrow> dispatcher" where
  "copy_totals d =
     d\<lparr>dstats := (dstats d)\<lparr>st_total_events := total_events d, st_total_data := total_data d,
                           st_total_errors := total_errors d, st_active_subscribers := active_subscribers d\<rparr>\<rparr>"

definition count_event :: "connection_event \<Rightarrow> dispatcher \<Rightarrow> dispatcher" where
  "count_event e d =
     d\<lparr>dstats := (dstats d)\<lparr>st_event_counts := (st_event_counts (dstats d))(e := st_event_counts (dstats d) e + 1)\<rparr>\<rparr>"

definition PublishEvent ::
  "(bytes list \<Rightarrow> bytes list) \<Rightarrow> connection_event \<Rightarrow> nat \<Rightarrow> dispatcher \<Rightarrow> dispatcher" where
  "PublishEvent order event conn d =
     (if \<not> applyFilters event conn d then d
      else dispatchTask order (Broadcast (Msg_Event event conn))
             (copy_totals (count_event event (d\<lparr>total_events := total_events d + 1\<rparr>))))"

definition PublishData :: "(bytes list \<Rightarrow> bytes list) \<Rightarrow> nat \<Rightarrow> bytes \<Rightarrow> dispatcher \<Rightarrow> dispatcher" where
  "PublishData order conn data d =
     dispatchTask order (Broadcast (Msg_Data conn data)) (copy_totals (d\<lparr>total_data := total_data d + 1\<rparr>))"

definition PublishError :: "(bytes list \<Rightarrow> bytes list) \<Rightarrow> nat \<Rightarrow> errno \<Rightarrow> dispatcher \<Rightarrow> dispatcher" where
  "PublishError order conn ec d =
     dispatchTask order (Broadcast (Msg_Error conn ec)) (copy_totals (d\<lparr>total_errors := total_errors d + 1\<rparr>))"

definition SubscribeEvent :: "connection_event \<Rightarrow> nat option \<Rightarrow> dispatcher \<Rightarrow> dispatcher" where
  "SubscribeEvent event cb d = d\<lparr>typed_callbacks := typed_callbacks d @ [(event, cb)]\<rparr>"

definition SubscribeData :: "nat option \<Rightarrow> dispatcher \<Rightarrow> dispatcher" where
  "SubscribeData cb d = d\<lparr>data_callbacks := data_callbacks d @ [cb]\<rparr>"

definition SubscribeError :: "nat option \<Rightarrow> dispatcher \<Rightarrow> dispatcher" where
  "SubscribeError cb d = d\<lparr>error_callbacks := error_callbacks d @ [cb]\<rparr>"

definition set_subscribers :: "bytes list \<Rightarrow> dispatcher \<Rightarrow> dispatcher" where
  "set_subscribers ids d =
     d\<lparr>subscribers := ids, active_subscribers := length ids,
       dstats := (dstats d)\<lparr>st_active_subscribers := length ids\<rparr>\<rparr>"

definition RegisterSubscriber :: "bytes \<Rightarrow> dispatcher \<Rightarrow> dispatcher" where
  "RegisterSubscriber i d =
     set_subscribers (if i \<in> set (subscribers d) then subscribers d else subscribers d @ [i]) d"

definition UnregisterSubscriber :: "bytes \<Rightarrow> dispatcher \<Rightarrow> dispatcher" where
  "UnregisterSubscriber i d = set_subscribers (filter (\<lambda>j. j \<noteq> i) (subscribers d)) d"

definition UnregisterAllSubscribers :: "dispatcher \<Rightarrow> dispatcher" where
  "UnregisterAllSubscribers d = set_subscribers [] d"

definition AddEventFilter :: "(connection_event \<Rightarrow> nat \<Rightarrow> bool) option \<Rightarrow> dispatcher \<Rightarrow> dispatcher" where
  "AddEventFilter f d = d\<lparr>filters := filters d @ [f]\<rparr>"

definition RemoveEventFilter :: "nat \<Rightarrow> dispatcher \<Rightarrow> dispatcher" where
  "RemoveEventFilter index d =
     (if index < length (filters d) then d\<lparr>filters := take index (filters d) @ drop (index + 1) (filters d)\<rparr> else d)"

definition RouteEvent ::
  "(bytes list \<Rightarrow> bytes list) \<Rightarrow> connection_event \<Rightarrow> nat \<Rightarrow> bytes \<Rightarrow> dispatcher \<Rightarrow> dispatcher" where
  "RouteEvent order event conn route_key d =
     (if \<not> applyFilters event conn d then d
      else dispatchTask order
             (Routed (if route_key \<in> set (subscribers d) then Some route_key else None) event conn) d)"

definition SetMaxQueueSize :: "nat \<Rightarrow> dispatcher \<Rightarrow> dispatcher" where
  "SetMaxQueueSize n d = d\<lparr>max_queue_size := n\<rparr>"

definition SetAsyncDispatch :: "bool \<Rightarrow> dispatcher \<Rightarrow> dispatcher" where
  "SetAsyncDispatch enable d = d\<lparr>async_dispatch := enable\<rparr>"

definition dispatcher_destroy :: "dispatcher \<Rightarrow> dispatcher" where
  "dispatcher_destroy d = d\<lparr>stopped := True\<rparr>"

subsection \<open>The events of one connection\<close>

text \<open>
  \<^verbatim>\<open>ConnectionEventManager\<close>: \<open>self_connection\<close> is \<open>None\<close> when the connection was never set or is gone (\<^verbatim>\<open>weak_ptr\<close>).
  The private callback is called before the dispatcher.
\<close>

record conn_event_mgr =
  self_connection :: "nat option"
  event_callback :: "nat option"
  data_callback :: "nat option"
  error_callback :: "nat option"
  has_dispatcher :: bool

definition private_call :: "nat option \<Rightarrow> message \<Rightarrow> dispatcher \<Rightarrow> dispatcher" where
  "private_call cb m d = d\<lparr>call_log := call_log d @ notifyCallbacks [cb] m\<rparr>"

definition mgr_TriggerEvent ::
  "(bytes list \<Rightarrow> bytes list) \<Rightarrow> connection_event \<Rightarrow> conn_event_mgr \<Rightarrow> dispatcher \<Rightarrow> dispatcher" where
  "mgr_TriggerEvent order event m d =
     (case self_connection m of
        None \<Rightarrow> d
      | Some c \<Rightarrow> (if has_dispatcher m then PublishEvent order event c else (\<lambda>x. x))
                    (private_call (event_callback m) (Msg_Event event c) d))"

definition mgr_TriggerData ::
  "(bytes list \<Rightarrow> bytes list) \<Rightarrow> bytes \<Rightarrow> conn_event_mgr \<Rightarrow> dispatcher \<Rightarrow> dispatcher" where
  "mgr_TriggerData order data m d =
     (case self_connection m of
        None \<Rightarrow> d
      | Some c \<Rightarrow> (if has_dispatcher m then PublishData order c data else (\<lambda>x. x))
                    (private_call (data_callback m) (Msg_Data c data) d))"

definition mgr_TriggerError ::
  "(bytes list \<Rightarrow> bytes list) \<Rightarrow> errno \<Rightarrow> conn_event_mgr \<Rightarrow> dispatcher \<Rightarrow> dispatcher" where
  "mgr_TriggerError order ec m d =
     (case self_connection m of
        None \<Rightarrow> d
      | Some c \<Rightarrow> (if has_dispatcher m then PublishError order c ec else (\<lambda>x. x))
                    (private_call (error_callback m) (Msg_Error c ec) d))"

subsection \<open>Asynchronous dispatch implements synchronous dispatch\<close>

datatype publication =
  P_Event connection_event nat | P_Data nat bytes | P_Error nat errno | P_Route connection_event nat bytes

fun publish :: "(bytes list \<Rightarrow> bytes list) \<Rightarrow> publication \<Rightarrow> dispatcher \<Rightarrow> dispatcher" where
  "publish order (P_Event e c) d = PublishEvent order e c d"
| "publish order (P_Data c bs) d = PublishData order c bs d"
| "publish order (P_Error c ec) d = PublishError order c ec d"
| "publish order (P_Route e c k) d = RouteEvent order e c k d"

text \<open>
  The abstraction: the synchronous dispatcher that has already made the calls the queue still owes.
\<close>

definition settled :: "(bytes list \<Rightarrow> bytes list) \<Rightarrow> dispatcher \<Rightarrow> dispatcher" where
  "settled order d =
     d\<lparr>async_dispatch := False, task_queue := [],
       call_log := call_log d @ concat (map (run_task order d) (task_queue d))\<rparr>"

definition queue_full :: "dispatcher \<Rightarrow> bool" where
  "queue_full d \<longleftrightarrow> 0 < max_queue_size d \<and> max_queue_size d \<le> length (task_queue d)"

lemmas publish_defs = PublishEvent_def PublishData_def PublishError_def RouteEvent_def copy_totals_def count_event_def

lemma run_task_cong:
  assumes "subscribers d' = subscribers d" and "typed_callbacks d' = typed_callbacks d"
    and "data_callbacks d' = data_callbacks d" and "error_callbacks d' = error_callbacks d"
  shows "run_task order d' t = run_task order d t"
  using assms
  by (cases "(order, d, t)" rule: run_task.cases) (simp_all add: notifySubscribers_def notifyTypedCallbacks_def)

lemma run_task_fields [simp]:
  "run_task order (d\<lparr>call_log := l\<rparr>) = run_task order d"
  "run_task order (d\<lparr>task_queue := q\<rparr>) = run_task order d"
  "run_task order (d\<lparr>async_dispatch := b\<rparr>) = run_task order d"
  "run_task order (d\<lparr>dstats := x\<rparr>) = run_task order d"
  "run_task order (d\<lparr>total_events := n\<rparr>) = run_task order d"
  "run_task order (d\<lparr>total_data := n\<rparr>) = run_task order d"
  "run_task order (d\<lparr>total_errors := n\<rparr>) = run_task order d"
  by (rule ext, rule run_task_cong; simp)+

lemma dispatchTask_enqueue:
  "async_dispatch d \<Longrightarrow> \<not> queue_full d \<Longrightarrow> dispatchTask order t d = d\<lparr>task_queue := task_queue d @ [t]\<rparr>"
  unfolding dispatchTask_def queue_full_def by (simp only: if_True if_False)

lemma settled_dispatchTask:
  assumes "async_dispatch d" and "\<not> queue_full d"
  shows "settled order (dispatchTask order t d) = dispatchTask order t (settled order d)"
  unfolding dispatchTask_enqueue [OF assms] by (simp add: settled_def dispatchTask_def perform_def)

lemma settled_totals:
  "settled order (copy_totals d) = copy_totals (settled order d)"
  "settled order (count_event e d) = count_event e (settled order d)"
  "settled order (d\<lparr>total_events := n\<rparr>) = (settled order d)\<lparr>total_events := n\<rparr>"
  "settled order (d\<lparr>total_data := n\<rparr>) = (settled order d)\<lparr>total_data := n\<rparr>"
  "settled order (d\<lparr>total_errors := n\<rparr>) = (settled order d)\<lparr>total_errors := n\<rparr>"
  by (rule dispatcher.equality; simp add: settled_def copy_totals_def count_event_def)+

lemma settled_fields [simp]:
  "filters (settled order d) = filters d" "subscribers (settled order d) = subscribers d"
  "total_events (settled order d) = total_events d" "total_data (settled order d) = total_data d"
  "total_errors (settled order d) = total_errors d"
  by (simp_all add: settled_def)

lemma counted_fields [simp]:
  "async_dispatch (copy_totals d) = async_dispatch d" "queue_full (copy_totals d) = queue_full d"
  "async_dispatch (count_event e d) = async_dispatch d" "queue_full (count_event e d) = queue_full d"
  "queue_full (d\<lparr>total_events := n\<rparr>) = queue_full d" "queue_full (d\<lparr>total_data := n\<rparr>) = queue_full d"
  "queue_full (d\<lparr>total_errors := n\<rparr>) = queue_full d"
  by (simp_all add: copy_totals_def count_event_def queue_full_def)

lemma dispatchTask_fields [simp]:
  "async_dispatch (dispatchTask order t d) = async_dispatch d"
  "stopped (dispatchTask order t d) = stopped d"
  "filters (dispatchTask order t d) = filters d"
  "subscribers (dispatchTask order t d) = subscribers d"
  "active_subscribers (dispatchTask order t d) = active_subscribers d"
  "dstats (dispatchTask order t d) = dstats d"
  "total_events (dispatchTask order t d) = total_events d"
  "total_data (dispatchTask order t d) = total_data d"
  "total_errors (dispatchTask order t d) = total_errors d"
  by (simp_all add: dispatchTask_def perform_def)

lemma settled_publish:
  assumes "async_dispatch d" and "\<not> queue_full d"
  shows "settled order (publish order p d) = publish order p (settled order d)"
  using assms
  by (cases p)
     (simp_all add: PublishEvent_def PublishData_def PublishError_def RouteEvent_def applyFilters_def
       settled_dispatchTask settled_totals)

lemma settled_worker: "settled order (worker_round order passed d) = settled order d"
  by (simp add: settled_def worker_round_def perform_def split: list.split)

lemma publish_fields [simp]:
  "async_dispatch (publish order p d) = async_dispatch d"
  by (cases p) (simp_all add: publish_defs)

lemma worker_fields [simp]: "async_dispatch (worker_round order passed d) = async_dispatch d"
  by (simp add: worker_round_def perform_def split: list.split)

datatype action = Publish publication | Worker bool

fun act :: "(bytes list \<Rightarrow> bytes list) \<Rightarrow> action \<Rightarrow> dispatcher \<Rightarrow> dispatcher" where
  "act order (Publish p) d = publish order p d"
| "act order (Worker passed) d = worker_round order passed d"

fun publications :: "action list \<Rightarrow> publication list" where
  "publications [] = []"
| "publications (Publish p # as) = p # publications as"
| "publications (Worker passed # as) = publications as"

fun no_overflow :: "(bytes list \<Rightarrow> bytes list) \<Rightarrow> action list \<Rightarrow> dispatcher \<Rightarrow> bool" where
  "no_overflow order [] d \<longleftrightarrow> True"
| "no_overflow order (a # as) d \<longleftrightarrow> (case a of Publish p \<Rightarrow> \<not> queue_full d | Worker passed \<Rightarrow> True) \<and>
     no_overflow order as (act order a d)"

lemma settled_run:
  "async_dispatch d \<Longrightarrow> no_overflow order as d \<Longrightarrow>
   settled order (fold (act order) as d) = fold (publish order) (publications as) (settled order d)"
proof (induction as arbitrary: d)
  case (Cons a as)
  then show ?case by (cases a) (simp_all add: settled_publish settled_worker)
qed simp

subsection \<open>Properties\<close>


definition sample_dispatcher :: dispatcher where
  "sample_dispatcher = SetAsyncDispatch True (SubscribeEvent EV_CLOSED (Some 7) (RegisterSubscriber [65] dispatcher_new))"

lemmas dispatcher_eval = sample_dispatcher_def SetAsyncDispatch_def SubscribeEvent_def RegisterSubscriber_def
  set_subscribers_def dispatcher_new_def publish_defs applyFilters_def dispatchTask_def perform_def worker_round_def
  notifySubscribers_def notifyCallbacks_def notifyTypedCallbacks_def queue_full_def


text \<open>The calls a program can make on a dispatcher, and the rounds of its workers.\<close>

inductive dispatcher_step :: "(bytes list \<Rightarrow> bytes list) \<Rightarrow> dispatcher \<Rightarrow> dispatcher \<Rightarrow> bool" for order where
  step_publish: "dispatcher_step order d (publish order p d)"
| step_worker: "dispatcher_step order d (worker_round order passed d)"
| step_sub_event: "dispatcher_step order d (SubscribeEvent e cb d)"
| step_sub_data: "dispatcher_step order d (SubscribeData cb d)"
| step_sub_error: "dispatcher_step order d (SubscribeError cb d)"
| step_register: "dispatcher_step order d (RegisterSubscriber i d)"
| step_unregister: "dispatcher_step order d (UnregisterSubscriber i d)"
| step_unregister_all: "dispatcher_step order d (UnregisterAllSubscribers d)"
| step_add_filter: "dispatcher_step order d (AddEventFilter f d)"
| step_remove_filter: "dispatcher_step order d (RemoveEventFilter n d)"
| step_max_queue: "dispatcher_step order d (SetMaxQueueSize n d)"
| step_async: "dispatcher_step order d (SetAsyncDispatch b d)"
| step_destroy: "dispatcher_step order d (dispatcher_destroy d)"

inductive dispatcher_reachable :: "(bytes list \<Rightarrow> bytes list) \<Rightarrow> dispatcher \<Rightarrow> bool" for order where
  reach_new: "dispatcher_reachable order dispatcher_new"
| reach_step: "dispatcher_reachable order d \<Longrightarrow> dispatcher_step order d d' \<Longrightarrow> dispatcher_reachable order d'"

definition all_events :: "connection_event list" where
  "all_events = [EV_CONNECTED, EV_DISCONNECTED, EV_DATA_SENT, EV_DATA_RECEIVED, EV_ERROR_OCCURRED, EV_CLOSED]"

definition dispatcher_inv :: "dispatcher \<Rightarrow> bool" where
  "dispatcher_inv d \<longleftrightarrow> distinct (subscribers d) \<and> active_subscribers d = length (subscribers d) \<and>
     st_active_subscribers (dstats d) = length (subscribers d) \<and>
     st_total_events (dstats d) = total_events d \<and> st_total_data (dstats d) = total_data d \<and>
     st_total_errors (dstats d) = total_errors d \<and>
     total_events d = sum_list (map (st_event_counts (dstats d)) all_events)"

lemma sum_list_event_counts:
  "sum_list (map (f(e := Suc (f e))) all_events) = Suc (sum_list (map f all_events))"
  by (cases e) (simp_all add: all_events_def)

lemma publish_inv: "dispatcher_inv d \<Longrightarrow> dispatcher_inv (publish order p d)"
  by (cases p) (auto simp: publish_defs dispatcher_inv_def sum_list_event_counts simp del: fun_upd_apply)

lemma set_subscribers_inv: "dispatcher_inv d \<Longrightarrow> distinct ids \<Longrightarrow> dispatcher_inv (set_subscribers ids d)"
  by (simp add: set_subscribers_def dispatcher_inv_def)

lemma dispatcher_step_inv: "dispatcher_step order d d' \<Longrightarrow> dispatcher_inv d \<Longrightarrow> dispatcher_inv d'"
proof (induction rule: dispatcher_step.induct)
  case (step_publish d p)
  then show ?case by (rule publish_inv)
next
  case (step_worker d passed)
  then show ?case by (simp add: worker_round_def perform_def dispatcher_inv_def split: list.split)
next
  case (step_register d i)
  then show ?case
    unfolding RegisterSubscriber_def by (rule set_subscribers_inv) (use step_register in \<open>simp add: dispatcher_inv_def\<close>)
next
  case (step_unregister d i)
  then show ?case
    unfolding UnregisterSubscriber_def by (rule set_subscribers_inv) (use step_unregister in \<open>simp add: dispatcher_inv_def\<close>)
next
  case (step_unregister_all d)
  then show ?case unfolding UnregisterAllSubscribers_def by (rule set_subscribers_inv) simp
qed (simp_all add: dispatcher_inv_def SubscribeEvent_def SubscribeData_def SubscribeError_def AddEventFilter_def
    RemoveEventFilter_def SetMaxQueueSize_def SetAsyncDispatch_def dispatcher_destroy_def)



end
