(* ===== verification/Scheduler.thy ===== *)
theory Scheduler
  imports Prelude "HOL-Library.Multiset"
begin

section \<open>The task scheduler (\<^verbatim>\<open>src/core/Async\<close>)\<close>

text \<open>
  Two classes \<^verbatim>\<open>ThreadPoolScheduler\<close>: the one of \<^verbatim>\<open>async_scheduler.cpp\<close>, which \<^verbatim>\<open>IScheduler::CreateDefault\<close> returns,
  and the one of \<^verbatim>\<open>async_scheduler_impl.cpp\<close>. They differ in what the timer thread does with a periodic
  task (\<open>timer_fire_default\<close> and \<open>timer_fire_impl\<close>) and in shrinking the pool. A task is a number; the fields behind
  \<open>worker_threads\<close> are a record of what has happened: \<open>workers\<close> counts the live worker threads, \<open>running\<close> holds the
  tasks in execution, \<open>finished\<close> those that have ended, \<open>submitted\<close> all tasks ever put into the queue, \<open>started\<close> those
  taken out of it, \<open>requested\<close> those that callers asked for. Every critical section under \<^verbatim>\<open>queue_mutex_\<close> or
  \<^verbatim>\<open>timer_mutex_\<close> is one step, so a sequence of steps is an interleaving of callers, workers and the timer thread.
  Times are milliseconds.
\<close>

record timer_task =
  tt_func :: nat
  tt_expire :: nat
  tt_interval :: nat
  tt_id :: nat

record scheduler =
  tasks :: "nat list"
  timer_queue :: "timer_task list"
  stop :: bool
  paused :: bool
  timer_running :: bool
  active_tasks :: nat
  completed_tasks :: nat
  failed_tasks :: nat
  next_timer_id :: nat
  max_concurrent :: nat
  worker_threads :: nat
  workers :: nat
  running :: "nat list"
  finished :: "nat list"
  submitted :: "nat list"
  started :: "nat list"
  requested :: "nat list"

definition get_default_thread_count :: "nat \<Rightarrow> nat" where
  "get_default_thread_count hardware_concurrency = (if 0 < hardware_concurrency then hardware_concurrency else 4)"

definition scheduler_new :: "nat \<Rightarrow> nat \<Rightarrow> scheduler" where
  "scheduler_new hardware_concurrency thread_count =
     (let n = (if thread_count = 0 then get_default_thread_count hardware_concurrency else thread_count)
      in \<lparr>tasks = [], timer_queue = [], stop = False, paused = False, timer_running = False, active_tasks = 0,
          completed_tasks = 0, failed_tasks = 0, next_timer_id = 0, max_concurrent = n, worker_threads = n,
          workers = 0, running = [], finished = [], submitted = [], started = [], requested = []\<rparr>)"

definition sched_Start :: "scheduler \<Rightarrow> scheduler" where
  "sched_Start s =
     (if workers s \<noteq> 0 then s
      else s\<lparr>stop := False, paused := False, timer_running := True, workers := worker_threads s\<rparr>)"

text \<open>\<^verbatim>\<open>Stop\<close> up to the first join, and what it does after all threads have been joined.\<close>

definition Stop_begin :: "scheduler \<Rightarrow> scheduler" where
  "Stop_begin s = s\<lparr>stop := True, paused := False\<rparr>"

definition Stop_end :: "scheduler \<Rightarrow> scheduler" where
  "Stop_end s =
     s\<lparr>workers := 0, timer_running := False, tasks := [], timer_queue := [], active_tasks := 0,
       completed_tasks := 0, failed_tasks := 0\<rparr>"

definition Pause :: "scheduler \<Rightarrow> scheduler" where
  "Pause s = s\<lparr>paused := True\<rparr>"

definition Resume :: "scheduler \<Rightarrow> scheduler" where
  "Resume s = s\<lparr>paused := False\<rparr>"

definition enqueue :: "nat \<Rightarrow> scheduler \<Rightarrow> scheduler" where
  "enqueue t s = s\<lparr>tasks := tasks s @ [t], submitted := submitted s @ [t]\<rparr>"

definition ScheduleTask :: "nat \<Rightarrow> scheduler \<Rightarrow> scheduler" where
  "ScheduleTask t s = enqueue t (s\<lparr>requested := requested s @ [t]\<rparr>)"

definition ScheduleBatch :: "nat list \<Rightarrow> scheduler \<Rightarrow> scheduler" where
  "ScheduleBatch ts s = fold ScheduleTask ts s"

definition arm :: "nat \<Rightarrow> nat \<Rightarrow> nat \<Rightarrow> scheduler \<Rightarrow> scheduler" where
  "arm t expire interval s =
     s\<lparr>next_timer_id := next_timer_id s + 1,
       timer_queue := timer_queue s @
         [\<lparr>tt_func = t, tt_expire = expire, tt_interval = interval, tt_id = next_timer_id s + 1\<rparr>]\<rparr>"

definition ScheduleAfter :: "nat \<Rightarrow> nat \<Rightarrow> nat \<Rightarrow> scheduler \<Rightarrow> scheduler" where
  "ScheduleAfter now t delay s =
     (if delay = 0 then ScheduleTask t s else arm t (now + delay) 0 (s\<lparr>requested := requested s @ [t]\<rparr>))"

definition ScheduleEvery :: "nat \<Rightarrow> nat \<Rightarrow> nat \<Rightarrow> scheduler \<Rightarrow> scheduler" where
  "ScheduleEvery now t interval s =
     (if interval = 0 then ScheduleTask t s
      else arm t (now + interval) interval (s\<lparr>requested := requested s @ [t]\<rparr>))"

definition sched_GetStats :: "scheduler \<Rightarrow> nat \<times> nat \<times> nat \<times> nat \<times> nat" where
  "sched_GetStats s = (length (tasks s), active_tasks s, completed_tasks s, failed_tasks s, workers s)"

definition SetMaxConcurrent :: "nat \<Rightarrow> scheduler \<Rightarrow> scheduler" where
  "SetMaxConcurrent n s = s\<lparr>max_concurrent := n\<rparr>"

definition SetThreadPoolSize :: "nat \<Rightarrow> scheduler \<Rightarrow> scheduler" where
  "SetThreadPoolSize n s =
     (if worker_threads s < n
      then s\<lparr>workers := workers s + (n - worker_threads s), worker_threads := n\<rparr> else s)"

definition SetThreadPoolSize_impl :: "nat \<Rightarrow> scheduler \<Rightarrow> scheduler" where
  "SetThreadPoolSize_impl n s =
     (if worker_threads s < n
      then s\<lparr>workers := workers s + (n - worker_threads s), worker_threads := n\<rparr>
      else s\<lparr>worker_threads := n\<rparr>)"

subsection \<open>The threads\<close>

text \<open>
  \<open>worker_wait\<close> is the predicate of the condition variable, \<open>worker_take\<close> the rest of the critical section:
  \<open>None\<close> when the worker goes round the loop, or leaves it, without a task.
\<close>

definition worker_wait :: "scheduler \<Rightarrow> bool" where
  "worker_wait s \<longleftrightarrow> stop s \<or> tasks s \<noteq> [] \<and> \<not> paused s \<and> (max_concurrent s = 0 \<or> active_tasks s < max_concurrent s)"

definition worker_take :: "scheduler \<Rightarrow> scheduler option" where
  "worker_take s =
     (if \<not> worker_wait s \<or> workers s \<le> length (running s) then None
      else if stop s \<and> tasks s = [] then None
      else if paused s \<or> tasks s = [] then None
      else if 0 < max_concurrent s \<and> max_concurrent s \<le> active_tasks s then None
      else Some (s\<lparr>tasks := tl (tasks s), active_tasks := active_tasks s + 1,
                   running := running s @ [hd (tasks s)], started := started s @ [hd (tasks s)]\<rparr>))"

definition worker_finish :: "nat \<Rightarrow> bool \<Rightarrow> scheduler \<Rightarrow> scheduler" where
  "worker_finish t ok s =
     s\<lparr>active_tasks := active_tasks s - 1,
       completed_tasks := (if ok then completed_tasks s + 1 else completed_tasks s),
       failed_tasks := (if ok then failed_tasks s else failed_tasks s + 1),
       running := remove1 t (running s), finished := finished s @ [t]\<rparr>"

definition worker_exit :: "scheduler \<Rightarrow> scheduler option" where
  "worker_exit s = (if stop s \<and> tasks s = [] \<and> length (running s) < workers s
                    then Some (s\<lparr>workers := workers s - 1\<rparr>) else None)"

text \<open>The priority queue gives an entry of least expiry time; which one among equals is not specified.\<close>

definition is_top :: "timer_task \<Rightarrow> timer_task list \<Rightarrow> bool" where
  "is_top x q \<longleftrightarrow> x \<in> set q \<and> list_all (\<lambda>y. tt_expire x \<le> tt_expire y) q"

definition timer_due :: "nat \<Rightarrow> timer_task \<Rightarrow> scheduler \<Rightarrow> bool" where
  "timer_due now x s \<longleftrightarrow> timer_running s \<and> is_top x (timer_queue s) \<and> tt_expire x \<le> now"

definition timer_fire_default :: "nat \<Rightarrow> timer_task \<Rightarrow> scheduler \<Rightarrow> scheduler" where
  "timer_fire_default now x s = enqueue (tt_func x) (s\<lparr>timer_queue := remove1 x (timer_queue s)\<rparr>)"

definition timer_fire_impl :: "nat \<Rightarrow> timer_task \<Rightarrow> scheduler \<Rightarrow> scheduler" where
  "timer_fire_impl now x s =
     (let s' = enqueue (tt_func x) (s\<lparr>timer_queue := remove1 x (timer_queue s)\<rparr>)
      in if 0 < tt_interval x then arm (tt_func x) (now + tt_interval x) (tt_interval x) s' else s')"

text \<open>When the next task is not due, the timer thread waits on this predicate with a timeout.\<close>

definition timer_wait :: "scheduler \<Rightarrow> bool" where
  "timer_wait s \<longleftrightarrow> \<not> timer_running s \<or> timer_queue s \<noteq> []"

subsection \<open>Interleavings\<close>

inductive sched_step :: "(nat \<Rightarrow> timer_task \<Rightarrow> scheduler \<Rightarrow> scheduler) \<Rightarrow> scheduler \<Rightarrow> scheduler \<Rightarrow> bool" for fire where
  step_start: "sched_step fire s (sched_Start s)"
| step_stop: "sched_step fire s (Stop_begin s)"
| step_pause: "sched_step fire s (Pause s)"
| step_resume: "sched_step fire s (Resume s)"
| step_task: "sched_step fire s (ScheduleTask t s)"
| step_batch: "sched_step fire s (ScheduleBatch ts s)"
| step_after: "sched_step fire s (ScheduleAfter now t delay s)"
| step_every: "sched_step fire s (ScheduleEvery now t interval s)"
| step_max: "sched_step fire s (SetMaxConcurrent n s)"
| step_pool: "sched_step fire s (SetThreadPoolSize n s)"
| step_pool_impl: "sched_step fire s (SetThreadPoolSize_impl n s)"
| step_take: "worker_take s = Some s' \<Longrightarrow> sched_step fire s s'"
| step_finish: "t \<in> set (running s) \<Longrightarrow> sched_step fire s (worker_finish t ok s)"
| step_exit: "worker_exit s = Some s' \<Longrightarrow> sched_step fire s s'"
| step_timer: "timer_due now x s \<Longrightarrow> sched_step fire s (fire now x s)"

inductive sched_reachable :: "(nat \<Rightarrow> timer_task \<Rightarrow> scheduler \<Rightarrow> scheduler) \<Rightarrow> scheduler \<Rightarrow> bool" for fire where
  reach_new: "sched_reachable fire (scheduler_new hw n)"
| reach_step: "sched_reachable fire s \<Longrightarrow> sched_step fire s s' \<Longrightarrow> sched_reachable fire s'"

definition armed :: "scheduler \<Rightarrow> nat list" where
  "armed s = map tt_func (timer_queue s)"

definition sched_inv :: "scheduler \<Rightarrow> bool" where
  "sched_inv s \<longleftrightarrow> submitted s = started s @ tasks s \<and> mset (started s) = mset (running s) + mset (finished s) \<and>
     active_tasks s = length (running s) \<and> completed_tasks s + failed_tasks s = length (finished s)"

lemmas sched_defs = sched_Start_def Stop_begin_def Pause_def Resume_def ScheduleTask_def enqueue_def ScheduleAfter_def
  ScheduleEvery_def arm_def SetMaxConcurrent_def SetThreadPoolSize_def SetThreadPoolSize_impl_def worker_finish_def

lemma worker_takeD:
  assumes "worker_take s = Some s'"
  shows "\<exists>t ts. tasks s = t # ts \<and> (max_concurrent s = 0 \<or> active_tasks s < max_concurrent s) \<and> \<not> paused s \<and>
    s' = s\<lparr>tasks := ts, active_tasks := active_tasks s + 1, running := running s @ [t], started := started s @ [t]\<rparr>"
  using assms by (cases "tasks s") (auto simp: worker_take_def worker_wait_def split: if_splits)

lemma ScheduleBatch_eq:
  "ScheduleBatch ts s = s\<lparr>tasks := tasks s @ ts, submitted := submitted s @ ts, requested := requested s @ ts\<rparr>"
  unfolding ScheduleBatch_def by (induction ts arbitrary: s) (simp_all add: ScheduleTask_def enqueue_def)

lemma sched_inv_step:
  assumes "sched_step fire s s'" and "sched_inv s"
    and "\<And>now x s. sched_inv s \<Longrightarrow> sched_inv (fire now x s)"
  shows "sched_inv s'"
  using assms(1,2)
proof (induction rule: sched_step.induct)
  case (step_take s s')
  then show ?case by (auto dest!: worker_takeD simp: sched_inv_def)
next
  case (step_finish t s ok)
  then have "length (remove1 t (running s)) = length (running s) - 1" "0 < length (running s)"
    by (simp_all add: length_remove1) (auto)
  with step_finish show ?case by (auto simp: sched_inv_def worker_finish_def)
next
  case (step_batch s ts)
  then show ?case by (simp add: sched_inv_def ScheduleBatch_eq)
next
  case (step_exit s s')
  then show ?case by (auto simp: sched_inv_def worker_exit_def split: if_splits)
next
  case (step_timer now x s)
  then show ?case using assms(3) by blast
qed (simp_all add: sched_inv_def sched_defs)

lemma timer_fire_inv: "sched_inv s \<Longrightarrow> sched_inv (timer_fire_default now x s)"
  "sched_inv s \<Longrightarrow> sched_inv (timer_fire_impl now x s)"
  by (simp_all add: sched_inv_def timer_fire_default_def timer_fire_impl_def enqueue_def arm_def Let_def)

lemma sched_inv_reachable:
  assumes "sched_reachable fire s" and "\<And>now x s. sched_inv s \<Longrightarrow> sched_inv (fire now x s)"
  shows "sched_inv s"
  using assms(1)
proof (induction rule: sched_reachable.induct)
  case (reach_new hw n)
  then show ?case by (simp add: sched_inv_def scheduler_new_def Let_def)
next
  case (reach_step s s')
  then show ?case using sched_inv_step assms(2) by blast
qed

lemma default_conserves_step:
  assumes "sched_step timer_fire_default s s'" and "mset (requested s) = mset (submitted s) + mset (armed s)"
  shows "mset (requested s') = mset (submitted s') + mset (armed s')"
  using assms
proof (induction rule: sched_step.induct)
  case (step_take s s')
  then show ?case by (auto dest!: worker_takeD simp: armed_def)
next
  case (step_batch s ts)
  then show ?case by (simp add: ScheduleBatch_eq armed_def)
next
  case (step_exit s s')
  then show ?case by (auto simp: worker_exit_def armed_def split: if_splits)
next
  case (step_timer now x s)
  then have "x \<in> set (timer_queue s)" by (simp add: timer_due_def is_top_def)
  then have "mset (map tt_func (timer_queue s)) = add_mset (tt_func x) (mset (map tt_func (remove1 x (timer_queue s))))"
    by (metis (no_types, lifting) image_mset_add_mset insert_DiffM mset_map mset_remove1 set_mset_mset)
  with step_timer show ?case by (simp add: timer_fire_default_def enqueue_def armed_def)
qed (simp_all add: armed_def sched_defs)

subsection \<open>Properties\<close>


definition sample_timer :: timer_task where
  "sample_timer = \<lparr>tt_func = 5, tt_expire = 10, tt_interval = 10, tt_id = 1\<rparr>"

definition sample_periodic :: scheduler where
  "sample_periodic = ScheduleEvery 0 5 10 (sched_Start (scheduler_new 2 0))"

lemma sample_due: "timer_due 10 sample_timer sample_periodic"
  by (simp add: timer_due_def is_top_def sample_timer_def sample_periodic_def sched_defs scheduler_new_def
      get_default_thread_count_def Let_def)




text \<open>
  In the scheduler of \<^verbatim>\<open>async_scheduler_impl.cpp\<close> a periodic task stays armed: in every state that any steps can
  lead to after \<^verbatim>\<open>ScheduleEvery\<close>, the timer queue has an entry with the task and its interval.
\<close>

theorem sched_impl_periodic:
  assumes "0 < interval" and "(sched_step timer_fire_impl)\<^sup>*\<^sup>* (ScheduleEvery now t interval s) s'"
  shows "(t, interval) \<in> (\<lambda>x. (tt_func x, tt_interval x)) ` set (timer_queue s')"
  using assms(2)
proof (induction rule: rtranclp_induct)
  case base
  then show ?case using assms(1) by (simp add: ScheduleEvery_def arm_def)
next
  case (step u v)
  let ?f = "\<lambda>x. (tt_func x, tt_interval x)"
  from step.hyps(2) step.IH show ?case
  proof (induction rule: sched_step.induct)
    case (step_take s s')
    then show ?case by (auto dest!: worker_takeD)
  next
    case (step_exit s s')
    then show ?case by (auto simp: worker_exit_def split: if_splits)
  next
    case (step_timer now x s)
    obtain y where y: "y \<in> set (timer_queue s)" "?f y = (t, interval)" using step_timer.prems by auto
    show ?case
    proof (cases "y = x")
      case True
      then show ?thesis using y assms(1) by (simp add: timer_fire_impl_def arm_def enqueue_def Let_def)
    next
      case False
      then have "y \<in> set (remove1 x (timer_queue s))" using y(1) by simp
      then show ?thesis using y(2) by (force simp: timer_fire_impl_def arm_def enqueue_def Let_def)
    qed
  qed (simp_all add: sched_defs ScheduleBatch_eq)
qed

theorem sched_impl_periodic_witness:
  "(5, 10) \<in> (\<lambda>x. (tt_func x, tt_interval x)) ` set (timer_queue (timer_fire_impl 10 sample_timer sample_periodic))"
proof (rule sched_impl_periodic)
  show "0 < (10 :: nat)" by simp
  show "(sched_step timer_fire_impl)\<^sup>*\<^sup>* (ScheduleEvery 0 5 10 (sched_Start (scheduler_new 2 0)))
      (timer_fire_impl 10 sample_timer sample_periodic)"
    using step_timer [OF sample_due] unfolding sample_periodic_def by (rule r_into_rtranclp)
qed

text \<open>
  Growing the pool before \<^verbatim>\<open>Start\<close> keeps the timer thread from ever being started: \<^verbatim>\<open>Start\<close> sees workers and
  returns.
\<close>

lemma resize_before_start:
  "worker_threads s < n \<Longrightarrow> \<not> timer_running s \<Longrightarrow> \<not> timer_running (sched_Start (SetThreadPoolSize n s))"
  by (simp add: sched_Start_def SetThreadPoolSize_def)

end
