(* ===== verification/Async_Operation.thy ===== *)
theory Async_Operation
  imports Prelude
begin

section \<open>Asynchronous operations (\<^verbatim>\<open>async_operation_impl.hpp\<close>, \<^verbatim>\<open>async_utils.cpp\<close>)\<close>

text \<open>
  \<^verbatim>\<open>PromiseOperation<T>\<close>. The promise is \<open>None\<close> until it is set, then an exception (\<open>Inl\<close>) or a value (\<open>Inr\<close>);
  \<open>future_valid\<close> is \<^verbatim>\<open>future_.valid()\<close>, lost by \<^verbatim>\<open>get()\<close>. Callbacks are numbers, \<open>callback_log\<close> the sequence of calls of
  them. Every member function runs under \<^verbatim>\<open>mutex_\<close>. \<open>GetResult\<close> returns \<open>None\<close> where \<^verbatim>\<open>future_.get()\<close> blocks.
\<close>

datatype op_state = PENDING | RUNNING | COMPLETED | CANCELLED | FAILED

datatype 'e op_exception = Op_Exception 'e | Operation_Cancelled | Result_Not_Available

record ('e, 'v) promise_op =
  op_state :: op_state
  op_cancelled :: bool
  result_set :: bool
  promise :: "('e op_exception + 'v) option"
  future_valid :: bool
  completed_callback :: "nat option"
  cancelled_callback :: "nat option"
  stored_exception :: "'e op_exception option"
  callback_log :: "nat list"

definition op_new :: "('e, 'v) promise_op" where
  "op_new =
     \<lparr>op_state = PENDING, op_cancelled = False, result_set = False, promise = None, future_valid = True,
      completed_callback = None, cancelled_callback = None, stored_exception = None, callback_log = []\<rparr>"

definition call_back :: "nat option \<Rightarrow> ('e, 'v) promise_op \<Rightarrow> ('e, 'v) promise_op" where
  "call_back cb p = (case cb of None \<Rightarrow> p | Some i \<Rightarrow> p\<lparr>callback_log := callback_log p @ [i]\<rparr>)"

definition SetResult :: "'v \<Rightarrow> ('e, 'v) promise_op \<Rightarrow> ('e, 'v) promise_op" where
  "SetResult v p =
     (if result_set p then p
      else if promise p \<noteq> None then p
      else call_back (completed_callback p)
             (p\<lparr>promise := Some (Inr v), result_set := True, op_state := COMPLETED\<rparr>))"

definition SetException :: "'e \<Rightarrow> ('e, 'v) promise_op \<Rightarrow> ('e, 'v) promise_op" where
  "SetException e p =
     (if result_set p then p
      else if promise p \<noteq> None then p
      else call_back (completed_callback p)
             (p\<lparr>promise := Some (Inl (Op_Exception e)), stored_exception := Some (Op_Exception e), result_set := True,
                op_state := FAILED\<rparr>))"

definition IsCompleted :: "('e, 'v) promise_op \<Rightarrow> bool" where
  "IsCompleted p \<longleftrightarrow> op_state p = COMPLETED \<or> op_state p = FAILED"

definition IsCancelled :: "('e, 'v) promise_op \<Rightarrow> bool" where
  "IsCancelled p \<longleftrightarrow> op_state p = CANCELLED"

definition Cancel :: "('e, 'v) promise_op \<Rightarrow> ('e, 'v) promise_op \<times> bool" where
  "Cancel p =
     (if op_state p \<noteq> PENDING then (p, False)
      else (call_back (cancelled_callback p)
              (p\<lparr>op_cancelled := True, result_set := True, op_state := CANCELLED,
                 promise := (if promise p = None then Some (Inl Operation_Cancelled) else promise p)\<rparr>), True))"

definition SetOnCompleted :: "nat option \<Rightarrow> ('e, 'v) promise_op \<Rightarrow> ('e, 'v) promise_op" where
  "SetOnCompleted cb p =
     (let p' = p\<lparr>completed_callback := cb\<rparr> in if op_state p' \<noteq> PENDING then call_back cb p' else p')"

definition SetOnCancelled :: "nat option \<Rightarrow> ('e, 'v) promise_op \<Rightarrow> ('e, 'v) promise_op" where
  "SetOnCancelled cb p =
     (let p' = p\<lparr>cancelled_callback := cb\<rparr> in if op_state p' = CANCELLED then call_back cb p' else p')"

definition GetResult :: "('e, 'v) promise_op \<Rightarrow> (('e, 'v) promise_op \<times> ('e op_exception + 'v)) option" where
  "GetResult p =
     (if \<not> future_valid p then Some (p, Inl Result_Not_Available)
      else case promise p of None \<Rightarrow> None | Some r \<Rightarrow> Some (p\<lparr>future_valid := False\<rparr>, r))"

definition GetException :: "('e, 'v) promise_op \<Rightarrow> ('e, 'v) promise_op \<times> 'e op_exception option" where
  "GetException p =
     (case stored_exception p of
        Some e \<Rightarrow> (p, Some e)
      | None \<Rightarrow>
          if op_state p = FAILED
          then (case promise p of
                  Some (Inl e) \<Rightarrow> (p\<lparr>future_valid := False\<rparr>, Some (if future_valid p then e else Result_Not_Available))
                | _ \<Rightarrow> (p, None))
          else (p, None))"

definition op_destroy :: "('e, 'v) promise_op \<Rightarrow> ('e, 'v) promise_op" where
  "op_destroy p =
     (if op_state p = PENDING then p\<lparr>op_state := CANCELLED, op_cancelled := True, result_set := True\<rparr> else p)"

subsection \<open>Tracked operations\<close>

text \<open>
  \<^verbatim>\<open>ConnectionOperations\<close>: the operations tracked, in order, in a store of operations by address. \<open>WaitAll\<close>
  runs over the samples its loop takes: the number of tracked operations and the elapsed time at each round;
  \<open>None\<close> when the samples end before it returns.
\<close>

record ('e, 'v) conn_ops =
  op_store :: "nat \<Rightarrow> ('e, 'v) promise_op"
  pending_ops :: "nat list"

definition Track :: "nat \<Rightarrow> ('e, 'v) conn_ops \<Rightarrow> ('e, 'v) conn_ops" where
  "Track a c = c\<lparr>pending_ops := pending_ops c @ [a]\<rparr>"

definition Untrack :: "nat \<Rightarrow> ('e, 'v) conn_ops \<Rightarrow> ('e, 'v) conn_ops" where
  "Untrack a c = c\<lparr>pending_ops := remove1 a (pending_ops c)\<rparr>"

definition PendingCount :: "('e, 'v) conn_ops \<Rightarrow> nat" where
  "PendingCount c = length (pending_ops c)"

definition CancelAll :: "('e, 'v) conn_ops \<Rightarrow> ('e, 'v) conn_ops" where
  "CancelAll c =
     c\<lparr>op_store := fold (\<lambda>a st. st(a := fst (Cancel (st a)))) (pending_ops c) (op_store c), pending_ops := []\<rparr>"

fun WaitAll :: "nat \<Rightarrow> (nat \<times> nat) list \<Rightarrow> bool option" where
  "WaitAll timeout [] = None"
| "WaitAll timeout ((pending, elapsed) # samples) =
     (if pending = 0 then Some True else if timeout \<le> elapsed then Some False else WaitAll timeout samples)"

subsection \<open>The first outcome stays\<close>

datatype ('e, 'v) outcome = By_Result 'v | By_Exception 'e | By_Cancel

fun settle :: "('e, 'v) outcome \<Rightarrow> ('e, 'v) promise_op \<Rightarrow> ('e, 'v) promise_op" where
  "settle (By_Result v) p = SetResult v p"
| "settle (By_Exception e) p = SetException e p"
| "settle By_Cancel p = fst (Cancel p)"

definition op_inv :: "('e, 'v) promise_op \<Rightarrow> bool" where
  "op_inv p \<longleftrightarrow> (result_set p \<longleftrightarrow> op_state p \<noteq> PENDING) \<and> (promise p = None \<longleftrightarrow> op_state p = PENDING) \<and>
     (op_cancelled p \<longleftrightarrow> op_state p = CANCELLED) \<and>
     (stored_exception p \<noteq> None \<longleftrightarrow> op_state p = FAILED)"

lemma op_new_inv: "op_inv op_new"
  by (simp add: op_inv_def op_new_def)

lemma call_back_fields [simp]:
  "op_state (call_back cb p) = op_state p" "result_set (call_back cb p) = result_set p"
  "promise (call_back cb p) = promise p" "op_cancelled (call_back cb p) = op_cancelled p"
  "stored_exception (call_back cb p) = stored_exception p"
  "callback_log (call_back cb p) = callback_log p @ (case cb of None \<Rightarrow> [] | Some i \<Rightarrow> [i])"
  by (simp_all add: call_back_def split: option.split)

lemma settle_inv: "op_inv p \<Longrightarrow> op_inv (settle x p)"
  by (cases x) (auto simp: op_inv_def SetResult_def SetException_def Cancel_def)

lemma settle_done: "op_inv p \<Longrightarrow> op_state p \<noteq> PENDING \<Longrightarrow> settle x p = p"
  by (cases x) (auto simp: op_inv_def SetResult_def SetException_def Cancel_def)

lemma settle_not_pending: "op_inv p \<Longrightarrow> op_state (settle x p) \<noteq> PENDING"
  by (cases x) (auto simp: op_inv_def SetResult_def SetException_def Cancel_def)

lemma settle_all_done: "op_inv p \<Longrightarrow> op_state p \<noteq> PENDING \<Longrightarrow> fold settle xs p = p"
  by (induction xs) (simp_all add: settle_done)

subsection \<open>Properties\<close>

text \<open>
  C13: an asynchronous operation is settled once. Of all the results, exceptions and cancellations that
  threads deliver to a pending operation, in whatever order, the first one decides: state, future and callbacks
  are as after it alone. The future holds its outcome, and exactly the callback that belongs to it is called, once.
\<close>

theorem op_first_wins:
  assumes "op_inv p" and "op_state p = PENDING"
  shows "fold settle (x # xs) p = settle x p \<and>
    promise (settle x p) =
      Some (case x of By_Result v \<Rightarrow> Inr v | By_Exception e \<Rightarrow> Inl (Op_Exception e) | By_Cancel \<Rightarrow> Inl Operation_Cancelled) \<and>
    callback_log (settle x p) = callback_log p @
      (case (case x of By_Cancel \<Rightarrow> cancelled_callback p | _ \<Rightarrow> completed_callback p) of None \<Rightarrow> [] | Some i \<Rightarrow> [i])"
proof (intro conjI)
  show "fold settle (x # xs) p = settle x p"
    using settle_all_done [OF settle_inv [OF assms(1)] settle_not_pending [OF assms(1)]] by simp
  have p: "\<not> result_set p" "promise p = None" using assms by (auto simp: op_inv_def)
  show "promise (settle x p) =
      Some (case x of By_Result v \<Rightarrow> Inr v | By_Exception e \<Rightarrow> Inl (Op_Exception e) | By_Cancel \<Rightarrow> Inl Operation_Cancelled)"
    using p assms(2) by (cases x) (simp_all add: SetResult_def SetException_def Cancel_def)
  show "callback_log (settle x p) = callback_log p @
      (case (case x of By_Cancel \<Rightarrow> cancelled_callback p | _ \<Rightarrow> completed_callback p) of None \<Rightarrow> [] | Some i \<Rightarrow> [i])"
    using p assms(2) by (cases x) (simp_all add: SetResult_def SetException_def Cancel_def)
qed

theorem op_first_wins_witness:
  "let p = SetOnCompleted (Some 1) (SetOnCancelled (Some 2) (op_new :: (nat, nat) promise_op))
   in promise (fold settle [By_Cancel, By_Result 7] p) = Some (Inl Operation_Cancelled) \<and>
      callback_log (fold settle [By_Cancel, By_Result 7] p) = [2]"
proof -
  let ?p = "SetOnCompleted (Some 1) (SetOnCancelled (Some 2) (op_new :: (nat, nat) promise_op))"
  have "op_inv ?p" "op_state ?p = PENDING" "callback_log ?p = []" "cancelled_callback ?p = Some 2"
    by (simp_all add: op_inv_def SetOnCompleted_def SetOnCancelled_def op_new_def Let_def)
  with op_first_wins [of ?p By_Cancel "[By_Result 7]"] show ?thesis by (simp add: Let_def)
qed

text \<open>
  Whether a cancelled operation runs the completion callback depends on when it was set.
\<close>

lemma completion_after_cancel:
  assumes "op_inv p" and "op_state p = PENDING" and "cancelled_callback p = None"
  shows "callback_log (fst (Cancel (SetOnCompleted (Some i) p))) = callback_log p"
    and "callback_log (SetOnCompleted (Some i) (fst (Cancel p))) = callback_log p @ [i]"
  using assms by (simp_all add: SetOnCompleted_def Cancel_def Let_def call_back_def)

text \<open>Cancelling all tracked operations leaves none pending.\<close>

lemma CancelAll_settles:
  assumes "\<And>a. op_inv (op_store c a)" and "a \<in> set (pending_ops c)"
  shows "op_state (op_store (CancelAll c) a) \<noteq> PENDING"
proof -
  let ?f = "\<lambda>a st. st(a := settle By_Cancel (st a))"
  have "(\<forall>b. op_inv (fold ?f xs st b)) \<and> (\<forall>b. b \<in> set xs \<or> op_state (st b) \<noteq> PENDING \<longrightarrow> op_state (fold ?f xs st b) \<noteq> PENDING)"
    if "\<forall>b. op_inv (st b)" for xs st
    using that
  proof (induction xs arbitrary: st)
    case (Cons x xs)
    have "\<forall>b. op_inv ((st(x := settle By_Cancel (st x))) b)" using Cons.prems settle_inv [of "st x" By_Cancel] by simp
    from Cons.IH [OF this] Cons.prems show ?case
      using settle_not_pending [of "st x" By_Cancel] by auto
  qed simp
  from this [of "op_store c" "pending_ops c"] assms show ?thesis by (simp add: CancelAll_def)
qed

end
