(* ===== verification/Http_Server.thy ===== *)
theory Http_Server
  imports Tcp_Connection "HOL-Library.AList"
begin

section \<open>Connection manager and server\<close>

text \<open>
  \<^verbatim>\<open>DefaultConnectionManager\<close> (\<^verbatim>\<open>src/core/Connection/connection_manager.cpp\<close>) and \<^verbatim>\<open>HttpServer\<close>
  (\<^verbatim>\<open>src/application/http/http_server.cpp\<close>). Connections are shared objects: the field \<open>objects\<close> maps addresses to them,
  and the manager's table maps ids to addresses. The answers of \<^verbatim>\<open>select\<close> and \<^verbatim>\<open>accept\<close> are arguments, as are the
  results of creating the listening socket.
\<close>

record conn_manager =
  connections :: "(nat \<times> nat) list"
  next_id :: nat
  objects :: "nat \<Rightarrow> tcp"

definition manager_new :: "(nat \<Rightarrow> tcp) \<Rightarrow> conn_manager" where
  "manager_new heap = \<lparr>connections = [], next_id = 1, objects = heap\<rparr>"

definition GetConnection :: "nat \<Rightarrow> conn_manager \<Rightarrow> nat option" where
  "GetConnection i m = map_of (connections m) i"

definition HasConnection :: "nat \<Rightarrow> conn_manager \<Rightarrow> bool" where
  "HasConnection i m \<longleftrightarrow> i \<in> set (map fst (connections m))"

definition CreateConnection :: "bytes \<Rightarrow> u16 \<Rightarrow> conn_manager \<Rightarrow> nat option" where
  "CreateConnection host port m = None"

definition AcceptConnection :: "int \<Rightarrow> conn_manager \<Rightarrow> nat option" where
  "AcceptConnection fd m = None"

definition close_object :: "nat \<Rightarrow> conn_manager \<Rightarrow> conn_manager" where
  "close_object a m = m\<lparr>objects := (objects m)(a := tcp_Close (objects m a))\<rparr>"

definition CloseConnection :: "nat \<Rightarrow> conn_manager \<Rightarrow> conn_manager \<times> bool" where
  "CloseConnection i m =
     (case GetConnection i m of
        None \<Rightarrow> (m, False)
      | Some a \<Rightarrow> ((close_object a m)\<lparr>connections := AList.delete i (connections m)\<rparr>, True))"

definition CloseAllConnections :: "conn_manager \<Rightarrow> conn_manager" where
  "CloseAllConnections m = (fold close_object (map snd (connections m)) m)\<lparr>connections := []\<rparr>"

definition GetAllConnectionIds :: "conn_manager \<Rightarrow> nat list" where
  "GetAllConnectionIds m = map fst (connections m)"

definition GetConnectionCount :: "conn_manager \<Rightarrow> nat" where
  "GetConnectionCount m = length (connections m)"

definition RegisterConnection :: "nat \<Rightarrow> conn_manager \<Rightarrow> conn_manager" where
  "RegisterConnection a m =
     (let given = connection_id (objects m a);
          i = (if given = 0 then next_id m else given)
      in m\<lparr>next_id := (if given = 0 then next_id m + 1 else next_id m),
           objects := (objects m)(a := SetConnectionId i (objects m a)),
           connections := AList.update i a (connections m)\<rparr>)"

definition UnregisterConnection :: "nat \<Rightarrow> conn_manager \<Rightarrow> conn_manager" where
  "UnregisterConnection i m = m\<lparr>connections := AList.delete i (connections m)\<rparr>"

text \<open>The functions the file marks as placeholders: the lookups find nothing, the limits, time-outs and the heartbeat are not kept. Of the statistics
  only the number of connections is filled in.\<close>

definition find_connections :: "(tcp \<Rightarrow> bool) \<Rightarrow> conn_manager \<Rightarrow> nat list" where
  "find_connections wanted m = []"

definition set_limit :: "nat \<Rightarrow> conn_manager \<Rightarrow> conn_manager" where
  "set_limit n m = m"

definition get_limit :: "conn_manager \<Rightarrow> nat" where
  "get_limit m = 0"

record manager_stats =
  total_connections :: nat
  max_connections :: nat
  active_connections :: nat
  idle_connections :: nat
  state_counts :: "connection_state \<rightharpoonup> nat"

definition manager_GetStats :: "conn_manager \<Rightarrow> manager_stats" where
  "manager_GetStats m = \<lparr>total_connections = GetConnectionCount m, max_connections = 0, active_connections = 0, idle_connections = 0,
     state_counts = Map.empty\<rparr>"

subsection \<open>The server\<close>

record http_server =
  listen_fd :: int
  server_running :: bool
  manager :: conn_manager
  callbacks_bound :: "nat list"

datatype listen_error = Socket_Failed | Bind_Failed | Listen_Failed

definition createListeningSocket :: "listen_error + int \<Rightarrow> http_server \<Rightarrow> http_server \<times> bool" where
  "createListeningSocket answer h =
     (case answer of
        Inl e \<Rightarrow> (h\<lparr>listen_fd := - 1\<rparr>, False)
      | Inr fd \<Rightarrow> (h\<lparr>listen_fd := fd\<rparr>, True))"

definition server_Listen :: "listen_error + int \<Rightarrow> http_server \<Rightarrow> http_server" where
  "server_Listen answer h =
     (case createListeningSocket answer h of
        (h', ok) \<Rightarrow> if ok then h'\<lparr>server_running := True\<rparr> else h')"

definition server_Stop :: "http_server \<Rightarrow> http_server" where
  "server_Stop h = h\<lparr>server_running := False, listen_fd := (if 0 \<le> listen_fd h then - 1 else listen_fd h)\<rparr>"

definition onNewConnection :: "nat \<Rightarrow> http_server \<Rightarrow> http_server" where
  "onNewConnection a h = h\<lparr>callbacks_bound := callbacks_bound h @ [a]\<rparr>"

definition onError :: "nat \<Rightarrow> http_server \<Rightarrow> http_server" where
  "onError a h = h\<lparr>manager := close_object a (manager h)\<rparr>"

text \<open>The body of the loop for an accepted descriptor; \<open>a\<close> is the address of the new object.\<close>

definition accept_client :: "nat \<Rightarrow> int \<Rightarrow> nat \<Rightarrow> http_server \<Rightarrow> http_server" where
  "accept_client a client_fd now h =
     (let m = manager h;
          conn = SetConnectionId (GetConnectionCount m + 1) (tcp_accepted client_fd now);
          m' = RegisterConnection a (m\<lparr>objects := (objects m)(a := conn)\<rparr>)
      in onNewConnection a (h\<lparr>manager := m'\<rparr>))"

text \<open>
  One round of \<^verbatim>\<open>acceptLoop\<close> is decided by what \<^verbatim>\<open>select\<close> and \<^verbatim>\<open>accept\<close> answer. Between the rounds handlers
  close connections; \<open>Closed a\<close> is such a call.
\<close>

datatype server_event = Select_Failed | Select_Timeout | Accept_Failed | Client nat int nat | Closed nat

fun accept_round :: "server_event \<Rightarrow> http_server \<Rightarrow> http_server" where
  "accept_round Select_Failed h = h"
| "accept_round Select_Timeout h = h"
| "accept_round Accept_Failed h = h"
| "accept_round (Client a fd now) h = accept_client a fd now h"
| "accept_round (Closed a) h = onError a h"

definition acceptLoop :: "server_event list \<Rightarrow> http_server \<Rightarrow> http_server" where
  "acceptLoop evs h = (if listen_fd h < 0 \<or> \<not> server_running h then h else fold accept_round evs h)"

subsection \<open>The table of connections\<close>

text \<open>Ids given out by the accept loop: the table holds the ids 1 to n in order.\<close>

definition numbered :: "conn_manager \<Rightarrow> bool" where
  "numbered m \<longleftrightarrow> map fst (connections m) = [1..<Suc (length (connections m))]"

lemma AList_update_new: "k \<notin> set (map fst xs) \<Longrightarrow> AList.update k v xs = xs @ [(k, v)]"
  by (induction xs) auto

lemma accept_client_table:
  assumes "numbered (manager h)"
  shows "connections (manager (accept_client a fd now h)) =
      connections (manager h) @ [(Suc (length (connections (manager h))), a)]"
    and "numbered (manager (accept_client a fd now h))"
proof -
  let ?c = "connections (manager h)"
  have "Suc (length ?c) \<notin> set (map fst ?c)" using assms unfolding numbered_def by simp
  then show t: "connections (manager (accept_client a fd now h)) = ?c @ [(Suc (length ?c), a)]"
    by (simp add: accept_client_def onNewConnection_def RegisterConnection_def SetConnectionId_def GetConnectionCount_def
        AList_update_new Let_def)
  show "numbered (manager (accept_client a fd now h))"
    using assms unfolding numbered_def t by simp
qed

lemma length_delete:
  "distinct (map fst xs) \<Longrightarrow> k \<in> fst ` set xs \<Longrightarrow> Suc (length (AList.delete k xs)) = length xs"
proof (induction xs)
  case (Cons p xs)
  show ?case
  proof (cases "fst p = k")
    case True
    then have "AList.delete k xs = xs" using Cons.prems(1) by (intro delete_id) auto
    then show ?thesis using True by (cases p) simp
  next
    case False
    then show ?thesis using Cons by (cases p) auto
  qed
qed simp

fun clients :: "server_event list \<Rightarrow> nat list" where
  "clients [] = []"
| "clients (Client a fd now # evs) = a # clients evs"
| "clients (e # evs) = clients evs"

lemma accept_round_table:
  assumes "numbered (manager h)"
  shows "numbered (manager (accept_round e h)) \<and>
    map snd (connections (manager (accept_round e h))) = map snd (connections (manager h)) @ clients [e]"
  using assms accept_client_table [OF assms]
  by (cases e) (simp_all add: onError_def close_object_def numbered_def)

lemma accept_rounds_table:
  "numbered (manager h) \<Longrightarrow> numbered (manager (fold accept_round evs h)) \<and>
    map snd (connections (manager (fold accept_round evs h))) = map snd (connections (manager h)) @ clients evs"
proof (induction evs arbitrary: h)
  case (Cons e evs)
  from accept_round_table [OF Cons.prems, of e] Cons.IH [of "accept_round e h"]
  show ?case by (cases e) simp_all
qed simp

lemma numbered_lookup: "numbered m \<Longrightarrow> map_of (connections m) i =
    (if 0 < i \<and> i \<le> length (connections m) then Some (snd (connections m ! (i - 1))) else None)"
proof -
  assume n: "numbered m"
  let ?c = "connections m"
  have d: "distinct (map fst ?c)" using n by (simp add: numbered_def)
  show ?thesis
  proof (cases "0 < i \<and> i \<le> length ?c")
    case True
    then have lt: "i - 1 < length ?c" by linarith
    have "fst (?c ! (i - 1)) = map fst ?c ! (i - 1)" using lt by simp
    also have "\<dots> = i" using lt True n unfolding numbered_def by (simp del: upt_Suc)
    finally have "?c ! (i - 1) = (i, snd (?c ! (i - 1)))" by (metis prod.collapse)
    then have "(i, snd (?c ! (i - 1))) \<in> set ?c" using nth_mem [OF lt] by simp
    then show ?thesis using True d by simp
  next
    case False
    then have "i \<notin> set (map fst ?c)" using n unfolding numbered_def by auto
    then show ?thesis using False by (auto simp: map_of_eq_None_iff)
  qed
qed

subsection \<open>Properties\<close>


definition sample_server :: http_server where
  "sample_server = \<lparr>listen_fd = 3, server_running = True, manager = manager_new (\<lambda>_. tcp_new 0), callbacks_bound = []\<rparr>"


text \<open>
  After \<^verbatim>\<open>CloseConnection\<close> the next client takes the id of a live connection. The manager numbers a new
  connection by the size of its table plus one; when an earlier entry has been removed, that is the id of the last
  connection, which falls out of the table without being closed: no id leads to it any more.
\<close>

theorem server_close_drops:
  assumes "numbered (manager h)" and "distinct (map snd (connections (manager h)))"
    and "0 < i" and "i < length (connections (manager h))" and "a \<notin> set (map snd (connections (manager h)))"
  shows "(let n = length (connections (manager h));
              b = the (GetConnection n (manager h));
              m = manager (accept_client a fd now (h\<lparr>manager := fst (CloseConnection i (manager h))\<rparr>))
          in GetConnection n m = Some a \<and> (\<forall>j. GetConnection j m \<noteq> Some b) \<and> objects m b = objects (manager h) b)"
proof -
  let ?c = "connections (manager h)"
  let ?n = "length ?c"
  let ?b = "snd (?c ! (?n - 1))"
  let ?m = "manager (accept_client a fd now (h\<lparr>manager := fst (CloseConnection i (manager h))\<rparr>))"
  note look = numbered_lookup [OF assms(1)]
  have d: "distinct (map fst ?c)" using assms(1) by (simp add: numbered_def)
  have pos: "0 < ?n" using assms(4) by linarith
  have same: "j = k" if "j < ?n" "k < ?n" "snd (?c ! j) = snd (?c ! k)" for j k
    using that assms(2) by (metis (no_types, lifting) length_map nth_eq_iff_index_eq nth_map)
  have x: "GetConnection i (manager h) = Some (snd (?c ! (i - 1)))" and n: "GetConnection ?n (manager h) = Some ?b"
    using look [of i] look [of ?n] pos assms(3,4) by (simp_all add: GetConnection_def)
  have "i \<in> fst ` set ?c" using x by (metis GetConnection_def domI dom_map_of_conv_image_fst)
  then have len: "Suc (length (AList.delete i ?c)) = ?n" by (rule length_delete [OF d])
  have conns: "connections ?m = AList.update ?n a (AList.delete i ?c)"
    using x len
    by (simp add: CloseConnection_def close_object_def accept_client_def onNewConnection_def RegisterConnection_def
        SetConnectionId_def GetConnectionCount_def Let_def)
  have m: "GetConnection j ?m = (if j = ?n then Some a else if j = i then None else GetConnection j (manager h))" for j
    unfolding GetConnection_def conns by (simp add: update_conv' delete_conv')
  have inj: "j = ?n" if "GetConnection j (manager h) = Some ?b" for j
  proof -
    from that have j: "0 < j" "j \<le> ?n" "snd (?c ! (j - 1)) = ?b"
      by (auto simp: GetConnection_def look split: if_splits)
    then have "j - 1 < ?n" "?n - 1 < ?n" using pos by linarith+
    from same [OF this j(3)] j(1,2) pos show ?thesis by linarith
  qed
  have "?b \<in> set (map snd ?c)" using pos by (metis diff_less length_map nth_map nth_mem zero_less_one)
  moreover have "?b \<noteq> snd (?c ! (i - 1))" using same [of "?n - 1" "i - 1"] assms(3,4) pos by linarith
  ultimately have b: "?b \<noteq> a" "?b \<noteq> snd (?c ! (i - 1))" using assms(5) by metis+
  then have "objects ?m ?b = objects (manager h) ?b"
    using x by (simp add: CloseConnection_def close_object_def accept_client_def onNewConnection_def RegisterConnection_def Let_def)
  then show ?thesis using n m inj b assms(3,4) by (auto simp: Let_def)
qed

theorem server_close_drops_witness:
  "let h = acceptLoop [Client 100 7 0, Client 200 8 0] sample_server;
       m = manager (accept_client 300 9 0 (h\<lparr>manager := fst (CloseConnection 1 (manager h))\<rparr>))
   in GetConnection 2 (manager h) = Some 200 \<and> GetConnection 2 m = Some 300 \<and> (\<forall>j. GetConnection j m \<noteq> Some 200)"
proof -
  let ?h = "acceptLoop [Client 100 7 0, Client 200 8 0] sample_server"
  have "numbered (manager sample_server)" by (simp add: numbered_def sample_server_def manager_new_def)
  from accept_rounds_table [OF this, of "[Client 100 7 0, Client 200 8 0]"]
  have t: "numbered (manager ?h)" "map snd (connections (manager ?h)) = [100, 200]"
    by (simp_all add: acceptLoop_def sample_server_def manager_new_def del: fold.simps)
  from t(2) have len: "length (connections (manager ?h)) = 2"
    by (metis (no_types, lifting) length_map length_Cons list.size(3) numeral_2_eq_2)
  have two: "GetConnection 2 (manager ?h) = Some 200"
    using numbered_lookup [OF t(1), of 2] len t(2) by (metis (no_types, lifting) GetConnection_def One_nat_def diff_Suc_1 le_refl
      lessI length_map nth_Cons_0 nth_Cons_Suc nth_map numeral_2_eq_2 zero_less_Suc)
  from server_close_drops [OF t(1), of 1 300 9 0] t(2) len two show ?thesis by (simp add: Let_def)
qed

end
