(* ===== verification/Key_Store.thy ===== *)
theory Key_Store
  imports Main
begin

section \<open>Tables of values by key\<close>

text \<open>
  Several components keep a table that is read by key and changed one key at a time: the user data of a connection,
  the contexts of the poller. The locale states what a client of such a table relies on; the client lemma says that after any
  history of changes a key has the value of the latest change to it. \<open>ok\<close> is the invariant of the table's owner and \<open>key\<close>
  says for which keys the operations take effect.
\<close>

datatype ('k, 'v) store_change = Put 'k 'v | Remove 'k

fun changed_key :: "('k, 'v) store_change \<Rightarrow> 'k" where
  "changed_key (Put k v) = k"
| "changed_key (Remove k) = k"

fun changed_value :: "('k, 'v) store_change \<Rightarrow> 'v option" where
  "changed_value (Put k v) = Some v"
| "changed_value (Remove k) = None"

text \<open>The value of the first change to a key in a list, newest first; \<open>def\<close> if there is none.\<close>

fun latest :: "'k \<Rightarrow> 'v option \<Rightarrow> ('k, 'v) store_change list \<Rightarrow> 'v option" where
  "latest k def [] = def"
| "latest k def (c # cs) = (if changed_key c = k then changed_value c else latest k def cs)"

locale key_store =
  fixes get :: "'k \<Rightarrow> 's \<Rightarrow> 'v option"
    and put :: "'k \<Rightarrow> 'v \<Rightarrow> 's \<Rightarrow> 's"
    and remove :: "'k \<Rightarrow> 's \<Rightarrow> 's"
    and ok :: "'s \<Rightarrow> bool"
    and key :: "'k \<Rightarrow> bool"
  assumes get_put: "ok s \<Longrightarrow> key k \<Longrightarrow> get j (put k v s) = (if j = k then Some v else get j s)"
    and get_remove: "ok s \<Longrightarrow> key k \<Longrightarrow> get j (remove k s) = (if j = k then None else get j s)"
    and ok_put: "ok s \<Longrightarrow> ok (put k v s)"
    and ok_remove: "ok s \<Longrightarrow> ok (remove k s)"
begin

fun change :: "('k, 'v) store_change \<Rightarrow> 's \<Rightarrow> 's" where
  "change (Put k v) s = put k v s"
| "change (Remove k) s = remove k s"

lemma ok_change: "ok s \<Longrightarrow> ok (change c s)"
  by (cases c) (simp_all add: ok_put ok_remove)

lemma ok_changes: "ok s \<Longrightarrow> ok (fold change cs s)"
  by (induction cs arbitrary: s) (simp_all add: ok_change)

lemma get_change: "ok s \<Longrightarrow> key (changed_key c) \<Longrightarrow> get k (change c s) = (if changed_key c = k then changed_value c else get k s)"
  by (cases c) (simp_all add: get_put get_remove)

lemma get_latest:
  assumes "ok s" and "\<forall>c \<in> set cs. key (changed_key c)"
  shows "get k (fold change cs s) = latest k (get k s) (rev cs)"
  using assms(2)
proof (induction cs rule: rev_induct)
  case (snoc c cs)
  then show ?case using get_change [OF ok_changes [OF assms(1)]] by simp
qed simp

end

end
