(* ===== verification/Connection_Parts.thy ===== *)
theory Connection_Parts
  imports Tcp_Connection Key_Store
begin

section \<open>Parts of a connection (\<^verbatim>\<open>src/core/Connection/Component\<close>)\<close>

text \<open>
  The small classes beside the buffers: \<^verbatim>\<open>StateMachine\<close>, \<^verbatim>\<open>Statistics\<close>, \<^verbatim>\<open>Heartbeat\<close> and \<^verbatim>\<open>UserData\<close>. Every operation holds
  the lock of its object or works on atomics, so it is one function on the state. Times are numbers, and a
  \<^verbatim>\<open>std::any\<close> is a value of any type.
\<close>

subsection \<open>The state machine\<close>

definition sm_new :: connection_state where
  "sm_new = ST_DISCONNECTED"

definition SetConnecting :: "connection_state \<Rightarrow> connection_state \<times> bool" where
  "SetConnecting s = (if s = ST_DISCONNECTED then (ST_CONNECTING, True) else (s, False))"

definition SetConnected :: "connection_state \<Rightarrow> connection_state \<times> bool" where
  "SetConnected s = (if s = ST_CONNECTING \<or> s = ST_CONNECTED then (ST_CONNECTED, True) else (s, False))"

definition SetDisconnected :: "connection_state \<Rightarrow> connection_state" where
  "SetDisconnected s = ST_DISCONNECTED"

definition SetError :: "connection_state \<Rightarrow> connection_state" where
  "SetError s = ST_ERROR"

definition sm_IsConnected :: "connection_state \<Rightarrow> bool" where
  "sm_IsConnected s \<longleftrightarrow> s = ST_CONNECTED"

datatype sm_call = Do_Connecting | Do_Connected | Do_Disconnected | Do_Error

fun sm_run :: "sm_call \<Rightarrow> connection_state \<Rightarrow> connection_state" where
  "sm_run Do_Connecting s = fst (SetConnecting s)"
| "sm_run Do_Connected s = fst (SetConnected s)"
| "sm_run Do_Disconnected s = SetDisconnected s"
| "sm_run Do_Error s = SetError s"

lemmas sm_defs = SetConnecting_def SetConnected_def SetDisconnected_def SetError_def

text \<open>What the calls since the last reset amount to: \<open>established cs\<close> holds when a connection attempt that was
  allowed has succeeded and nothing has reset the machine since.\<close>

definition established :: "sm_call list \<Rightarrow> bool" where
  "established cs \<longleftrightarrow> (\<exists>xs ys zs. cs = xs @ Do_Connecting # ys @ Do_Connected # zs \<and>
     fold sm_run xs sm_new = ST_DISCONNECTED \<and> set (ys @ zs) \<inter> {Do_Disconnected, Do_Error} = {})"

definition attempted :: "sm_call list \<Rightarrow> bool" where
  "attempted cs \<longleftrightarrow> (\<exists>xs ys. cs = xs @ Do_Connecting # ys \<and> fold sm_run xs sm_new = ST_DISCONNECTED \<and>
     set ys \<inter> {Do_Disconnected, Do_Error} = {})"

lemma sm_quiet:
  "set cs \<inter> {Do_Disconnected, Do_Error} = {} \<Longrightarrow>
   (s = ST_CONNECTED \<longrightarrow> fold sm_run cs s = ST_CONNECTED) \<and> (s = ST_CONNECTING \<longrightarrow> fold sm_run cs s \<in> {ST_CONNECTING, ST_CONNECTED})"
proof (induction cs arbitrary: s)
  case (Cons c cs)
  then show ?case by (cases c) (auto simp: sm_defs)
qed simp

lemma attempted_more: "attempted cs \<Longrightarrow> c \<notin> {Do_Disconnected, Do_Error} \<Longrightarrow> attempted (cs @ [c])"
  unfolding attempted_def by (elim exE conjE, rule exI, rule_tac x = "ys @ [c]" in exI) auto

lemma established_more: "established cs \<Longrightarrow> c \<notin> {Do_Disconnected, Do_Error} \<Longrightarrow> established (cs @ [c])"
  unfolding established_def by (elim exE conjE, rule exI, rule exI, rule_tac x = "zs @ [c]" in exI) auto

lemma attempted_established: "attempted cs \<Longrightarrow> established (cs @ [Do_Connected])"
  unfolding attempted_def established_def by (elim exE conjE, rule exI, rule exI, rule exI [of _ "[]"]) auto

lemma sm_history:
  "(fold sm_run cs sm_new = ST_CONNECTING \<longrightarrow> attempted cs) \<and>
   (fold sm_run cs sm_new = ST_CONNECTED \<longrightarrow> established cs)"
proof (induction cs rule: rev_induct)
  case Nil
  show ?case by (simp add: sm_new_def)
next
  case (snoc c cs)
  let ?s = "fold sm_run cs sm_new"
  have "attempted (cs @ [Do_Connecting])" if "?s = ST_DISCONNECTED"
    using that unfolding attempted_def by (intro exI [of _ cs] exI [of _ "[]"]) simp
  then show ?case using snoc attempted_more [of cs c] established_more [of cs c] attempted_established [of cs]
    by (cases c; cases ?s) (simp_all add: sm_defs)
qed

text \<open>After any sequence of calls the machine says it is connected exactly if, since the last time it was disconnected, an
  accepted \<^verbatim>\<open>SetConnecting\<close> was followed by a \<^verbatim>\<open>SetConnected\<close>, and no error or disconnection came after; after an error
  only \<^verbatim>\<open>SetDisconnected\<close> makes a new attempt possible.\<close>

theorem sm_connected_iff:
  "sm_IsConnected (fold sm_run cs sm_new) = established cs \<and>
   (Do_Disconnected \<notin> set ds \<longrightarrow> fold sm_run (cs @ [Do_Error] @ ds) sm_new = ST_ERROR)"
proof (intro conjI impI)
  have "fold sm_run cs sm_new = ST_CONNECTED" if "established cs"
  proof -
    from that obtain xs ys zs where cs: "cs = xs @ Do_Connecting # ys @ Do_Connected # zs"
      and "fold sm_run xs sm_new = ST_DISCONNECTED" and q: "set (ys @ zs) \<inter> {Do_Disconnected, Do_Error} = {}"
      unfolding established_def by blast
    then have "fold sm_run (xs @ [Do_Connecting]) sm_new = ST_CONNECTING" by (simp add: sm_defs)
    then have "fold sm_run ys (fold sm_run (xs @ [Do_Connecting]) sm_new) \<in> {ST_CONNECTING, ST_CONNECTED}"
      using sm_quiet [of ys ST_CONNECTING] q by auto
    then have "sm_run Do_Connected (fold sm_run ys (fold sm_run (xs @ [Do_Connecting]) sm_new)) = ST_CONNECTED"
      by (auto simp: sm_defs)
    then show ?thesis using sm_quiet [of zs ST_CONNECTED] q by (auto simp: cs)
  qed
  then show "sm_IsConnected (fold sm_run cs sm_new) = established cs" using sm_history by (auto simp: sm_IsConnected_def)
next
  assume "Do_Disconnected \<notin> set ds"
  then have "fold sm_run ds ST_ERROR = ST_ERROR"
  proof (induction ds)
    case (Cons d ds)
    then show ?case by (cases d) (auto simp: sm_defs)
  qed simp
  then show "fold sm_run (cs @ [Do_Error] @ ds) sm_new = ST_ERROR" by (simp add: sm_defs)
qed

theorem sm_connected_iff_witness:
  "fold sm_run ([Do_Connecting] @ [Do_Error] @ [Do_Connecting, Do_Connected]) sm_new = ST_ERROR"
  using sm_connected_iff [of "[Do_Connecting]" "[Do_Connecting, Do_Connected]"] by simp

subsection \<open>Statistics\<close>

record conn_statistics =
  stat_bytes_sent :: u64
  stat_bytes_received :: u64
  total_ops :: u64
  stat_connect_time :: nat
  stat_last_activity :: nat

definition statistics_new :: "nat \<Rightarrow> conn_statistics" where
  "statistics_new now = \<lparr>stat_bytes_sent = 0, stat_bytes_received = 0, total_ops = 0, stat_connect_time = now, stat_last_activity = now\<rparr>"

definition RecordSent :: "u64 \<Rightarrow> conn_statistics \<Rightarrow> conn_statistics" where
  "RecordSent n s = s\<lparr>stat_bytes_sent := stat_bytes_sent s + n, total_ops := total_ops s + 1\<rparr>"

definition RecordReceived :: "u64 \<Rightarrow> conn_statistics \<Rightarrow> conn_statistics" where
  "RecordReceived n s = s\<lparr>stat_bytes_received := stat_bytes_received s + n, total_ops := total_ops s + 1\<rparr>"

definition UpdateActivity :: "nat \<Rightarrow> conn_statistics \<Rightarrow> conn_statistics" where
  "UpdateActivity now s = s\<lparr>stat_last_activity := now\<rparr>"

definition SetConnectTime :: "nat \<Rightarrow> conn_statistics \<Rightarrow> conn_statistics" where
  "SetConnectTime t s = s\<lparr>stat_connect_time := t\<rparr>"

datatype stat_call = Stat_Sent u64 | Stat_Received u64 | Stat_Activity nat | Stat_Connect nat

fun stat_run :: "stat_call \<Rightarrow> conn_statistics \<Rightarrow> conn_statistics" where
  "stat_run (Stat_Sent n) s = RecordSent n s"
| "stat_run (Stat_Received n) s = RecordReceived n s"
| "stat_run (Stat_Activity t) s = UpdateActivity t s"
| "stat_run (Stat_Connect t) s = SetConnectTime t s"

fun sent_of :: "stat_call \<Rightarrow> nat" where
  "sent_of (Stat_Sent n) = unat n"
| "sent_of _ = 0"

fun received_of :: "stat_call \<Rightarrow> nat" where
  "received_of (Stat_Received n) = unat n"
| "received_of _ = 0"

fun is_operation :: "stat_call \<Rightarrow> bool" where
  "is_operation (Stat_Sent n) = True"
| "is_operation (Stat_Received n) = True"
| "is_operation _ = False"

text \<open>The counters are the sums modulo \<open>2 ^ 64\<close>; below that they are exact.\<close>

lemma stat_counters:
  "stat_bytes_sent (fold stat_run cs (statistics_new t)) = of_nat (sum_list (map sent_of cs)) \<and>
   stat_bytes_received (fold stat_run cs (statistics_new t)) = of_nat (sum_list (map received_of cs)) \<and>
   total_ops (fold stat_run cs (statistics_new t)) = of_nat (length (filter is_operation cs))"
proof (induction cs rule: rev_induct)
  case Nil
  show ?case by (simp add: statistics_new_def)
next
  case (snoc c cs)
  then show ?case
    by (cases c) (simp_all add: RecordSent_def RecordReceived_def UpdateActivity_def SetConnectTime_def)
qed

subsection \<open>Heartbeat and user data\<close>

definition Heartbeat_Update :: "nat \<Rightarrow> nat \<Rightarrow> nat" where
  "Heartbeat_Update now last_beat = now"

definition IsExpired :: "nat \<Rightarrow> nat \<Rightarrow> nat \<Rightarrow> bool" where
  "IsExpired timeout now last_beat \<longleftrightarrow> int now - int last_beat > int timeout"

type_synonym 'v user_data = "bytes \<Rightarrow> 'v option"

definition ud_Set :: "bytes \<Rightarrow> 'v \<Rightarrow> 'v user_data \<Rightarrow> 'v user_data" where
  "ud_Set k v d = d(k \<mapsto> v)"

definition ud_Get :: "bytes \<Rightarrow> 'v user_data \<Rightarrow> 'v option" where
  "ud_Get k d = d k"

definition ud_Has :: "bytes \<Rightarrow> 'v user_data \<Rightarrow> bool" where
  "ud_Has k d \<longleftrightarrow> d k \<noteq> None"

definition ud_Remove :: "bytes \<Rightarrow> 'v user_data \<Rightarrow> 'v user_data" where
  "ud_Remove k d = d(k := None)"

lemma heartbeat_window: "IsExpired timeout now (Heartbeat_Update t b) \<longleftrightarrow> t + timeout < now"
  by (auto simp: IsExpired_def Heartbeat_Update_def)

lemma ud_Has_Get: "ud_Has k d \<longleftrightarrow> ud_Get k d \<noteq> None"
  by (simp add: ud_Has_def ud_Get_def)

interpretation ud: key_store ud_Get ud_Set ud_Remove "\<lambda>d. True" "\<lambda>k. True"
  by unfold_locales (simp_all add: ud_Get_def ud_Set_def ud_Remove_def)

text \<open>The connection of \<open>Tcp_Connection\<close> keeps its user data the same way.\<close>

interpretation tud: key_store "\<lambda>k t. user_data t k" SetUserData RemoveUserData "\<lambda>t. True" "\<lambda>k. True"
  by unfold_locales (simp_all add: SetUserData_def RemoveUserData_def)

text \<open>The two tables agree: the same changes give the same values.\<close>

lemma user_data_same:
  "ud_Get k (fold ud.change cs (\<lambda>k. None)) = user_data (fold tud.change cs (tcp_new t)) k"
proof -
  have "user_data (tcp_new t) k = None" by (simp add: tcp_new_def)
  then show ?thesis using ud.get_latest [where s = "\<lambda>k. None" and cs = cs and k = k]
      tud.get_latest [where s = "tcp_new t" and cs = cs and k = k] by (simp add: ud_Get_def)
qed

end
