(* ===== verification/Net_Address.thy ===== *)
theory Net_Address
  imports Cpp_String
begin

section \<open>Network addresses (\<^verbatim>\<open>src/core/net/address.cpp\<close>, \<^verbatim>\<open>io_handler.cpp\<close>)\<close>

text \<open>
  \<^verbatim>\<open>NetAddress\<close> holds one of the two socket address structures of the C library. The four bytes of an IPv4 address are kept
  in memory order, the sixteen of an IPv6 address as one word; ports are in network order inside the structures.
  \<^verbatim>\<open>inet_pton\<close> and \<^verbatim>\<open>inet_ntop\<close> for IPv4 are modelled (at most three digits per part, no leading zero, four parts); for IPv6
  they are the arguments \<open>pton6\<close> and \<open>ntop6\<close>. The exceptions of \<^verbatim>\<open>from_ip_port\<close> and \<^verbatim>\<open>from_hostname\<close> are the left
  values of a sum; \<open>Addr_Undefined\<close> is \<^verbatim>\<open>front()\<close> of an empty string.
\<close>

unbundle bit_operations_syntax

datatype Family = IPv4 | IPv6 | Unix

type_synonym quad = "byte \<times> byte \<times> byte \<times> byte"

record sockaddr_in =
  sin_family :: u16
  sin_port :: u16
  sin_addr :: quad

record sockaddr_in6 =
  sin6_family :: u16
  sin6_port :: u16
  sin6_addr :: "128 word"

datatype net_address = Addr_In sockaddr_in | Addr_In6 sockaddr_in6

datatype addr_error = Addr_Format | Addr_Undefined | Addr_Stoi conv_error | Addr_Invalid

abbreviation (input) AF_INET :: u16 where "AF_INET \<equiv> 2"
abbreviation (input) AF_INET6 :: u16 where "AF_INET6 \<equiv> 10"

definition INADDR_ANY :: quad where
  "INADDR_ANY = (0, 0, 0, 0)"

definition htons :: "u16 \<Rightarrow> u16" where
  "htons p = push_bit 8 p OR drop_bit 8 p"

fun pton4_loop :: "nat list \<Rightarrow> nat option \<Rightarrow> bytes \<Rightarrow> nat list option" where
  "pton4_loop parts None [] = None"
| "pton4_loop parts (Some v) [] = (if length parts = 3 then Some (parts @ [v]) else None)"
| "pton4_loop parts cur (c # cs) =
     (if is_digit c then
        (case cur of
           None \<Rightarrow> if 4 \<le> length parts then None else pton4_loop parts (Some (unat c - 48)) cs
         | Some v \<Rightarrow> if v = 0 \<or> 255 < 10 * v + (unat c - 48) then None
                     else pton4_loop parts (Some (10 * v + (unat c - 48))) cs)
      else if c = 46 then
        (case cur of
           None \<Rightarrow> None
         | Some v \<Rightarrow> if length parts = 3 then None else pton4_loop (parts @ [v]) None cs)
      else None)"

definition pton4 :: "bytes \<Rightarrow> quad option" where
  "pton4 s = (case pton4_loop [] None s of
     Some [a, b, c, d] \<Rightarrow> Some (of_nat a, of_nat b, of_nat c, of_nat d)
   | _ \<Rightarrow> None)"

definition ntop4 :: "quad \<Rightarrow> bytes" where
  "ntop4 q = (case q of (a, b, c, d) \<Rightarrow>
     nat_digits (unat a) @ 46 # nat_digits (unat b) @ 46 # nat_digits (unat c) @ 46 # nat_digits (unat d))"

subsection \<open>The class\<close>

definition addr_default :: net_address where
  "addr_default = Addr_In \<lparr>sin_family = AF_INET, sin_port = 0, sin_addr = INADDR_ANY\<rparr>"

definition addr_of_port :: "u16 \<Rightarrow> net_address" where
  "addr_of_port p = Addr_In \<lparr>sin_family = AF_INET, sin_port = htons p, sin_addr = INADDR_ANY\<rparr>"

definition addr_of_ip_port :: "bytes \<Rightarrow> u16 \<Rightarrow> net_address" where
  "addr_of_ip_port ip p =
     Addr_In \<lparr>sin_family = AF_INET, sin_port = htons p,
       sin_addr = (case pton4 (c_text ip) of Some q \<Rightarrow> q | None \<Rightarrow> INADDR_ANY)\<rparr>"

fun family :: "net_address \<Rightarrow> Family" where
  "family (Addr_In a) = IPv4"
| "family (Addr_In6 a) = IPv6"

fun addr_ip :: "(128 word \<Rightarrow> bytes) \<Rightarrow> net_address \<Rightarrow> bytes" where
  "addr_ip ntop6 (Addr_In a) = ntop4 (sin_addr a)"
| "addr_ip ntop6 (Addr_In6 a) = ntop6 (sin6_addr a)"

fun addr_port :: "net_address \<Rightarrow> u16" where
  "addr_port (Addr_In a) = htons (sin_port a)"
| "addr_port (Addr_In6 a) = htons (sin6_port a)"

definition addr_to_string :: "(128 word \<Rightarrow> bytes) \<Rightarrow> net_address \<Rightarrow> bytes" where
  "addr_to_string ntop6 a =
     (case family a of
        IPv4 \<Rightarrow> addr_ip ntop6 a @ 58 # to_string (uint (addr_port a))
      | IPv6 \<Rightarrow> 91 # addr_ip ntop6 a @ 93 # 58 # to_string (uint (addr_port a))
      | Unix \<Rightarrow> str ''unix'')"

fun sockaddr_len :: "net_address \<Rightarrow> nat" where
  "sockaddr_len (Addr_In a) = 16"
| "sockaddr_len (Addr_In6 a) = 28"

definition parse_ip :: "(bytes \<Rightarrow> 128 word option) \<Rightarrow> bytes \<Rightarrow> u16 \<Rightarrow> addr_error + net_address" where
  "parse_ip pton6 ip p =
     (case pton4 (c_text ip) of
        Some q \<Rightarrow> Inr (Addr_In \<lparr>sin_family = AF_INET, sin_port = htons p, sin_addr = q\<rparr>)
      | None \<Rightarrow> (case pton6 (c_text ip) of
            Some x \<Rightarrow> Inr (Addr_In6 \<lparr>sin6_family = AF_INET6, sin6_port = htons p, sin6_addr = x\<rparr>)
          | None \<Rightarrow> Inl Addr_Invalid))"

definition from_ip_port :: "(bytes \<Rightarrow> 128 word option) \<Rightarrow> bytes \<Rightarrow> addr_error + net_address" where
  "from_ip_port pton6 ip_port =
     (case find_last_of 58 ip_port of
        None \<Rightarrow> Inl Addr_Format
      | Some i \<Rightarrow>
          let ip = substr ip_port 0 i; port_str = drop (i + 1) ip_port
          in if ip = [] then Inl Addr_Undefined
             else let ip2 = (if hd ip = 91 \<and> last ip = 93 then substr ip 1 (length ip - 2) else ip)
                  in case stoi port_str of
                       Inl e \<Rightarrow> Inl (Addr_Stoi e)
                     | Inr n \<Rightarrow> parse_ip pton6 ip2 (of_int n))"

definition from_hostname :: "(bytes \<Rightarrow> 128 word option) \<Rightarrow> bytes \<Rightarrow> u16 \<Rightarrow> addr_error + net_address" where
  "from_hostname pton6 hostname p = parse_ip pton6 hostname p"

fun addr_eq :: "net_address \<Rightarrow> net_address \<Rightarrow> bool" where
  "addr_eq (Addr_In a) (Addr_In b) \<longleftrightarrow> sin_addr a = sin_addr b \<and> sin_port a = sin_port b"
| "addr_eq (Addr_In6 a) (Addr_In6 b) \<longleftrightarrow> sin6_addr a = sin6_addr b \<and> sin6_port a = sin6_port b"
| "addr_eq _ _ \<longleftrightarrow> False"

subsection \<open>The address structure of the I/O handler\<close>

definition FromIpPort :: "bytes \<Rightarrow> u16 \<Rightarrow> sockaddr_in" where
  "FromIpPort ip p =
     \<lparr>sin_family = AF_INET, sin_port = htons p,
      sin_addr = (if ip = [] \<or> ip = str ''0.0.0.0'' then INADDR_ANY
                  else case pton4 (c_text ip) of Some q \<Rightarrow> q | None \<Rightarrow> INADDR_ANY)\<rparr>"

definition GetIp :: "sockaddr_in \<Rightarrow> bytes" where
  "GetIp a = ntop4 (sin_addr a)"

definition GetPort :: "sockaddr_in \<Rightarrow> u16" where
  "GetPort a = htons (sin_port a)"

definition sa_ToString :: "sockaddr_in \<Rightarrow> bytes" where
  "sa_ToString a = ntop4 (sin_addr a) @ 58 # to_string (uint (htons (sin_port a)))"

text \<open>\<^verbatim>\<open>socket.cpp\<close> turns every address into an IPv4 structure through its printed form; \<open>None\<close> is failure with \<^verbatim>\<open>EINVAL\<close>.\<close>

definition netaddress_to_sockaddr_in :: "(128 word \<Rightarrow> bytes) \<Rightarrow> net_address \<Rightarrow> sockaddr_in option" where
  "netaddress_to_sockaddr_in ntop6 a =
     (let ip = addr_ip ntop6 a; sa = \<lparr>sin_family = AF_INET, sin_port = htons (addr_port a), sin_addr = INADDR_ANY\<rparr>
      in if ip = [] \<or> ip = str ''0.0.0.0'' then Some sa
         else case pton4 (c_text ip) of
                Some q \<Rightarrow> Some (sa\<lparr>sin_addr := q\<rparr>)
              | None \<Rightarrow> None)"

subsection \<open>Printing and reading IPv4 addresses\<close>

lemma htons_htons [simp]: "htons (htons p) = p"
  unfolding htons_def
  by (rule bit_word_eqI) (auto simp: bit_or_iff bit_push_bit_iff bit_drop_bit_eq dest: bit_imp_le_length)

lemma pton4_loop_digits:
  "n < 256 \<Longrightarrow> length parts < 4 \<Longrightarrow> pton4_loop parts None (nat_digits n @ t) = pton4_loop parts (Some n) t"
proof (induction n arbitrary: t rule: nat_digits.induct)
  case (1 n)
  show ?case
  proof (cases "n < 10")
    case True
    then show ?thesis using 1(3) is_digit_of_nat [of n] unat_digit [of n] by (simp add: nat_digits.simps del: of_nat_add)
  next
    case False
    have "pton4_loop parts None (nat_digits n @ t) =
        pton4_loop parts (Some (n div 10)) (of_nat (48 + n mod 10) # t)"
      using False 1(1) [of "of_nat (48 + n mod 10) # t"] 1(2,3) by (subst nat_digits.simps) simp
    also have "\<dots> = pton4_loop parts (Some n) t"
      using False 1(2) is_digit_of_nat [of "n mod 10"] unat_digit [of "n mod 10"]
      by (simp add: div_eq_0_iff del: of_nat_add)
    finally show ?thesis .
  qed
qed

lemma pton4_ntop4 [simp]: "pton4 (ntop4 q) = Some q"
proof -
  obtain a b c d where q: "q = (a, b, c, d)" by (cases q)
  have lt: "unat x < 256" for x :: byte using unsigned_less [of x] by simp
  have dot: "\<not> is_digit 46" by (simp add: is_digit_def)
  have "pton4_loop [] None (ntop4 q) = Some [unat a, unat b, unat c, unat d]"
    using pton4_loop_digits [OF lt, of _ d "[]"]
    by (simp add: q ntop4_def pton4_loop_digits lt dot)
  then show ?thesis by (simp add: pton4_def q)
qed

lemma pton4_loop_colon: "58 \<in> set s \<Longrightarrow> pton4_loop parts cur s = None"
  by (induction parts cur s rule: pton4_loop.induct) (auto simp: is_digit_def split: option.splits)

lemma pton4_colon: "58 \<in> set s \<Longrightarrow> pton4 s = None"
  by (simp add: pton4_def pton4_loop_colon)

lemma digit_range: "is_digit c \<Longrightarrow> c \<noteq> 0 \<and> c \<noteq> 58 \<and> c \<noteq> 91 \<and> c \<noteq> 46"
  by (auto simp: is_digit_def)

lemma nat_digits_chars: "c \<in> set (nat_digits n) \<Longrightarrow> c \<noteq> 0 \<and> c \<noteq> 58 \<and> c \<noteq> 91"
  using nat_digits_are_digits [of n] digit_range by blast

lemma ntop4_chars: "c \<in> set (ntop4 q) \<Longrightarrow> c \<noteq> 0 \<and> c \<noteq> 58 \<and> c \<noteq> 91"
  using nat_digits_chars by (auto simp: ntop4_def split: prod.splits)

lemma ntop4_not_Nil [simp]: "ntop4 q \<noteq> []"
  by (simp add: ntop4_def split: prod.split)

lemma ntop4_c_text [simp]: "c_text (ntop4 q) = ntop4 q"
  using ntop4_chars by (intro c_text_id) blast

lemma to_string_no_colon: "58 \<notin> set (to_string n)"
  using to_string_chars [of 58 n] digit_range by auto

subsection \<open>Reading an address with its port\<close>

lemma from_ip_port_parse:
  assumes "- (2 ^ 31) \<le> n" and "n < 2 ^ 31" and "ip \<noteq> []"
  shows "from_ip_port pton6 (ip @ 58 # to_string n) =
    parse_ip pton6 (if hd ip = 91 \<and> last ip = 93 then substr ip 1 (length ip - 2) else ip) (of_int n)"
  using assms by (simp add: from_ip_port_def find_last_of_app to_string_no_colon substr_def stoi_to_string Let_def)

lemma from_ip_port_v4:
  assumes "- (2 ^ 31) \<le> n" and "n < 2 ^ 31"
  shows "from_ip_port pton6 (ntop4 q @ 58 # to_string n) =
    Inr (Addr_In \<lparr>sin_family = AF_INET, sin_port = htons (of_int n), sin_addr = q\<rparr>)"
proof -
  have "hd (ntop4 q) \<noteq> 91" using ntop4_chars [OF hd_in_set [OF ntop4_not_Nil]] by simp
  then show ?thesis using assms by (simp add: from_ip_port_parse parse_ip_def)
qed

lemma from_ip_port_v6:
  assumes "- (2 ^ 31) \<le> n" and "n < 2 ^ 31" and "pton6 s = Some x" and "58 \<in> set s" and "0 \<notin> set s"
  shows "from_ip_port pton6 ((91 # s @ [93]) @ 58 # to_string n) =
    Inr (Addr_In6 \<lparr>sin6_family = AF_INET6, sin6_port = htons (of_int n), sin6_addr = x\<rparr>)"
  using assms by (subst from_ip_port_parse) (simp_all add: parse_ip_def substr_def c_text_id pton4_colon)

lemma uint_port: "- (2 ^ 31) \<le> uint (p :: u16)" "uint (p :: u16) < 2 ^ 31"
  by (rule order_trans [OF _ uint_ge_0]) (use uint_lt2p [of p] in simp_all)

text \<open>C26: Printing an address with \<^verbatim>\<open>to_string\<close> and reading it back with \<^verbatim>\<open>from_ip_port\<close> gives an equal address of the
  same family, for every IPv4 and IPv6 address and every port, provided \<^verbatim>\<open>inet_pton\<close> reads back what \<^verbatim>\<open>inet_ntop\<close>
  prints for IPv6 and that text contains a colon and no zero byte.\<close>

theorem address_roundtrip:
  assumes "\<And>x. pton6 (ntop6 x) = Some x" and "\<And>x. 58 \<in> set (ntop6 x)" and "\<And>x. 0 \<notin> set (ntop6 x)"
  shows "\<exists>b. from_ip_port pton6 (addr_to_string ntop6 a) = Inr b \<and> addr_eq a b \<and> family b = family a"
proof (cases a)
  case (Addr_In s)
  then show ?thesis using from_ip_port_v4 [OF uint_port] by (simp add: addr_to_string_def)
next
  case (Addr_In6 s)
  then show ?thesis
    using from_ip_port_v6 [of "uint (htons (sin6_port s))" pton6 "ntop6 (sin6_addr s)" "sin6_addr s", OF uint_port assms]
    by (simp add: addr_to_string_def)
qed

definition ntop6_plain :: "128 word \<Rightarrow> bytes" where
  "ntop6_plain x = 58 # 58 # nat_digits (unat x)"

definition pton6_plain :: "bytes \<Rightarrow> 128 word option" where
  "pton6_plain s = Some (of_nat (digits_value (drop 2 s)))"

theorem address_roundtrip_witness:
  "\<exists>b. from_ip_port pton6_plain (addr_to_string ntop6_plain
      (Addr_In6 \<lparr>sin6_family = AF_INET6, sin6_port = htons 8080, sin6_addr = 1\<rparr>)) = Inr b \<and> addr_port b = 8080"
proof -
  have "0 \<notin> set (ntop6_plain x)" for x using nat_digits_chars [of 0] by (auto simp: ntop6_plain_def)
  moreover have "pton6_plain (ntop6_plain x) = Some x" "58 \<in> set (ntop6_plain x)" for x
    by (simp_all add: ntop6_plain_def pton6_plain_def nat_digits_value)
  ultimately obtain b where b: "from_ip_port pton6_plain (addr_to_string ntop6_plain
      (Addr_In6 \<lparr>sin6_family = AF_INET6, sin6_port = htons 8080, sin6_addr = 1\<rparr>)) = Inr b"
    "addr_eq (Addr_In6 \<lparr>sin6_family = AF_INET6, sin6_port = htons 8080, sin6_addr = 1\<rparr>) b"
    using address_roundtrip [of pton6_plain ntop6_plain
        "Addr_In6 \<lparr>sin6_family = AF_INET6, sin6_port = htons 8080, sin6_addr = 1\<rparr>"] by auto
  then show ?thesis by (cases b) (auto dest: arg_cong [of _ _ htons])
qed

text \<open>C0: \<^verbatim>\<open>from_ip_port\<close> does not check the range of the port: any integer that \<^verbatim>\<open>stoi\<close> accepts is taken modulo
  \<open>65536\<close>, negative ones included.\<close>

theorem address_port_wraps:
  assumes "- (2 ^ 31) \<le> n" and "n < 2 ^ 31"
  shows "\<exists>b. from_ip_port pton6 (ntop4 q @ 58 # to_string n) = Inr b \<and> family b = IPv4 \<and>
    addr_ip ntop6 b = ntop4 q \<and> uint (addr_port b) = n mod 65536"
  using from_ip_port_v4 [OF assms] by (simp add: uint_word_of_int)

theorem address_port_wraps_witness:
  "\<exists>b. from_ip_port (\<lambda>s. None) (ntop4 (127, 0, 0, 1) @ 58 # to_string 65616) = Inr b \<and> uint (addr_port b) = 80"
  using address_port_wraps [of 65616 "\<lambda>s. None" "(127, 0, 0, 1)" "\<lambda>x. []"] by auto

text \<open>An IPv4 address survives the conversion of \<^verbatim>\<open>socket.cpp\<close>; an IPv6 address never does.\<close>

lemma to_sockaddr_v4: "netaddress_to_sockaddr_in ntop6 (Addr_In a) =
    Some \<lparr>sin_family = AF_INET, sin_port = sin_port a, sin_addr = sin_addr a\<rparr>"
proof (cases "ntop4 (sin_addr a) = str ''0.0.0.0''")
  case True
  have "ntop4 INADDR_ANY = str ''0.0.0.0''" by (simp add: ntop4_def INADDR_ANY_def str_simps nat_digits.simps)
  then have "sin_addr a = INADDR_ANY" using True pton4_ntop4 by (metis option.inject)
  then show ?thesis using True by (simp add: netaddress_to_sockaddr_in_def)
next
  case False
  then show ?thesis by (simp add: netaddress_to_sockaddr_in_def)
qed

lemma to_sockaddr_v6:
  "58 \<in> set (ntop6 (sin6_addr a)) \<Longrightarrow> 0 \<notin> set (ntop6 (sin6_addr a)) \<Longrightarrow>
   netaddress_to_sockaddr_in ntop6 (Addr_In6 a) = None"
proof -
  assume col: "58 \<in> set (ntop6 (sin6_addr a))" and nz: "0 \<notin> set (ntop6 (sin6_addr a))"
  have "58 \<notin> set (str ''0.0.0.0'')" by (simp add: str_simps)
  then have "ntop6 (sin6_addr a) \<noteq> [] \<and> ntop6 (sin6_addr a) \<noteq> str ''0.0.0.0''" using col by auto
  then show ?thesis using col nz by (simp add: netaddress_to_sockaddr_in_def c_text_id pton4_colon)
qed

lemma FromIpPort_GetIp: "FromIpPort (GetIp a) (GetPort a) = \<lparr>sin_family = AF_INET, sin_port = sin_port a, sin_addr = sin_addr a\<rparr>"
proof -
  have "FromIpPort (GetIp a) (GetPort a) = the (netaddress_to_sockaddr_in (\<lambda>x. []) (Addr_In a))"
    by (simp add: FromIpPort_def GetIp_def GetPort_def netaddress_to_sockaddr_in_def)
  then show ?thesis unfolding to_sockaddr_v4 by simp
qed

end
