(* ===== verification/Net_Socket.thy ===== *)
theory Net_Socket
  imports Net_Address
begin

section \<open>Sockets (\<^verbatim>\<open>src/core/net/socket.cpp\<close>)\<close>

text \<open>
  \<^verbatim>\<open>SocketImpl\<close> wraps a file descriptor. The operations of the I/O handler, which only hand system calls on, are
  arguments: functions of the descriptor and the data passed whose result is an \<^verbatim>\<open>errno\<close> or a value. A result of \<open>-1\<close> for
  the counting calls is \<open>None\<close>. Construction, move and destruction of the objects are steps of a machine with many
  sockets and the set of descriptors the kernel has open.
\<close>

datatype SocketType = TCP | UDP | UNIX_STREAM | UNIX_DGRAM

record sock =
  st_type :: SocketType
  sock_fd :: int
  sock_connected :: bool
  last_error :: int

type_synonym 'a io_result = "int + 'a"

datatype sock_exn = Sock_Unsupported | Sock_Invalid_Fd | Sock_System int

abbreviation (input) EBADF :: int where "EBADF \<equiv> 9"
abbreviation (input) EINVAL :: int where "EINVAL \<equiv> 22"
abbreviation (input) EOPNOTSUPP :: int where "EOPNOTSUPP \<equiv> 95"
abbreviation (input) EINPROGRESS :: int where "EINPROGRESS \<equiv> 115"

fun socket_type_to_native :: "SocketType \<Rightarrow> sock_exn + int \<times> int \<times> int" where
  "socket_type_to_native TCP = Inr (2, 1, 0)"
| "socket_type_to_native UDP = Inr (2, 2, 0)"
| "socket_type_to_native UNIX_STREAM = Inl Sock_Unsupported"
| "socket_type_to_native UNIX_DGRAM = Inl Sock_Unsupported"

definition create_socket :: "(int \<Rightarrow> int \<Rightarrow> int \<Rightarrow> int io_result) \<Rightarrow> SocketType \<Rightarrow> sock_exn + sock" where
  "create_socket CreateSocket ty =
     (case socket_type_to_native ty of
        Inl e \<Rightarrow> Inl e
      | Inr (domain, socktype, protocol) \<Rightarrow>
          (case CreateSocket domain socktype protocol of
             Inl e \<Rightarrow> Inl (Sock_System e)
           | Inr fd \<Rightarrow> Inr \<lparr>st_type = ty, sock_fd = fd, sock_connected = False, last_error = 0\<rparr>))"

definition create_socket_from_fd :: "(int \<Rightarrow> sockaddr_in io_result) \<Rightarrow> int \<Rightarrow> SocketType \<Rightarrow> sock_exn + sock" where
  "create_socket_from_fd GetPeerAddress fd ty =
     (if fd < 0 then Inl Sock_Invalid_Fd
      else Inr \<lparr>st_type = ty, sock_fd = fd, sock_connected = (case GetPeerAddress fd of Inr a \<Rightarrow> True | Inl e \<Rightarrow> False),
                last_error = 0\<rparr>)"

definition is_valid :: "sock \<Rightarrow> bool" where
  "is_valid s \<longleftrightarrow> 0 \<le> sock_fd s"

definition fail_with :: "int \<Rightarrow> 'r \<Rightarrow> sock \<Rightarrow> sock \<times> 'r" where
  "fail_with e r s = (s\<lparr>last_error := e\<rparr>, r)"

definition io_bool :: "unit io_result \<Rightarrow> sock \<Rightarrow> sock \<times> bool" where
  "io_bool res s = (case res of Inl e \<Rightarrow> fail_with e False s | Inr u \<Rightarrow> (s\<lparr>last_error := 0\<rparr>, True))"

definition io_value :: "'a io_result \<Rightarrow> sock \<Rightarrow> sock \<times> 'a option" where
  "io_value res s = (case res of Inl e \<Rightarrow> fail_with e None s | Inr v \<Rightarrow> (s\<lparr>last_error := 0\<rparr>, Some v))"

definition sock_bind ::
  "(int \<Rightarrow> sockaddr_in \<Rightarrow> unit io_result) \<Rightarrow> (128 word \<Rightarrow> bytes) \<Rightarrow> net_address \<Rightarrow> sock \<Rightarrow> sock \<times> bool" where
  "sock_bind Bind ntop6 a s =
     (if \<not> is_valid s then fail_with EBADF False s
      else case netaddress_to_sockaddr_in ntop6 a of
             None \<Rightarrow> fail_with EINVAL False s
           | Some sa \<Rightarrow> io_bool (Bind (sock_fd s) sa) s)"

definition sock_listen :: "(int \<Rightarrow> int \<Rightarrow> unit io_result) \<Rightarrow> int \<Rightarrow> sock \<Rightarrow> sock \<times> bool" where
  "sock_listen Listen backlog s =
     (if \<not> is_valid s then fail_with EBADF False s
      else if st_type s \<noteq> TCP then fail_with EOPNOTSUPP False s
      else io_bool (Listen (sock_fd s) backlog) s)"

definition sock_accept ::
  "(int \<Rightarrow> (int \<times> sockaddr_in) io_result) \<Rightarrow> (int \<Rightarrow> sockaddr_in io_result) \<Rightarrow> sock \<Rightarrow>
   sock \<times> (sock_exn + (sock \<times> net_address) option)" where
  "sock_accept Accept GetPeerAddress s =
     (if \<not> is_valid s then fail_with EBADF (Inr None) s
      else if st_type s \<noteq> TCP then fail_with EOPNOTSUPP (Inr None) s
      else case Accept (sock_fd s) of
             Inl e \<Rightarrow> fail_with e (Inr None) s
           | Inr (client_fd, sa) \<Rightarrow>
               (s\<lparr>last_error := 0\<rparr>,
                case create_socket_from_fd GetPeerAddress client_fd (st_type s) of
                  Inl e \<Rightarrow> Inl e
                | Inr c \<Rightarrow> Inr (Some (c, addr_of_ip_port (ntop4 (sin_addr sa)) (htons (sin_port sa))))))"

definition sock_connect ::
  "(int \<Rightarrow> sockaddr_in \<Rightarrow> unit io_result) \<Rightarrow> (128 word \<Rightarrow> bytes) \<Rightarrow> net_address \<Rightarrow> sock \<Rightarrow> sock \<times> bool" where
  "sock_connect Connect ntop6 a s =
     (if \<not> is_valid s then fail_with EBADF False s
      else case netaddress_to_sockaddr_in ntop6 a of
             None \<Rightarrow> fail_with EINVAL False s
           | Some sa \<Rightarrow>
               (case Connect (sock_fd s) sa of
                  Inl e \<Rightarrow> fail_with e (e = EINPROGRESS) s
                | Inr u \<Rightarrow> (s\<lparr>sock_connected := True, last_error := 0\<rparr>, True)))"

definition sock_send :: "(int \<Rightarrow> bytes \<Rightarrow> nat io_result) \<Rightarrow> bytes \<Rightarrow> sock \<Rightarrow> sock \<times> nat option" where
  "sock_send Send bs s = (if \<not> is_valid s then fail_with EBADF None s else io_value (Send (sock_fd s) bs) s)"

definition sock_recv :: "(int \<Rightarrow> nat \<Rightarrow> bytes io_result) \<Rightarrow> nat \<Rightarrow> sock \<Rightarrow> sock \<times> bytes option" where
  "sock_recv Recv len s = (if \<not> is_valid s then fail_with EBADF None s else io_value (Recv (sock_fd s) len) s)"

definition sock_sendto ::
  "(int \<Rightarrow> bytes \<Rightarrow> sockaddr_in \<Rightarrow> nat io_result) \<Rightarrow> (128 word \<Rightarrow> bytes) \<Rightarrow> bytes \<Rightarrow> net_address \<Rightarrow> sock \<Rightarrow>
   sock \<times> nat option" where
  "sock_sendto SendTo ntop6 bs a s =
     (if \<not> is_valid s then fail_with EBADF None s
      else if st_type s \<noteq> UDP then fail_with EOPNOTSUPP None s
      else case netaddress_to_sockaddr_in ntop6 a of
             None \<Rightarrow> fail_with EINVAL None s
           | Some sa \<Rightarrow> io_value (SendTo (sock_fd s) bs sa) s)"

definition sock_recvfrom ::
  "(int \<Rightarrow> nat \<Rightarrow> (bytes \<times> sockaddr_in) io_result) \<Rightarrow> nat \<Rightarrow> sock \<Rightarrow> sock \<times> (bytes \<times> net_address) option" where
  "sock_recvfrom RecvFrom len s =
     (if \<not> is_valid s then fail_with EBADF None s
      else if st_type s \<noteq> UDP then fail_with EOPNOTSUPP None s
      else case RecvFrom (sock_fd s) len of
             Inl e \<Rightarrow> fail_with e None s
           | Inr (bs, sa) \<Rightarrow>
               (s\<lparr>last_error := 0\<rparr>, Some (bs, addr_of_ip_port (ntop4 (sin_addr sa)) (htons (sin_port sa)))))"

definition sock_set_nonblocking :: "(int \<Rightarrow> bool \<Rightarrow> unit io_result) \<Rightarrow> bool \<Rightarrow> sock \<Rightarrow> sock \<times> bool" where
  "sock_set_nonblocking SetNonBlocking b s =
     (if \<not> is_valid s then fail_with EBADF False s else io_bool (SetNonBlocking (sock_fd s) b) s)"

subsection \<open>Options\<close>

datatype sockopt = SO_REUSEADDR | SO_REUSEPORT | TCP_NODELAY | SO_KEEPALIVE | SO_RCVTIMEO | SO_SNDTIMEO | SO_RCVBUF | SO_SNDBUF

datatype optval = Opt_Bool bool | Opt_Int int | Opt_Timeval int int

fun opt_size :: "optval \<Rightarrow> nat" where
  "opt_size (Opt_Bool b) = 1"
| "opt_size (Opt_Int n) = 4"
| "opt_size (Opt_Timeval s u) = 16"

record socket_options =
  reuse_addr :: bool
  reuse_port :: bool
  tcp_no_delay :: bool
  keep_alive :: bool
  recv_timeout_ms :: int
  send_timeout_ms :: int
  recv_buffer_size :: int
  send_buffer_size :: int

definition socket_options_new :: socket_options where
  "socket_options_new =
     \<lparr>reuse_addr = True, reuse_port = False, tcp_no_delay = True, keep_alive = True, recv_timeout_ms = 0,
      send_timeout_ms = 0, recv_buffer_size = 0, send_buffer_size = 0\<rparr>"

definition timeval :: "int \<Rightarrow> optval" where
  "timeval ms = Opt_Timeval (ms div 1000) (ms mod 1000 * 1000)"

definition option_calls :: "SocketType \<Rightarrow> socket_options \<Rightarrow> (sockopt \<times> optval) list" where
  "option_calls ty opts =
     [(SO_REUSEADDR, Opt_Bool (reuse_addr opts)), (SO_REUSEPORT, Opt_Bool (reuse_port opts))]
     @ (if ty = TCP then [(TCP_NODELAY, Opt_Int (if tcp_no_delay opts then 1 else 0))] else [])
     @ [(SO_KEEPALIVE, Opt_Bool (keep_alive opts))]
     @ (if 0 < recv_timeout_ms opts then [(SO_RCVTIMEO, timeval (recv_timeout_ms opts))] else [])
     @ (if 0 < send_timeout_ms opts then [(SO_SNDTIMEO, timeval (send_timeout_ms opts))] else [])
     @ (if 0 < recv_buffer_size opts then [(SO_RCVBUF, Opt_Int (recv_buffer_size opts))] else [])
     @ (if 0 < send_buffer_size opts then [(SO_SNDBUF, Opt_Int (send_buffer_size opts))] else [])"

text \<open>Every call is made whatever the others answer; \<^verbatim>\<open>errno\<close> is that of the last one that failed.\<close>

definition sock_set_options ::
  "(int \<Rightarrow> sockopt \<Rightarrow> optval \<Rightarrow> nat \<Rightarrow> unit io_result) \<Rightarrow> socket_options \<Rightarrow> sock \<Rightarrow> sock \<times> bool" where
  "sock_set_options setsockopt opts s =
     (if \<not> is_valid s then fail_with EBADF False s
      else let answers = map (\<lambda>(n, v). setsockopt (sock_fd s) n v (opt_size v)) (option_calls (st_type s) opts);
               errors = concat (map (case_sum (\<lambda>e. [e]) (\<lambda>u. [])) answers)
           in if errors = [] then (s\<lparr>last_error := 0\<rparr>, True) else fail_with (last errors) False s)"

text \<open>\<^verbatim>\<open>get_option\<close> and \<^verbatim>\<open>set_option\<close>: one call to the handler.\<close>

definition sock_option :: "(int \<Rightarrow> unit io_result) \<Rightarrow> sock \<Rightarrow> sock \<times> bool" where
  "sock_option SocketOption s =
     (if \<not> is_valid s then fail_with EBADF False s else io_bool (SocketOption (sock_fd s)) s)"

subsection \<open>Addresses, errors, closing, moving\<close>

definition sock_address :: "(int \<Rightarrow> sockaddr_in io_result) \<Rightarrow> sock \<Rightarrow> net_address" where
  "sock_address GetAddress s =
     (if \<not> is_valid s then addr_default
      else case GetAddress (sock_fd s) of
             Inl e \<Rightarrow> addr_default
           | Inr sa \<Rightarrow> addr_of_ip_port (ntop4 (sin_addr sa)) (htons (sin_port sa)))"

definition sock_get_error :: "(int \<Rightarrow> int io_result) \<Rightarrow> sock \<Rightarrow> int" where
  "sock_get_error so_error s =
     (if last_error s \<noteq> 0 then last_error s
      else if \<not> is_valid s then EBADF
      else case so_error (sock_fd s) of Inl e \<Rightarrow> e | Inr e \<Rightarrow> e)"

definition sock_close :: "sock \<Rightarrow> sock \<times> int list" where
  "sock_close s =
     (if 0 \<le> sock_fd s then (s\<lparr>sock_fd := - 1, sock_connected := False, last_error := 0\<rparr>, [sock_fd s]) else (s, []))"

definition moved_from :: "sock \<Rightarrow> sock" where
  "moved_from s = s\<lparr>sock_fd := - 1, sock_connected := False, last_error := 0\<rparr>"

definition move_construct :: "sock \<Rightarrow> sock \<times> sock" where
  "move_construct other = (other, moved_from other)"

definition move_assign :: "sock \<Rightarrow> sock \<Rightarrow> sock \<times> sock \<times> int list" where
  "move_assign this other = (other, moved_from other, snd (sock_close this))"

text \<open>The calls that leave the descriptor alone, with any answers of the system.\<close>

inductive sock_call :: "sock \<Rightarrow> sock \<Rightarrow> bool" where
  call_bind: "sock_call s (fst (sock_bind b ntop6 a s))"
| call_listen: "sock_call s (fst (sock_listen l n s))"
| call_accept: "sock_call s (fst (sock_accept acc peer s))"
| call_connect: "sock_call s (fst (sock_connect c ntop6 a s))"
| call_send: "sock_call s (fst (sock_send snd_f bs s))"
| call_recv: "sock_call s (fst (sock_recv rcv n s))"
| call_sendto: "sock_call s (fst (sock_sendto st ntop6 bs a s))"
| call_recvfrom: "sock_call s (fst (sock_recvfrom rf n s))"
| call_set_nonblocking: "sock_call s (fst (sock_set_nonblocking nb flag s))"
| call_set_options: "sock_call s (fst (sock_set_options sso opts s))"
| call_option: "sock_call s (fst (sock_option so s))"

lemmas sock_defs = sock_bind_def sock_listen_def sock_accept_def sock_connect_def sock_send_def sock_recv_def
  sock_sendto_def sock_recvfrom_def sock_set_nonblocking_def sock_set_options_def sock_option_def io_bool_def io_value_def fail_with_def

lemma sock_call_fd: "sock_call s t \<Longrightarrow> sock_fd t = sock_fd s \<and> st_type t = st_type s"
  by (induction rule: sock_call.induct) (simp_all add: sock_defs Let_def split: sum.split option.split prod.split)

subsection \<open>Options cannot be set\<close>

text \<open>C38: \<^verbatim>\<open>set_options\<close> never succeeds on Linux. The flags are passed as one-byte \<^verbatim>\<open>bool\<close>s, and the kernel rejects
  an option value shorter than an \<^verbatim>\<open>int\<close> with \<^verbatim>\<open>EINVAL\<close>; with default options and otherwise obliging system calls
  that is also the error reported.\<close>

theorem set_options_never_succeeds:
  assumes kernel: "\<And>f n v len. len < 4 \<Longrightarrow> setsockopt f n v len = Inl EINVAL"
  shows "\<not> snd (sock_set_options setsockopt opts s) \<and>
    (is_valid s \<and> opts = socket_options_new \<longrightarrow> last_error (fst (sock_set_options setsockopt opts s)) = EINVAL)"
proof -
  have "setsockopt f n (Opt_Bool b) 1 = Inl EINVAL" for f n b using kernel [of 1] by simp
  then show ?thesis
    by (simp add: sock_set_options_def option_calls_def fail_with_def Let_def socket_options_new_def split: sum.split)
qed

theorem set_options_never_succeeds_witness:
  "\<not> snd (sock_set_options (\<lambda>f n v len. if len < 4 then Inl EINVAL else Inr ()) socket_options_new
     \<lparr>st_type = TCP, sock_fd = 3, sock_connected = False, last_error = 0\<rparr>)"
  using set_options_never_succeeds [of "\<lambda>f n v len. if len < 4 then Inl EINVAL else Inr ()" socket_options_new
      "\<lparr>st_type = TCP, sock_fd = 3, sock_connected = False, last_error = 0\<rparr>"]
  by simp

text \<open>No system call is made for an IPv6 address: \<^verbatim>\<open>bind\<close>, \<^verbatim>\<open>connect\<close> and \<^verbatim>\<open>sendto\<close> refuse it.\<close>

lemma sock_ipv6_refused:
  assumes "is_valid s" and "58 \<in> set (ntop6 (sin6_addr a))" and "0 \<notin> set (ntop6 (sin6_addr a))"
  shows "sock_bind Bind ntop6 (Addr_In6 a) s = (s\<lparr>last_error := EINVAL\<rparr>, False)"
    and "sock_connect Connect ntop6 (Addr_In6 a) s = (s\<lparr>last_error := EINVAL\<rparr>, False)"
  using assms by (simp_all add: sock_defs to_sockaddr_v6)

lemma sock_connect_ipv4:
  assumes "is_valid s"
  shows "sock_connect Connect ntop6 (Addr_In a) s =
    (case Connect (sock_fd s) \<lparr>sin_family = AF_INET, sin_port = sin_port a, sin_addr = sin_addr a\<rparr> of
       Inl e \<Rightarrow> (s\<lparr>last_error := e\<rparr>, e = EINPROGRESS)
     | Inr u \<Rightarrow> (s\<lparr>sock_connected := True, last_error := 0\<rparr>, True))"
  using assms by (simp add: sock_defs to_sockaddr_v4 split: sum.split)

subsection \<open>Ownership of descriptors\<close>

record sock_world =
  objs :: "nat \<Rightarrow> sock option"
  open_fds :: "int set"
  bad_close :: bool

text \<open>\<^verbatim>\<open>close(fd)\<close> on a descriptor that is not open is the error that ownership must exclude.\<close>

definition close_fds :: "int list \<Rightarrow> sock_world \<Rightarrow> sock_world" where
  "close_fds fs w = w\<lparr>open_fds := open_fds w - set fs, bad_close := (bad_close w \<or> \<not> set fs \<subseteq> open_fds w)\<rparr>"

definition put :: "nat \<Rightarrow> sock \<Rightarrow> sock_world \<Rightarrow> sock_world" where
  "put i s w = w\<lparr>objs := (objs w)(i \<mapsto> s)\<rparr>"

inductive sock_step :: "sock_world \<Rightarrow> sock_world \<Rightarrow> bool" where
  step_create: "objs w i = None \<Longrightarrow> create_socket cs ty = Inr s \<Longrightarrow> 0 \<le> sock_fd s \<Longrightarrow> sock_fd s \<notin> open_fds w \<Longrightarrow>
    sock_step w (put i s (w\<lparr>open_fds := insert (sock_fd s) (open_fds w)\<rparr>))"
| step_accept: "objs w i = Some l \<Longrightarrow> objs w j = None \<Longrightarrow> sock_accept acc peer l = (l', Inr (Some (c, a))) \<Longrightarrow>
    sock_fd c \<notin> open_fds w \<Longrightarrow> sock_step w (put j c (put i l' (w\<lparr>open_fds := insert (sock_fd c) (open_fds w)\<rparr>)))"
| step_adopt: "objs w i = None \<Longrightarrow> create_socket_from_fd peer f ty = Inr s \<Longrightarrow> f \<notin> open_fds w \<Longrightarrow>
    sock_step w (put i s (w\<lparr>open_fds := insert f (open_fds w)\<rparr>))"
| step_call: "objs w i = Some s \<Longrightarrow> sock_call s t \<Longrightarrow> sock_step w (put i t w)"
| step_close: "objs w i = Some s \<Longrightarrow> sock_close s = (t, fs) \<Longrightarrow> sock_step w (put i t (close_fds fs w))"
| step_destroy: "objs w i = Some s \<Longrightarrow> sock_close s = (t, fs) \<Longrightarrow>
    sock_step w ((close_fds fs w)\<lparr>objs := (objs w)(i := None)\<rparr>)"
| step_move: "objs w i = Some s \<Longrightarrow> objs w j = None \<Longrightarrow> move_construct s = (n, s') \<Longrightarrow>
    sock_step w (put j n (put i s' w))"
| step_move_assign: "objs w i = Some s \<Longrightarrow> objs w j = Some t \<Longrightarrow> i \<noteq> j \<Longrightarrow> move_assign t s = (t', s', fs) \<Longrightarrow>
    sock_step w (put j t' (put i s' (close_fds fs w)))"

definition sock_start :: sock_world where
  "sock_start = \<lparr>objs = (\<lambda>i. None), open_fds = {}, bad_close = False\<rparr>"

inductive sock_reach :: "sock_world \<Rightarrow> bool" where
  reach_start: "sock_reach sock_start"
| reach_step: "sock_reach w \<Longrightarrow> sock_step w w' \<Longrightarrow> sock_reach w'"

text \<open>The descriptors the objects hold form a one-to-one table of the open descriptors.\<close>

definition fd_of :: "sock \<Rightarrow> int option" where
  "fd_of s = (if 0 \<le> sock_fd s then Some (sock_fd s) else None)"

definition own :: "sock_world \<Rightarrow> nat \<Rightarrow> int option" where
  "own w i = Option.bind (objs w i) fd_of"

definition table_ok :: "int set \<Rightarrow> (nat \<Rightarrow> int option) \<Rightarrow> bool" where
  "table_ok F m \<longleftrightarrow> ran m = F \<and> inj_on m (dom m)"

definition fds_ok :: "sock_world \<Rightarrow> bool" where
  "fds_ok w \<longleftrightarrow> table_ok (open_fds w) (own w) \<and> \<not> bad_close w"

lemma table_ok_iff:
  "table_ok F m \<longleftrightarrow>
     (\<forall>f. f \<in> F \<longleftrightarrow> (\<exists>i. m i = Some f)) \<and> (\<forall>i j f. m i = Some f \<longrightarrow> m j = Some f \<longrightarrow> i = j)"
  unfolding table_ok_def by (auto simp: inj_on_def ran_def dom_def)

lemma table_ok_insert:
  assumes "table_ok F m" and "m i = None" and "f \<notin> F"
  shows "table_ok (insert f F) (m(i \<mapsto> f))"
proof -
  have "(\<exists>k. (m(i \<mapsto> f)) k = Some g) \<longleftrightarrow> g = f \<or> (\<exists>k. m k = Some g)" for g
    using assms(2) by (metis fun_upd_apply option.distinct(1) option.inject)
  then show ?thesis using assms unfolding table_ok_iff by auto
qed

lemma table_ok_remove:
  assumes "table_ok F m"
  shows "table_ok (F - set_option (m i)) (m(i := None))"
proof -
  have "(\<exists>k. (m(i := None)) k = Some g) \<longleftrightarrow> (\<exists>k. m k = Some g) \<and> m i \<noteq> Some g" for g
    using assms unfolding table_ok_iff by (metis fun_upd_apply option.distinct(1))
  then show ?thesis using assms unfolding table_ok_iff by auto
qed

lemma table_ok_move:
  assumes "table_ok F m" and "m j = None" and "i \<noteq> j"
  shows "table_ok F (m(i := None, j := m i))"
proof -
  have "(\<exists>k. (m(i := None, j := m i)) k = Some g) \<longleftrightarrow> (\<exists>k. m k = Some g)" for g
    using assms(2,3) by (metis fun_upd_apply option.distinct(1))
  moreover have "k = l" if "(m(i := None, j := m i)) k = Some g" "(m(i := None, j := m i)) l = Some g" for k l g
    using that assms unfolding table_ok_iff by (metis fun_upd_apply option.distinct(1))
  ultimately show ?thesis using assms(1) unfolding table_ok_iff by blast
qed

lemma own_simps [simp]:
  "own (put i s w) = (own w)(i := fd_of s)" "own (w\<lparr>open_fds := F\<rparr>) = own w" "own (close_fds fs w) = own w"
  "own (w\<lparr>objs := m\<rparr>) = (\<lambda>i. Option.bind (m i) fd_of)"
  "open_fds (put i s w) = open_fds w" "bad_close (put i s w) = bad_close w"
  "open_fds (close_fds fs w) = open_fds w - set fs"
  "bad_close (close_fds fs w) \<longleftrightarrow> bad_close w \<or> \<not> set fs \<subseteq> open_fds w"
  by (auto simp: own_def put_def close_fds_def fun_eq_iff)

lemma sock_close_fds: "sock_close s = (t, fs) \<Longrightarrow> set fs = set_option (fd_of s) \<and> fd_of t = None"
  by (auto simp: sock_close_def fd_of_def split: if_splits)

lemma own_open:
  assumes "fds_ok w" and "objs w i = Some s"
  shows "set_option (fd_of s) \<subseteq> open_fds w"
proof
  fix f assume "f \<in> set_option (fd_of s)"
  then have "own w i = Some f" using assms(2) by (simp add: own_def)
  then show "f \<in> open_fds w" using assms(1) by (auto simp: fds_ok_def table_ok_iff)
qed

lemma sock_accept_client:
  "sock_accept acc peer l = (l', Inr (Some (c, a))) \<Longrightarrow> sock_fd l' = sock_fd l \<and> 0 \<le> sock_fd c"
  by (auto simp: sock_accept_def fail_with_def create_socket_from_fd_def split: if_splits sum.splits prod.splits)

lemma fds_ok_put_same: "fds_ok w \<Longrightarrow> objs w i = Some s \<Longrightarrow> sock_fd t = sock_fd s \<Longrightarrow> fds_ok (put i t w)"
  by (simp add: fds_ok_def fun_upd_idem own_def fd_of_def)

lemma fds_ok_new:
  assumes "fds_ok w" and "objs w i = None" and "0 \<le> sock_fd s" and "sock_fd s \<notin> open_fds w"
  shows "fds_ok (put i s (w\<lparr>open_fds := insert (sock_fd s) (open_fds w)\<rparr>))"
  using assms table_ok_insert [of "open_fds w" "own w" i "sock_fd s"] by (simp add: fds_ok_def fd_of_def own_def)

lemma sock_step_ok: "sock_step w w' \<Longrightarrow> fds_ok w \<Longrightarrow> fds_ok w'"
proof (induction rule: sock_step.induct)
  case (step_create w i cs ty s)
  then show ?case by (intro fds_ok_new)
next
  case (step_accept w i l j acc peer l' c a)
  let ?v = "w\<lparr>open_fds := insert (sock_fd c) (open_fds w)\<rparr>"
  have cl: "sock_fd l' = sock_fd l" "0 \<le> sock_fd c" using sock_accept_client [OF step_accept.hyps(3)] by simp_all
  have "put j c (put i l' ?v) = put i l' (put j c ?v)"
    using step_accept.hyps(1,2) by (auto simp: put_def intro!: sock_world.fold_congs fun_upd_twist)
  moreover have "fds_ok (put j c ?v)" using step_accept cl by (intro fds_ok_new)
  moreover have "objs (put j c ?v) i = Some l" using step_accept.hyps(1,2) by (auto simp: put_def)
  ultimately show ?case using fds_ok_put_same cl by simp
next
  case (step_adopt w i peer f ty s)
  then have "sock_fd s = f" "0 \<le> f" by (auto simp: create_socket_from_fd_def split: if_splits)
  then show ?case using step_adopt fds_ok_new [of w i s] by simp
next
  case (step_call w i s t)
  then show ?case using sock_call_fd fds_ok_put_same by blast
next
  case (step_close w i s t fs)
  then show ?case using sock_close_fds [of s t fs] own_open [of w i s] table_ok_remove [of "open_fds w" "own w" i]
    by (simp add: fds_ok_def own_def)
next
  case (step_destroy w i s t fs)
  have "own ((close_fds fs w)\<lparr>objs := (objs w)(i := None)\<rparr>) = (own w)(i := None)"
    by (auto simp: own_def fun_eq_iff)
  then show ?case using step_destroy sock_close_fds [of s t fs] own_open [of w i s] table_ok_remove [of "open_fds w" "own w" i]
    by (simp add: fds_ok_def own_def close_fds_def)
next
  case (step_move w i s j n s')
  then have "i \<noteq> j" "n = s" "fd_of s' = None" by (auto simp: move_construct_def moved_from_def fd_of_def)
  then show ?case using step_move table_ok_move [of "open_fds w" "own w" j i]
    by (simp add: fds_ok_def own_def)
next
  case (step_move_assign w i s j t t' s' fs)
  then have eqs: "t' = s" "fd_of s' = None" "set fs = set_option (fd_of t)"
    using sock_close_fds [of t] by (auto simp: move_assign_def moved_from_def fd_of_def sock_close_def)
  have "table_ok (open_fds w - set_option (fd_of t)) ((own w)(j := None))"
    using table_ok_remove [of "open_fds w" "own w" j] step_move_assign by (simp add: fds_ok_def own_def)
  from table_ok_move [OF this, of j i] show ?case
    using step_move_assign eqs own_open [of w j t] by (simp add: fds_ok_def own_def fun_upd_twist)
qed

text \<open>C20: In every state that any sequence of creations, accepts, calls, moves, closes and destructions reaches, no descriptor has
  been closed that was not open, the open descriptors are exactly those held by the live socket objects, and no two
  objects hold the same one, as long as the kernel hands out descriptors that are not open.\<close>

theorem socket_fds_owned_once:
  assumes "sock_reach w"
  shows "\<not> bad_close w \<and> ran (own w) = open_fds w \<and> inj_on (own w) (dom (own w))"
proof -
  from assms have "fds_ok w"
  proof induction
    case reach_start
    show ?case by (simp add: fds_ok_def table_ok_def sock_start_def own_def ran_def dom_def)
  qed (rule sock_step_ok)
  then show ?thesis by (simp add: fds_ok_def table_ok_def)
qed

theorem socket_fds_owned_once_witness:
  "\<exists>w. sock_reach w \<and> objs w 1 = Some \<lparr>st_type = TCP, sock_fd = 3, sock_connected = False, last_error = 0\<rparr> \<and>
     objs w 0 = Some \<lparr>st_type = TCP, sock_fd = - 1, sock_connected = False, last_error = 0\<rparr> \<and> ran (own w) = open_fds w"
proof -
  let ?s = "\<lparr>st_type = TCP, sock_fd = 3, sock_connected = False, last_error = 0\<rparr> :: sock"
  let ?v = "put 0 ?s (sock_start\<lparr>open_fds := insert (sock_fd ?s) (open_fds sock_start)\<rparr>)"
  let ?w = "put 1 ?s (put 0 (moved_from ?s) ?v)"
  have "sock_step sock_start ?v"
    by (rule step_create [of _ _ "\<lambda>d t p. Inr 3" TCP]) (simp_all add: sock_start_def create_socket_def)
  then have "sock_reach ?v" by (rule reach_step [OF reach_start])
  moreover have "sock_step ?v ?w"
    by (rule step_move) (simp_all add: put_def sock_start_def move_construct_def)
  ultimately have r: "sock_reach ?w" by (rule reach_step)
  from socket_fds_owned_once [OF r] r show ?thesis
    by (intro exI [of _ ?w]) (simp add: put_def moved_from_def)
qed

end
