(* ===== verification/Net_Poller.thy ===== *)
theory Net_Poller
  imports Prelude Key_Store
begin

section \<open>The event poller (\<^verbatim>\<open>src/core/net/poller.cpp\<close>)\<close>

text \<open>
  \<^verbatim>\<open>EpollPoller\<close> translates event masks to and from those of \<^verbatim>\<open>epoll\<close> and keeps a context pointer for each descriptor.
  What \<^verbatim>\<open>epoll_ctl\<close> and \<^verbatim>\<open>epoll_wait\<close> answer are arguments; a \<^verbatim>\<open>std::system_error\<close> is its code.
\<close>

unbundle bit_operations_syntax

type_synonym event_mask = u32

abbreviation (input) EVENT_READ :: event_mask where "EVENT_READ \<equiv> 0x01"
abbreviation (input) EVENT_WRITE :: event_mask where "EVENT_WRITE \<equiv> 0x02"
abbreviation (input) EVENT_ERROR :: event_mask where "EVENT_ERROR \<equiv> 0x04"
abbreviation (input) EVENT_HUP :: event_mask where "EVENT_HUP \<equiv> 0x08"
abbreviation (input) EVENT_RDHUP :: event_mask where "EVENT_RDHUP \<equiv> 0x10"
abbreviation (input) EPOLLIN :: u32 where "EPOLLIN \<equiv> 0x001"
abbreviation (input) EPOLLOUT :: u32 where "EPOLLOUT \<equiv> 0x004"
abbreviation (input) EPOLLERR :: u32 where "EPOLLERR \<equiv> 0x008"
abbreviation (input) EPOLLHUP :: u32 where "EPOLLHUP \<equiv> 0x010"
abbreviation (input) EPOLLRDHUP :: u32 where "EPOLLRDHUP \<equiv> 0x2000"
abbreviation (input) EPOLLET :: u32 where "EPOLLET \<equiv> 0x80000000"

definition mask_bit :: "u32 \<Rightarrow> u32 \<Rightarrow> u32 \<Rightarrow> u32" where
  "mask_bit m b out = (if m AND b \<noteq> 0 then out else 0)"

definition to_epoll_events :: "event_mask \<Rightarrow> u32" where
  "to_epoll_events m =
     mask_bit m EVENT_READ EPOLLIN OR mask_bit m EVENT_WRITE EPOLLOUT OR mask_bit m EVENT_HUP EPOLLHUP OR
     mask_bit m EVENT_RDHUP EPOLLRDHUP OR mask_bit m EVENT_ERROR EPOLLERR OR EPOLLET"

definition from_epoll_events :: "u32 \<Rightarrow> event_mask" where
  "from_epoll_events e =
     mask_bit e EPOLLIN EVENT_READ OR mask_bit e EPOLLOUT EVENT_WRITE OR mask_bit e EPOLLHUP EVENT_HUP OR
     mask_bit e EPOLLRDHUP EVENT_RDHUP OR mask_bit e EPOLLERR EVENT_ERROR"

record 'c poller =
  epoll_fd :: int
  max_events :: nat
  fd_to_context :: "int \<Rightarrow> 'c option"

datatype ctl_op = CTL_ADD | CTL_MOD

record 'c poll_event =
  ev_fd :: int
  ev_events :: event_mask
  ev_context :: "'c option"

definition poller_new :: "int + int \<Rightarrow> nat \<Rightarrow> int + 'c poller" where
  "poller_new created max_ev =
     (case created of Inl e \<Rightarrow> Inl e | Inr fd \<Rightarrow> Inr \<lparr>epoll_fd = fd, max_events = max_ev, fd_to_context = (\<lambda>f. None)\<rparr>)"

text \<open>The map is updated before the system call, whatever that answers. \<open>None\<close> is a null context.\<close>

definition update_fd ::
  "(ctl_op \<Rightarrow> int \<Rightarrow> u32 \<Rightarrow> int option) \<Rightarrow> ctl_op \<Rightarrow> int \<Rightarrow> event_mask \<Rightarrow> 'c option \<Rightarrow> 'c poller \<Rightarrow> 'c poller \<times> int option" where
  "update_fd epoll_ctl op fd events context p =
     (if epoll_fd p < 0 \<or> fd < 0 then (p, Some 22)
      else (p\<lparr>fd_to_context := (fd_to_context p)(fd := context)\<rparr>, epoll_ctl op fd (to_epoll_events events)))"

definition add_fd where "add_fd epoll_ctl = update_fd epoll_ctl CTL_ADD"

definition mod_fd where "mod_fd epoll_ctl = update_fd epoll_ctl CTL_MOD"

definition del_fd :: "(int \<Rightarrow> int option) \<Rightarrow> int \<Rightarrow> 'c poller \<Rightarrow> 'c poller \<times> int option" where
  "del_fd epoll_del fd p =
     (if epoll_fd p < 0 \<or> fd < 0 then (p, Some 22)
      else (p\<lparr>fd_to_context := (fd_to_context p)(fd := None)\<rparr>,
            case epoll_del fd of Some e \<Rightarrow> if e = 2 then None else Some e | None \<Rightarrow> None))"

text \<open>\<^verbatim>\<open>poll\<close> fills the caller's vector; on an error and on an interrupted wait the vector keeps what it held.\<close>

definition poll ::
  "int + (int \<times> u32) list \<Rightarrow> 'c poller \<Rightarrow> 'c poll_event list \<Rightarrow> int \<times> 'c poll_event list" where
  "poll waited p active =
     (if epoll_fd p < 0 then (- 1, active)
      else case waited of
             Inl e \<Rightarrow> ((if e = 4 then 0 else - 1), active)
           | Inr evs \<Rightarrow> (int (length evs),
               map (\<lambda>(fd, e). \<lparr>ev_fd = fd, ev_events = from_epoll_events e, ev_context = fd_to_context p fd\<rparr>) evs))"

subsection \<open>The masks\<close>

lemma mask_bit_bits:
  fixes m :: u32
  shows "m AND 1 \<noteq> 0 \<longleftrightarrow> bit m 0" "m AND 2 \<noteq> 0 \<longleftrightarrow> bit m 1" "m AND 4 \<noteq> 0 \<longleftrightarrow> bit m 2"
    "m AND 8 \<noteq> 0 \<longleftrightarrow> bit m 3" "m AND 16 \<noteq> 0 \<longleftrightarrow> bit m 4" "m AND 8192 \<noteq> 0 \<longleftrightarrow> bit m 13"
proof -
  have gen: "m AND 2 ^ k \<noteq> 0 \<longleftrightarrow> bit m k" if "k < 32" for k
    by (metis and_exp_eq_0_iff_not_bit)
  show "m AND 1 \<noteq> 0 \<longleftrightarrow> bit m 0" "m AND 2 \<noteq> 0 \<longleftrightarrow> bit m 1" "m AND 4 \<noteq> 0 \<longleftrightarrow> bit m 2"
    "m AND 8 \<noteq> 0 \<longleftrightarrow> bit m 3" "m AND 16 \<noteq> 0 \<longleftrightarrow> bit m 4" "m AND 8192 \<noteq> 0 \<longleftrightarrow> bit m 13"
    using gen [of 0] gen [of 1] gen [of 2] gen [of 3] gen [of 4] gen [of 13] by simp_all
qed

lemma mask_31:
  fixes m :: u32
  shows "m AND 0x1F = (if bit m 0 then 1 else 0) OR (if bit m 1 then 2 else 0) OR (if bit m 2 then 4 else 0) OR
    (if bit m 3 then 8 else 0) OR (if bit m 4 then 16 else 0)"
proof -
  have high: "\<not> bit (c :: u32) n" if "5 \<le> n" "drop_bit 5 c = 0" for c n
  proof -
    have "bit c n = bit (drop_bit 5 c) (n - 5)" using that(1) by (simp add: bit_drop_bit_eq)
    then show ?thesis using that(2) by simp
  qed
  let ?r = "(if bit m 0 then 1 else 0) OR (if bit m 1 then 2 else 0) OR (if bit m 2 then 4 else 0) OR
      (if bit m 3 then 8 else 0) OR (if bit m 4 then 16 else 0) :: u32"
  have low: "m AND 0x1F = take_bit 5 m" by (simp add: take_bit_eq_mask mask_eq_exp_minus_1)
  have "bit (m AND 0x1F) n = bit ?r n" if "n < LENGTH(32)" for n
  proof -
    have "n = 0 \<or> n = 1 \<or> n = 2 \<or> n = 3 \<or> n = 4 \<or> 5 \<le> n" by linarith
    then show ?thesis by (elim disjE) (simp_all add: low bit_take_bit_iff bit_or_iff high)
  qed
  then show ?thesis by (rule bit_word_eqI)
qed

text \<open>Translating a mask for \<^verbatim>\<open>epoll\<close> and back keeps its five defined bits and no other, and every registration
  is edge-triggered.\<close>

theorem poller_mask_roundtrip:
  "from_epoll_events (to_epoll_events m) = m AND (EVENT_READ OR EVENT_WRITE OR EVENT_ERROR OR EVENT_HUP OR EVENT_RDHUP) \<and>
   to_epoll_events m AND EPOLLET = EPOLLET"
proof -
  have "from_epoll_events (to_epoll_events m) = m AND 0x1F \<and> to_epoll_events m AND EPOLLET = EPOLLET"
    unfolding mask_31 to_epoll_events_def mask_bit_def mask_bit_bits
    by (cases "bit m 0"; cases "bit m 1"; cases "bit m 2"; cases "bit m 3"; cases "bit m 4")
      (simp_all add: from_epoll_events_def mask_bit_def)
  then show ?thesis by simp
qed

subsection \<open>Contexts\<close>

text \<open>A call with its answer from the kernel, and what a history of calls says about the context of a descriptor.\<close>

datatype 'c poller_call = Call_Update ctl_op int event_mask "'c option" "int option" | Call_Del int "int option"

fun run_call :: "'c poller_call \<Rightarrow> 'c poller \<Rightarrow> 'c poller" where
  "run_call (Call_Update op fd events context answer) p = fst (update_fd (\<lambda>o' f e. answer) op fd events context p)"
| "run_call (Call_Del fd answer) p = fst (del_fd (\<lambda>f. answer) fd p)"

fun context_change :: "'c poller_call \<Rightarrow> (int, 'c) store_change" where
  "context_change (Call_Update op fd events context answer) = (case context of None \<Rightarrow> Remove fd | Some c \<Rightarrow> Put fd c)"
| "context_change (Call_Del fd answer) = Remove fd"

definition latest_context :: "int \<Rightarrow> 'c poller_call list \<Rightarrow> 'c option" where
  "latest_context f cs = latest f None (map context_change cs)"

text \<open>The table of contexts; the kernel's answer plays no role in it.\<close>

definition set_context :: "int \<Rightarrow> 'c \<Rightarrow> 'c poller \<Rightarrow> 'c poller" where
  "set_context fd c p = fst (add_fd (\<lambda>op f e. None) fd 0 (Some c) p)"

definition drop_context :: "int \<Rightarrow> 'c poller \<Rightarrow> 'c poller" where
  "drop_context fd p = fst (del_fd (\<lambda>f. None) fd p)"

lemmas context_defs = set_context_def drop_context_def add_fd_def update_fd_def del_fd_def

interpretation ctx: key_store "\<lambda>fd p. fd_to_context p fd" set_context drop_context "\<lambda>p. 0 \<le> epoll_fd p" "\<lambda>fd. 0 \<le> fd"
  by unfold_locales (auto simp: context_defs)

lemma update_fd_context: "fst (update_fd ctl op fd e None p) = drop_context fd p"
    "fst (update_fd ctl op fd e (Some c) p) = set_context fd c p" "fst (del_fd del fd p) = drop_context fd p"
  by (simp_all add: context_defs)

lemma run_call_change: "run_call c p = ctx.change (context_change c) p"
  by (cases c) (simp_all add: update_fd_context split: option.split)

lemma run_call_epoll_fd [simp]: "epoll_fd (run_call c p) = epoll_fd p"
  by (cases c) (simp_all add: update_fd_def del_fd_def)

lemma run_calls_epoll_fd [simp]: "epoll_fd (fold run_call cs p) = epoll_fd p"
  by (induction cs arbitrary: p) simp_all

lemma run_calls_context:
  assumes "0 \<le> epoll_fd p" and "fd_to_context p = (\<lambda>f. None)" and "\<forall>c \<in> set cs. 0 \<le> changed_key (context_change c)"
  shows "fd_to_context (fold run_call cs p) f = latest_context f (rev cs)"
proof -
  have "fold run_call cs p = fold ctx.change (map context_change cs) p" by (simp add: run_call_change [abs_def] fold_map comp_def)
  then show ?thesis using ctx.get_latest [of p "map context_change cs" f] assms
    by (simp add: latest_context_def rev_map)
qed

text \<open>Whatever calls were made before and whatever the kernel answered, an event that \<^verbatim>\<open>poll\<close> reports carries the
  context of the latest registration, change or removal of its descriptor, also when that call threw.\<close>

theorem poller_latest_context:
  assumes "poller_new (Inr efd) n = Inr p" and "0 \<le> efd" and "\<forall>c \<in> set cs. 0 \<le> changed_key (context_change c)"
    and "snd (poll (Inr evs) (fold run_call cs p) active) = rows" and "ev \<in> set rows" and "ev_fd ev = fd"
  shows "ev_context ev = latest_context fd (rev cs)"
proof -
  have p: "0 \<le> epoll_fd p" "fd_to_context p = (\<lambda>f. None)" using assms(1,2) by (auto simp: poller_new_def)
  from run_calls_context [OF p assms(3)] show ?thesis
    using assms(4-6) p(1) by (auto simp: poll_def)
qed

theorem poller_latest_context_witness:
  "snd (poll (Inr [(5, 1)]) (fold run_call [Call_Update CTL_ADD 5 1 (Some ''a'') None, Call_Update CTL_MOD 5 1 (Some ''b'') (Some 2)]
     \<lparr>epoll_fd = 3, max_events = 1024, fd_to_context = (\<lambda>f. None)\<rparr>) []) ! 0 =
   \<lparr>ev_fd = 5, ev_events = 1, ev_context = Some ''b''\<rparr>"
proof -
  let ?p = "\<lparr>epoll_fd = 3, max_events = 1024, fd_to_context = (\<lambda>f. None)\<rparr> :: string poller"
  let ?cs = "[Call_Update CTL_ADD 5 1 (Some ''a'') None, Call_Update CTL_MOD 5 1 (Some ''b'') (Some 2)]"
  let ?ev = "snd (poll (Inr [(5, 1)]) (fold run_call ?cs ?p) []) ! 0"
  have "ev_context ?ev = latest_context 5 (rev ?cs)"
    by (rule poller_latest_context [of 3 1024 ?p ?cs "[(5, 1)]" "[]"
        "snd (poll (Inr [(5, 1)]) (fold run_call ?cs ?p) [])"])
      (simp_all add: poller_new_def poll_def update_fd_def)
  moreover have "latest_context 5 (rev ?cs) = Some ''b''" by (simp add: latest_context_def)
  moreover have "ev_fd ?ev = 5" "ev_events ?ev = 1"
    by (simp_all add: poll_def update_fd_def from_epoll_events_def mask_bit_def)
  ultimately show ?thesis by (intro poll_event.equality) simp_all
qed

end
