(* ===== verification/Speed_Records.thy ===== *)
theory Speed_Records
  imports Cpp_String Js_Number "HOL-Library.Signed_Division"
begin

section \<open>The database of test results (\<^verbatim>\<open>src/infrastructure/database.cpp\<close>)\<close>

text \<open>
  The two tables and the SQL statements the class sends. A column of type \<^verbatim>\<open>REAL\<close> holds a double; binding a NaN stores
  \<^verbatim>\<open>NULL\<close>, written \<open>NaN\<close> here, and arithmetic on \<^verbatim>\<open>NULL\<close> gives \<^verbatim>\<open>NULL\<close> as arithmetic on NaN gives NaN. Whether SQLite
  prepares and executes a statement is an argument. Rows come back as text and are converted by
  \<^verbatim>\<open>std::stod\<close>: \<open>reread\<close> is what a double becomes on that way. \<^verbatim>\<open>AVG\<close> is the argument \<open>avg\<close>: the order in which SQLite
  adds is not specified. Time stamps are numbers.
\<close>

record speed_record =
  sr_id :: int
  sr_device_id :: bytes
  sr_device_name :: bytes
  speed_mbps_of :: jsnum
  upload_speed_mbps :: jsnum
  latency_ms :: int
  jitter_ms :: jsnum
  packet_loss :: jsnum
  total_bytes_of :: u64
  test_duration :: jsnum
  created_at :: nat

record device_info =
  di_device_id :: bytes
  di_device_name :: bytes
  user_agent :: bytes
  first_seen :: nat
  last_seen :: nat
  total_tests :: int
  avg_speed :: jsnum
  avg_latency :: int
  avg_packet_loss :: jsnum

record stats_info =
  si_total_tests :: int
  si_avg_speed :: jsnum
  si_max_speed :: jsnum
  active_devices :: int
  total_bytes_transferred :: int
  si_avg_latency :: jsnum
  si_avg_packet_loss :: jsnum

record database =
  speed_records :: "speed_record list"
  last_rowid :: int
  devices :: "device_info list"

definition speed_record_new :: speed_record where
  "speed_record_new =
     \<lparr>sr_id = 0, sr_device_id = [], sr_device_name = [], speed_mbps_of = Num 0, upload_speed_mbps = Num 0,
      latency_ms = 0, jitter_ms = Num 0, packet_loss = Num 0, total_bytes_of = 0, test_duration = Num 0,
      created_at = 0\<rparr>"

definition createTables :: database where
  "createTables = \<lparr>speed_records = [], last_rowid = 0, devices = []\<rparr>"

text \<open>\<^verbatim>\<open>sqlite3_bind_text(..., -1, ...)\<close> reads up to the first zero byte.\<close>

definition insert_record :: "nat \<Rightarrow> speed_record \<Rightarrow> database \<Rightarrow> database" where
  "insert_record now r d =
     d\<lparr>speed_records := speed_records d @
         [r\<lparr>sr_id := last_rowid d + 1, sr_device_id := c_text (sr_device_id r), sr_device_name := c_text (sr_device_name r),
            created_at := now\<rparr>],
       last_rowid := last_rowid d + 1\<rparr>"

text \<open>The right-hand sides of \<^verbatim>\<open>DO UPDATE SET\<close> see the row as it was, so \<^verbatim>\<open>total_tests\<close> in them is the old count.\<close>

definition update_average :: "jsnum \<Rightarrow> int \<Rightarrow> jsnum \<Rightarrow> jsnum" where
  "update_average old n x = js_div (js_add (js_mul old (Num (of_int (n - 1)))) x) (Num (of_int n))"

definition update_device :: "nat \<Rightarrow> speed_record \<Rightarrow> device_info \<Rightarrow> device_info" where
  "update_device now r v =
     v\<lparr>di_device_name := c_text (sr_device_name r), last_seen := now, total_tests := total_tests v + 1,
       avg_speed := update_average (avg_speed v) (total_tests v) (speed_mbps_of r),
       avg_latency := (avg_latency v * (total_tests v - 1) + latency_ms r) sdiv total_tests v,
       avg_packet_loss := update_average (avg_packet_loss v) (total_tests v) (packet_loss r)\<rparr>"

definition new_device :: "nat \<Rightarrow> speed_record \<Rightarrow> device_info" where
  "new_device now r =
     \<lparr>di_device_id = c_text (sr_device_id r), di_device_name = c_text (sr_device_name r), user_agent = [],
      first_seen = now, last_seen = now, total_tests = 1, avg_speed = speed_mbps_of r, avg_latency = latency_ms r,
      avg_packet_loss = packet_loss r\<rparr>"

fun upsert :: "nat \<Rightarrow> speed_record \<Rightarrow> device_info list \<Rightarrow> device_info list" where
  "upsert now r [] = [new_device now r]"
| "upsert now r (v # vs) =
     (if di_device_id v = c_text (sr_device_id r) then update_device now r v # vs else v # upsert now r vs)"

text \<open>
  \<^verbatim>\<open>saveSpeedRecord\<close>: two statements, no transaction. \<^verbatim>\<open>speed_mbps\<close> is declared \<^verbatim>\<open>NOT NULL\<close>.
\<close>

definition saveSpeedRecord :: "bool \<Rightarrow> bool \<Rightarrow> nat \<Rightarrow> speed_record \<Rightarrow> database \<Rightarrow> database \<times> bool" where
  "saveSpeedRecord insert_runs upsert_runs now r d =
     (if \<not> insert_runs \<or> speed_mbps_of r = NaN then (d, False)
      else let d1 = insert_record now r d
           in if \<not> upsert_runs then (d1, False)
              else (d1\<lparr>devices := upsert now r (devices d1)\<rparr>, True))"

subsection \<open>Queries\<close>

definition safe_int :: "int \<Rightarrow> int" where
  "safe_int n = (if - (2 ^ 31) \<le> n \<and> n < 2 ^ 31 then n else 0)"

text \<open>\<^verbatim>\<open>safe_stod\<close> of a null pointer is zero; \<^verbatim>\<open>AVG\<close> of no rows is \<^verbatim>\<open>NULL\<close>.\<close>

definition safe_real :: "(jsnum \<Rightarrow> jsnum) \<Rightarrow> jsnum \<Rightarrow> jsnum" where
  "safe_real reread x = (if x = NaN then Num 0 else reread x)"

definition sql_avg :: "(jsnum list \<Rightarrow> jsnum) \<Rightarrow> jsnum list \<Rightarrow> jsnum" where
  "sql_avg avg xs = (if xs = [] then NaN else avg xs)"

definition recordCallback :: "(jsnum \<Rightarrow> jsnum) \<Rightarrow> speed_record \<Rightarrow> speed_record" where
  "recordCallback reread r =
     r\<lparr>sr_id := safe_int (sr_id r), speed_mbps_of := safe_real reread (speed_mbps_of r),
       upload_speed_mbps := safe_real reread (upload_speed_mbps r), latency_ms := safe_int (latency_ms r),
       jitter_ms := safe_real reread (jitter_ms r), packet_loss := safe_real reread (packet_loss r),
       test_duration := safe_real reread (test_duration r)\<rparr>"

text \<open>When the query fails, the rows delivered before the error remain: \<open>delivered\<close> is their number, if it failed.\<close>

definition rows_delivered :: "nat option \<Rightarrow> 'r list \<Rightarrow> 'r list" where
  "rows_delivered delivered rows = (case delivered of None \<Rightarrow> rows | Some k \<Rightarrow> take k rows)"

definition getHistory :: "(jsnum \<Rightarrow> jsnum) \<Rightarrow> nat option \<Rightarrow> nat \<Rightarrow> database \<Rightarrow> speed_record list" where
  "getHistory reread delivered limit d =
     map (recordCallback reread) (rows_delivered delivered (take limit (rev (speed_records d))))"

text \<open>\<^verbatim>\<open>SUM\<close> over integers fails when the running sum leaves 64 bits.\<close>

fun sum_int64 :: "int \<Rightarrow> int list \<Rightarrow> int option" where
  "sum_int64 acc [] = Some acc"
| "sum_int64 acc (x # xs) =
     (if - (2 ^ 63) \<le> acc + x \<and> acc + x < 2 ^ 63 then sum_int64 (acc + x) xs else None)"

fun js_max :: "jsnum list \<Rightarrow> jsnum" where
  "js_max [] = NaN"
| "js_max [x] = x"
| "js_max (x # y # ys) = js_max ((case (x, y) of
     (Num a, Num b) \<Rightarrow> (if a < b then y else x)
   | (Infinity True, _) \<Rightarrow> y
   | (_, Infinity False) \<Rightarrow> y
   | _ \<Rightarrow> x) # ys)"

definition getStats :: "(jsnum \<Rightarrow> jsnum) \<Rightarrow> (jsnum list \<Rightarrow> jsnum) \<Rightarrow> bool \<Rightarrow> database \<Rightarrow> stats_info" where
  "getStats reread avg runs d =
     (let rs = speed_records d;
          zero = \<lparr>si_total_tests = 0, si_avg_speed = Num 0, si_max_speed = Num 0, active_devices = 0,
                  total_bytes_transferred = 0, si_avg_latency = Num 0, si_avg_packet_loss = Num 0\<rparr>
      in if \<not> runs then zero
         else case sum_int64 0 (map (\<lambda>r. sint (total_bytes_of r)) rs) of
                None \<Rightarrow> zero
              | Some bytes_sum \<Rightarrow>
                  \<lparr>si_total_tests = safe_int (int (length rs)),
                   si_avg_speed = safe_real reread (sql_avg avg (map speed_mbps_of rs)),
                   si_max_speed = safe_real reread (js_max (map speed_mbps_of rs)),
                   active_devices = safe_int (int (length (remdups (map sr_device_id rs)))),
                   total_bytes_transferred = bytes_sum,
                   si_avg_latency = safe_real reread (sql_avg avg (map (\<lambda>r. Num (of_int (latency_ms r))) rs)),
                   si_avg_packet_loss = safe_real reread (sql_avg avg (filter (\<lambda>x. x \<noteq> NaN) (map packet_loss rs)))\<rparr>)"

definition deviceCallback :: "(jsnum \<Rightarrow> jsnum) \<Rightarrow> device_info \<Rightarrow> device_info" where
  "deviceCallback reread v =
     v\<lparr>total_tests := safe_int (total_tests v), avg_speed := safe_real reread (avg_speed v),
       avg_latency := safe_int (avg_latency v), avg_packet_loss := safe_real reread (avg_packet_loss v)\<rparr>"

text \<open>Rows with the same time stamp come in any order; \<open>tie\<close> rearranges the rows before the stable sort.\<close>

definition getDevices ::
  "(jsnum \<Rightarrow> jsnum) \<Rightarrow> nat option \<Rightarrow> (device_info list \<Rightarrow> device_info list) \<Rightarrow> database \<Rightarrow> device_info list" where
  "getDevices reread delivered tie d =
     map (deviceCallback reread) (rows_delivered delivered (rev (sort_key last_seen (tie (devices d)))))"

subsection \<open>Histories of saves\<close>

text \<open>A save with what SQLite answers: whether the insert and the upsert run, and the time.\<close>

type_synonym save = "bool \<times> bool \<times> nat \<times> speed_record"

definition do_save :: "save \<Rightarrow> database \<Rightarrow> database" where
  "do_save x d = (case x of (i, u, now, r) \<Rightarrow> fst (saveSpeedRecord i u now r d))"

definition save_ok :: "save \<Rightarrow> bool" where
  "save_ok x = (case x of (i, u, now, r) \<Rightarrow> i \<and> u \<and> speed_mbps_of r \<noteq> NaN)"

definition save_device :: "save \<Rightarrow> bytes" where
  "save_device x = (case x of (i, u, now, r) \<Rightarrow> c_text (sr_device_id r))"

lemma saveSpeedRecord_result: "snd (saveSpeedRecord i u now r d) = save_ok (i, u, now, r)"
  by (simp add: saveSpeedRecord_def save_ok_def Let_def)

lemma upsert_ids:
  "map di_device_id (upsert now r vs) =
     (if c_text (sr_device_id r) \<in> set (map di_device_id vs) then map di_device_id vs
      else map di_device_id vs @ [c_text (sr_device_id r)])"
  by (induction vs) (auto simp: new_device_def update_device_def)

definition counts_ok :: "save list \<Rightarrow> database \<Rightarrow> bool" where
  "counts_ok xs d \<longleftrightarrow> distinct (map di_device_id (devices d)) \<and>
     (\<forall>v \<in> set (devices d). total_tests v = int (length (filter (\<lambda>x. save_ok x \<and> save_device x = di_device_id v) xs))) \<and>
     (\<forall>x \<in> set xs. save_ok x \<longrightarrow> save_device x \<in> set (map di_device_id (devices d)))"

lemma upsert_counts:
  assumes "distinct (map di_device_id vs)"
    and "\<forall>v \<in> set vs. total_tests v = int (length (filter (\<lambda>x. save_ok x \<and> save_device x = di_device_id v) xs))"
    and "c_text (sr_device_id r) \<notin> set (map di_device_id vs) \<longrightarrow>
      filter (\<lambda>x. save_ok x \<and> save_device x = c_text (sr_device_id r)) xs = []"
    and "save_ok y" and "save_device y = c_text (sr_device_id r)" and "v \<in> set (upsert now r vs)"
  shows "total_tests v = int (length (filter (\<lambda>x. save_ok x \<and> save_device x = di_device_id v) (xs @ [y])))"
  using assms
proof (induction vs)
  case Nil
  then show ?case by (simp add: new_device_def)
next
  case (Cons w vs)
  show ?case
  proof (cases "di_device_id w = c_text (sr_device_id r)")
    case True
    then have "v = update_device now r w \<or> v \<in> set vs" using Cons.prems(6) by auto
    then show ?thesis
    proof
      assume "v = update_device now r w"
      then show ?thesis using Cons.prems(2,4,5) True by (simp add: update_device_def)
    next
      assume v: "v \<in> set vs"
      then have "di_device_id v \<noteq> c_text (sr_device_id r)" using Cons.prems(1) True by force
      then show ?thesis using Cons.prems(2,5) v by simp
    qed
  next
    case False
    then consider "v = w" | "v \<in> set (upsert now r vs)" using Cons.prems(6) by auto
    then show ?thesis
    proof cases
      case 1
      then show ?thesis using False Cons.prems(2,5) by simp
    next
      case 2
      then show ?thesis using Cons.IH [OF _ _ _ Cons.prems(4,5)] Cons.prems(1-3) False by simp
    qed
  qed
qed

lemma do_save_devices:
  "devices (do_save x d) = (if save_ok x then upsert (fst (snd (snd x))) (snd (snd (snd x))) (devices d) else devices d)"
  by (simp add: do_save_def save_ok_def saveSpeedRecord_def insert_record_def Let_def split: prod.split)

lemma do_save_counts:
  assumes "counts_ok xs d"
  shows "counts_ok (xs @ [x]) (do_save x d)"
proof (cases "save_ok x")
  case False
  then show ?thesis using assms by (auto simp: counts_ok_def do_save_devices)
next
  case True
  obtain i u now r where x: "x = (i, u, now, r)" by (cases x)
  have dev: "save_device x = c_text (sr_device_id r)" by (simp add: x save_device_def)
  have ds: "devices (do_save x d) = upsert now r (devices d)" using True by (simp add: do_save_devices x)
  have none: "c_text (sr_device_id r) \<notin> set (map di_device_id (devices d)) \<longrightarrow>
      filter (\<lambda>x. save_ok x \<and> save_device x = c_text (sr_device_id r)) xs = []"
    using assms by (force simp: counts_ok_def filter_empty_conv)
  have "total_tests v = int (length (filter (\<lambda>x. save_ok x \<and> save_device x = di_device_id v) (xs @ [x])))"
    if "v \<in> set (upsert now r (devices d))" for v
    using assms none True dev that by (intro upsert_counts) (simp_all add: counts_ok_def)
  moreover have "distinct (map di_device_id (upsert now r (devices d)))"
    using assms unfolding upsert_ids by (simp add: counts_ok_def)
  moreover have "save_device y \<in> set (map di_device_id (upsert now r (devices d)))" if "y \<in> set (xs @ [x])" "save_ok y" for y
    using that assms dev unfolding upsert_ids by (auto simp: counts_ok_def)
  ultimately show ?thesis unfolding counts_ok_def ds by blast
qed

lemma saves_counts: "counts_ok xs d \<Longrightarrow> counts_ok (xs @ ys) (fold do_save ys d)"
proof (induction ys arbitrary: xs d)
  case (Cons y ys)
  from Cons.IH [OF do_save_counts [OF Cons.prems, of y]] show ?case by simp
qed simp

subsection \<open>What the histories look like\<close>

definition save_stored :: "save \<Rightarrow> bool" where
  "save_stored x = (case x of (i, u, now, r) \<Rightarrow> i \<and> speed_mbps_of r \<noteq> NaN)"

definition stored_row :: "int \<Rightarrow> save \<Rightarrow> speed_record" where
  "stored_row k x = (case x of (i, u, now, r) \<Rightarrow>
     r\<lparr>sr_id := k, sr_device_id := c_text (sr_device_id r), sr_device_name := c_text (sr_device_name r), created_at := now\<rparr>)"

text \<open>The table the inserts of a history leave: one row for each that ran, numbered from 1.\<close>

definition stored_rows :: "save list \<Rightarrow> speed_record list" where
  "stored_rows xs = (let ys = filter save_stored xs in map2 stored_row [1..int (length ys)] ys)"

lemma length_stored_rows: "length (stored_rows xs) = length (filter save_stored xs)"
  by (simp add: stored_rows_def Let_def)

lemma stored_rows_snoc:
  "stored_rows (xs @ [x]) =
     stored_rows xs @ (if save_stored x then [stored_row (int (length (filter save_stored xs)) + 1) x] else [])"
proof -
  have "[1..int n + 1] = [1..int n] @ [int n + 1]" for n
    by (simp add: upto_rec2)
  then show ?thesis by (simp add: stored_rows_def Let_def add.commute)
qed

lemma do_save_records:
  "speed_records (do_save x d) =
     speed_records d @ (if save_stored x then [stored_row (last_rowid d + 1) x] else [])"
  "last_rowid (do_save x d) = last_rowid d + (if save_stored x then 1 else 0)"
  by (simp_all add: do_save_def save_stored_def stored_row_def saveSpeedRecord_def insert_record_def Let_def
      split: prod.split)

lemma saves_records:
  "speed_records (fold do_save xs createTables) = stored_rows xs \<and>
   last_rowid (fold do_save xs createTables) = int (length (filter save_stored xs))"
proof (induction xs rule: rev_induct)
  case Nil
  show ?case by (simp add: createTables_def stored_rows_def)
next
  case (snoc x xs)
  then show ?case by (simp add: do_save_records stored_rows_snoc)
qed

text \<open>A row that survives the way through text: every number in range and reread as itself.\<close>

definition row_readable :: "(jsnum \<Rightarrow> jsnum) \<Rightarrow> speed_record \<Rightarrow> bool" where
  "row_readable reread r \<longleftrightarrow>
     (\<forall>x \<in> {speed_mbps_of r, upload_speed_mbps r, jitter_ms r, packet_loss r, test_duration r}. x \<noteq> NaN \<and> reread x = x) \<and>
     - (2 ^ 31) \<le> latency_ms r \<and> latency_ms r < 2 ^ 31"

lemma recordCallback_id:
  assumes "row_readable reread r" and "- (2 ^ 31) \<le> sr_id r" and "sr_id r < 2 ^ 31"
  shows "recordCallback reread r = r"
  using assms by (intro speed_record.equality) (simp_all add: recordCallback_def row_readable_def safe_real_def safe_int_def)

lemma row_readable_stored: "row_readable reread (stored_row k x) = row_readable reread (snd (snd (snd x)))"
  by (simp add: row_readable_def stored_row_def split: prod.split)

lemma stored_rows_elem:
  assumes "r \<in> set (stored_rows xs)"
  obtains k x where "r = stored_row k x" "x \<in> set xs" "save_stored x" "1 \<le> k" "k \<le> int (length (filter save_stored xs))"
proof -
  from assms obtain k x where r: "r = stored_row k x"
    and "(k, x) \<in> set (zip [1..int (length (filter save_stored xs))] (filter save_stored xs))"
    by (auto simp: stored_rows_def Let_def)
  then have "k \<in> set [1..int (length (filter save_stored xs))]" "x \<in> set (filter save_stored xs)"
    by (auto dest: set_zip_leftD set_zip_rightD)
  then show ?thesis using r that by simp
qed

text \<open>C25: After any sequence of saves into fresh tables the query \<^verbatim>\<open>getHistory\<close> returns the rows that were
  inserted, newest first, at most \<open>limit\<close> of them, numbered in the order of insertion and with the values that were
  saved, when the numbers survive printing and fewer than \<open>2 ^ 31\<close> rows are stored. That includes the saves that
  reported failure because only the second statement failed.\<close>

theorem db_history_roundtrip:
  assumes "\<forall>x \<in> set xs. save_stored x \<longrightarrow> row_readable reread (snd (snd (snd x)))"
    and "length (filter save_stored xs) < 2 ^ 31"
  shows "getHistory reread None limit (fold do_save xs createTables) = take limit (rev (stored_rows xs))"
proof -
  have small: "int (length (filter save_stored xs)) < 2 ^ 31" using assms(2) by simp
  have "recordCallback reread r = r" if "r \<in> set (stored_rows xs)" for r
  proof -
    from that obtain k x where "r = stored_row k x" "x \<in> set xs" "save_stored x"
      "1 \<le> k" "k \<le> int (length (filter save_stored xs))"
      by (rule stored_rows_elem)
    then show ?thesis using assms(1) small
      by (intro recordCallback_id) (simp_all add: row_readable_stored, simp_all add: stored_row_def split: prod.split)
  qed
  then have "map (recordCallback reread) (take limit (rev (stored_rows xs))) = take limit (rev (stored_rows xs))"
    by (intro map_idI) (auto dest: in_set_takeD)
  then show ?thesis by (simp add: getHistory_def rows_delivered_def saves_records)
qed

definition sample_record :: "rat \<Rightarrow> speed_record" where
  "sample_record x = speed_record_new\<lparr>speed_mbps_of := Num x\<rparr>"

theorem db_history_roundtrip_witness:
  "getHistory id None 1
     (fold do_save [(True, True, 5, sample_record 1), (True, False, 6, sample_record 2), (False, True, 7, sample_record 3)]
        createTables) =
   [sample_record 2\<lparr>sr_id := 2, created_at := 6\<rparr>]"
  using db_history_roundtrip [of "[(True, True, 5, sample_record 1), (True, False, 6, sample_record 2),
      (False, True, 7, sample_record 3)]" id 1]
  by (simp add: save_stored_def row_readable_def sample_record_def speed_record_new_def stored_rows_def stored_row_def
      upto.simps c_text_def)

text \<open>After any sequence of saves into fresh tables there is one row per device, and its \<^verbatim>\<open>total_tests\<close> is the
  number of saves for that device that reported success; a device with a successful save has a row.\<close>

theorem db_device_counts:
  fixes xs :: "save list"
  defines "d \<equiv> fold do_save xs createTables"
  shows "distinct (map di_device_id (devices d)) \<and>
    (\<forall>v. v \<in> set (devices d) \<longrightarrow>
       total_tests v = int (length (filter (\<lambda>x. save_ok x \<and> save_device x = di_device_id v) xs))) \<and>
    (\<forall>x. x \<in> set xs \<longrightarrow> save_ok x \<longrightarrow> save_device x \<in> set (map di_device_id (devices d)))"
proof -
  have "counts_ok [] createTables" by (simp add: counts_ok_def createTables_def)
  from saves_counts [OF this, of xs] show ?thesis by (auto simp: counts_ok_def d_def)
qed

theorem db_device_counts_witness:
  "\<exists>v. v \<in> set (devices (fold do_save [(True, True, 5, sample_record 1), (True, False, 6, sample_record 2)] createTables)) \<and>
     total_tests v = 1"
proof -
  let ?xs = "[(True, True, 5, sample_record 1), (True, False, 6, sample_record 2)]"
  have dev: "save_device (i, u, t, sample_record y) = []" "save_ok (i, u, t, sample_record y) = (i \<and> u)" for i u t y
    by (simp_all add: save_ok_def save_device_def sample_record_def speed_record_new_def c_text_def)
  have "[] \<in> set (map di_device_id (devices (fold do_save ?xs createTables)))"
    using db_device_counts [of ?xs] by (simp add: dev)
  then obtain v where "v \<in> set (devices (fold do_save ?xs createTables))" "di_device_id v = []" by auto
  then show ?thesis using db_device_counts [of ?xs] by (auto simp: dev)
qed

subsection \<open>The columns keep their types\<close>

definition text_ok :: "bytes \<Rightarrow> bool" where
  "text_ok s \<longleftrightarrow> 0 \<notin> set s"

definition device_typed :: "device_info \<Rightarrow> bool" where
  "device_typed v \<longleftrightarrow> text_ok (di_device_id v) \<and> text_ok (di_device_name v) \<and> 1 \<le> total_tests v"

definition record_typed :: "speed_record \<Rightarrow> bool" where
  "record_typed r \<longleftrightarrow> text_ok (sr_device_id r) \<and> text_ok (sr_device_name r) \<and> speed_mbps_of r \<noteq> NaN"

text \<open>Row ids count up from 1, the declared column constraints hold, device ids are unique, and every device has a record.\<close>

definition database_typed :: "database \<Rightarrow> bool" where
  "database_typed d \<longleftrightarrow>
     0 \<le> last_rowid d \<and> map sr_id (speed_records d) = [1..last_rowid d] \<and> (\<forall>r \<in> set (speed_records d). record_typed r) \<and>
     distinct (map di_device_id (devices d)) \<and> (\<forall>v \<in> set (devices d). device_typed v) \<and>
     di_device_id ` set (devices d) \<subseteq> sr_device_id ` set (speed_records d)"

lemma text_ok_c_text [simp]: "text_ok (c_text s)"
  by (auto simp: text_ok_def c_text_def dest: set_takeWhileD)

lemma new_device_typed: "device_typed (new_device now r)"
  by (simp add: device_typed_def new_device_def)

lemma update_device_typed: "device_typed v \<Longrightarrow> device_typed (update_device now r v)"
  by (simp add: device_typed_def update_device_def)

lemma upsert_typed: "\<forall>v \<in> set vs. device_typed v \<Longrightarrow> \<forall>v \<in> set (upsert now r vs). device_typed v"
  by (induction vs) (simp_all add: new_device_typed update_device_typed)

lemma upsert_distinct: "distinct (map di_device_id vs) \<Longrightarrow> distinct (map di_device_id (upsert now r vs))"
  unfolding upsert_ids by simp

lemma upsert_id_set: "di_device_id ` set (upsert now r vs) = insert (c_text (sr_device_id r)) (di_device_id ` set vs)"
proof -
  have "di_device_id ` set (upsert now r vs) = set (map di_device_id (upsert now r vs))" by simp
  then show ?thesis unfolding upsert_ids by auto
qed

lemma do_save_typed:
  assumes "database_typed d"
  shows "database_typed (do_save x d)"
proof -
  obtain i u now r where x: "x = (i, u, now, r)" by (cases x)
  have row: "record_typed (stored_row k x)" "sr_id (stored_row k x) = k" "sr_device_id (stored_row k x) = c_text (sr_device_id r)"
    if "save_stored x" for k
    using that by (simp_all add: x stored_row_def save_stored_def record_typed_def)
  have ids: "[1..last_rowid d + 1] = [1..last_rowid d] @ [last_rowid d + 1]"
    using assms by (simp add: database_typed_def upto_rec2)
  have stored: "save_ok x \<Longrightarrow> save_stored x" by (simp add: x save_ok_def save_stored_def)
  have devs: "devices (do_save x d) = (if save_ok x then upsert now r (devices d) else devices d)"
    by (simp add: do_save_devices x)
  show ?thesis
  proof (cases "save_stored x")
    case False
    then have "\<not> save_ok x" using stored by blast
    then show ?thesis using assms False by (simp add: database_typed_def do_save_records devs)
  next
    case True
    have rec: "speed_records (do_save x d) = speed_records d @ [stored_row (last_rowid d + 1) x]"
      and rid: "last_rowid (do_save x d) = last_rowid d + 1"
      using True by (simp_all add: do_save_records)
    have "map sr_id (speed_records (do_save x d)) = [1..last_rowid (do_save x d)]"
      unfolding rec rid ids using assms row(2) [OF True] by (simp add: database_typed_def)
    moreover have "\<forall>r \<in> set (speed_records (do_save x d)). record_typed r" "0 \<le> last_rowid (do_save x d)"
      unfolding rec rid using assms row(1) [OF True] by (simp_all add: database_typed_def)
    moreover have "distinct (map di_device_id (devices (do_save x d)))" "\<forall>v \<in> set (devices (do_save x d)). device_typed v"
      using assms upsert_distinct upsert_typed by (auto simp: database_typed_def devs)
    moreover have "di_device_id ` set (devices (do_save x d)) \<subseteq> sr_device_id ` set (speed_records (do_save x d))"
      unfolding rec using assms row(3) [OF True] by (auto simp: database_typed_def devs upsert_id_set)
    ultimately show ?thesis by (simp add: database_typed_def)
  qed
qed


subsection \<open>The averages\<close>

text \<open>The running average as it is meant: \<open>n\<close> values so far with average \<open>a\<close>, then the next ones.\<close>

fun running_average :: "jsnum \<Rightarrow> nat \<Rightarrow> jsnum list \<Rightarrow> jsnum" where
  "running_average a n [] = a"
| "running_average a n (x # xs) =
     running_average (js_div (js_add (js_mul a (Num (of_nat n))) x) (Num (of_nat (Suc n)))) (Suc n) xs"

lemma saves_one_device:
  assumes "\<forall>x \<in> set xs. save_ok x \<and> save_device x = di_device_id v"
    and "devices d = [v]" and "total_tests v = int (Suc n)"
  shows "\<exists>w. devices (fold do_save xs d) = [w] \<and> di_device_id w = di_device_id v \<and>
    total_tests w = int (Suc n + length xs) \<and>
    avg_speed w = running_average (avg_speed v) n (map (\<lambda>x. speed_mbps_of (snd (snd (snd x)))) xs)"
  using assms
proof (induction xs arbitrary: v d n)
  case (Cons x xs)
  obtain i u now r where x: "x = (i, u, now, r)" by (cases x)
  have dev: "c_text (sr_device_id r) = di_device_id v" using Cons.prems(1) by (simp add: x save_device_def)
  have avg: "avg_speed (update_device now r v) =
      js_div (js_add (js_mul (avg_speed v) (Num (of_nat n))) (speed_mbps_of r)) (Num (of_nat (Suc n)))"
    using Cons.prems(3) by (simp add: update_device_def update_average_def)
  have "devices (do_save x d) = [update_device now r v]"
    using Cons.prems(1,2) dev by (simp add: do_save_devices x)
  then obtain w where "devices (fold do_save xs (do_save x d)) = [w]"
      "di_device_id w = di_device_id (update_device now r v)"
      "total_tests w = int (Suc (Suc n) + length xs)"
      "avg_speed w = running_average (avg_speed (update_device now r v)) (Suc n) (map (\<lambda>x. speed_mbps_of (snd (snd (snd x)))) xs)"
    using Cons.IH [of "update_device now r v" "do_save x d" "Suc n"] Cons.prems by (auto simp: update_device_def)
  then show ?case
    unfolding avg by (auto simp: x update_device_def)
qed simp

text \<open>The second result of a device replaces the first in \<^verbatim>\<open>avg_speed\<close>: the update divides by the old number of
  tests. From then on the column is the running average of all results but the first, while \<^verbatim>\<open>total_tests\<close> counts
  them all.\<close>

theorem db_average_forgets_first:
  assumes "\<forall>x \<in> set (x1 # x2 # xs). save_ok x \<and> save_device x = dev"
    and "speed_mbps_of (snd (snd (snd x1))) = Num a" and "speed_mbps_of (snd (snd (snd x2))) = Num b"
    and "round_double b = Num b"
  shows "\<exists>v. devices (fold do_save (x1 # x2 # xs) createTables) = [v] \<and> total_tests v = int (2 + length xs) \<and>
    avg_speed v = running_average (Num b) 1 (map (\<lambda>x. speed_mbps_of (snd (snd (snd x)))) xs)"
proof -
  obtain i u now r where x1: "x1 = (i, u, now, r)" by (cases x1)
  obtain i' u' now' r' where x2: "x2 = (i', u', now', r')" by (cases x2)
  let ?v = "new_device now r"
  have d1: "devices (do_save x1 createTables) = [?v]"
    using assms(1) by (simp add: do_save_devices x1 createTables_def)
  have "c_text (sr_device_id r) = dev" using assms(1) by (simp add: x1 save_device_def)
  then have all: "\<forall>x \<in> set (x2 # xs). save_ok x \<and> save_device x = di_device_id ?v"
    using assms(1) by (simp add: new_device_def)
  have "\<exists>w. devices (fold do_save (x2 # xs) (do_save x1 createTables)) = [w] \<and> di_device_id w = di_device_id ?v \<and>
    total_tests w = int (Suc 0 + length (x2 # xs)) \<and>
    avg_speed w = running_average (avg_speed ?v) 0 (map (\<lambda>x. speed_mbps_of (snd (snd (snd x)))) (x2 # xs))"
    by (rule saves_one_device [OF all d1]) (simp add: new_device_def)
  moreover have "avg_speed ?v = Num a" using assms(2) by (simp add: x1 new_device_def)
  moreover have "round_double 0 = Num 0" by (simp add: round_double_def)
  ultimately show ?thesis using assms(3,4) by auto
qed

theorem db_average_forgets_first_witness:
  "\<exists>v. devices (fold do_save [(True, True, 5, sample_record 10), (True, True, 6, sample_record 20),
      (True, True, 7, sample_record 30)] createTables) = [v] \<and> total_tests v = 3 \<and> avg_speed v = Num 25"
  using db_average_forgets_first [of "(True, True, 5, sample_record 10)" "(True, True, 6, sample_record 20)"
      "[(True, True, 7, sample_record 30)]" "[]" 10 20]
    round_double_nat [of 20] round_double_nat [of 50] round_double_nat [of 25]
  by (simp add: save_ok_def save_device_def sample_record_def speed_record_new_def c_text_def)

end
