(* ===== verification/Json_Value.thy ===== *)
theory Json_Value
  imports Cpp_String
begin

section \<open>Reading JSON by searching (\<^verbatim>\<open>SpeedTestApi.cpp\<close>)\<close>

text \<open>
  \<^verbatim>\<open>findJsonValue\<close> does not parse: it looks for the quoted key, then for a colon, and takes what follows up to the next
  quote, comma or brace. The lemmas compare it with looking a key up in the members of a flat object that is printed in the usual way:
  they agree as long as no string value equals the key, and the values contain no quotes.
\<close>

definition json_key :: "bytes \<Rightarrow> bytes" where
  "json_key key = 34 # key @ [34]"

text \<open>From the colon on; \<open>body ! pos\<close> past the end is the terminating zero byte, not a quote.\<close>

definition json_value_at :: "bytes \<Rightarrow> nat \<Rightarrow> bytes" where
  "json_value_at body start =
     (let pos = skip_blanks body start
      in if pos < length body \<and> body ! pos = 34
         then substr_to body (pos + 1) (cpp_find [34] (pos + 1) body)
         else substr_to body pos (find_first_of {44, 125} pos body))"

definition findJsonValue :: "bytes \<Rightarrow> bytes \<Rightarrow> bytes" where
  "findJsonValue body key =
     (case cpp_find (json_key key) 0 body of
        None \<Rightarrow> []
      | Some p \<Rightarrow>
          (case cpp_find [58] p body of
             None \<Rightarrow> []
           | Some q \<Rightarrow> json_value_at body (q + 1)))"

subsection \<open>Flat objects\<close>

datatype json_value = JStr bytes | JNum bytes

fun json_text :: "json_value \<Rightarrow> bytes" where
  "json_text (JStr s) = 34 # s @ [34]"
| "json_text (JNum s) = s"

fun raw_value :: "json_value \<Rightarrow> bytes" where
  "raw_value (JStr s) = s"
| "raw_value (JNum s) = s"

fun members :: "(bytes \<times> json_value) list \<Rightarrow> bytes" where
  "members [] = [125]"
| "members [(k, v)] = json_key k @ 58 # json_text v @ [125]"
| "members ((k, v) # p # ps) = json_key k @ 58 # json_text v @ 44 # members (p # ps)"

definition json_object :: "(bytes \<times> json_value) list \<Rightarrow> bytes" where
  "json_object ps = 123 # members ps"

fun value_ok :: "json_value \<Rightarrow> bool" where
  "value_ok (JStr s) \<longleftrightarrow> 34 \<notin> set s"
| "value_ok (JNum s) \<longleftrightarrow> s \<noteq> [] \<and> \<not> is_blank (hd s) \<and> set s \<inter> {34, 44, 125} = {}"

definition members_ok :: "(bytes \<times> json_value) list \<Rightarrow> bool" where
  "members_ok ps \<longleftrightarrow> (\<forall>(k, v) \<in> set ps. 34 \<notin> set k \<and> value_ok v)"

text \<open>A key that can be found: no quote, colon or comma in it, and no string value equal to it.\<close>

definition key_ok :: "bytes \<Rightarrow> (bytes \<times> json_value) list \<Rightarrow> bool" where
  "key_ok key ps \<longleftrightarrow> set key \<inter> {34, 44, 58} = {} \<and> JStr key \<notin> snd ` set ps"

subsection \<open>Searching for a quoted key\<close>

lemma find_key_skip:
  "34 \<notin> set t \<Longrightarrow> find_sub (json_key k) (t @ r) = map_option ((+) (length t)) (find_sub (json_key k) r)"
proof (induction t)
  case Nil
  show ?case by (cases "find_sub (json_key k) r") simp_all
next
  case (Cons c t)
  then have "\<not> starts_with (json_key k) (c # t @ r)" by (auto simp: starts_with_def json_key_def)
  then show ?case using Cons by (cases "find_sub (json_key k) r") auto
qed

lemma starts_with_key:
  assumes "34 \<notin> set s" and "34 \<notin> set k"
  shows "starts_with (json_key k) (34 # s @ 34 # r) \<longleftrightarrow> s = k"
proof
  assume "starts_with (json_key k) (34 # s @ 34 # r)"
  then have "take (Suc (length k)) (s @ 34 # r) = k @ [34]" by (simp add: starts_with_def json_key_def)
  then obtain u where u: "s @ 34 # r = k @ 34 # u"
    by (metis append.assoc append_Cons append_Nil append_take_drop_id)
  have "takeWhile (\<lambda>c. c \<noteq> 34) (s @ 34 # r) = s" by (subst takeWhile_append2) (use assms(1) in auto)
  moreover have "takeWhile (\<lambda>c. c \<noteq> 34) (k @ 34 # u) = k" by (subst takeWhile_append2) (use assms(2) in auto)
  ultimately show "s = k" using u by simp
qed (simp add: starts_with_def json_key_def)

lemma find_key_segment:
  assumes "34 \<notin> set s" and "34 \<notin> set k" and "s \<noteq> k"
  shows "find_sub (json_key k) (34 # s @ 34 # r) = map_option ((+) (Suc (length s))) (find_sub (json_key k) (34 # r))"
proof -
  have "\<not> starts_with (json_key k) (34 # s @ 34 # r)" using starts_with_key assms by blast
  then show ?thesis using find_key_skip [OF assms(1), of k "34 # r"]
    by (cases "find_sub (json_key k) (34 # r)") auto
qed

lemma find_key_here: "34 \<notin> set k \<Longrightarrow> find_sub (json_key k) (json_key k @ r) = Some 0"
  by (simp add: json_key_def starts_with_def)

lemma find_key_none: "34 \<notin> set k \<Longrightarrow> 34 \<notin> set s \<Longrightarrow> find_sub (json_key k) (34 # s) = None"
proof -
  assume "34 \<notin> set k" "34 \<notin> set s"
  have "\<not> starts_with (json_key k) (34 # s)"
  proof
    assume "starts_with (json_key k) (34 # s)"
    then have "take (Suc (length k)) s = k @ [34]" by (simp add: starts_with_def json_key_def)
    then have "34 \<in> set (take (Suc (length k)) s)" by simp
    then show False using \<open>34 \<notin> set s\<close> in_set_takeD by metis
  qed
  moreover have "find_sub (json_key k) s = None"
    using find_key_skip [of s k "[]"] \<open>34 \<notin> set s\<close> by (simp add: json_key_def)
  ultimately show ?thesis by simp
qed

text \<open>Past a member that is not the one looked for, the search goes on at the next.\<close>

lemma find_key_member:
  assumes "34 \<notin> set k" and "34 \<notin> set key" and "k \<noteq> key" and "value_ok v" and "set key \<inter> {44, 58} = {}"
    and "v \<noteq> JStr key"
  shows "find_sub (json_key key) (json_key k @ 58 # json_text v @ 44 # 34 # r) =
    map_option ((+) (length (json_key k @ 58 # json_text v @ [44]))) (find_sub (json_key key) (34 # r))"
proof (cases v)
  case (JStr s)
  have "[58] \<noteq> key" "[44] \<noteq> key" using assms(5) by auto
  then show ?thesis using JStr assms find_key_segment [of k key "58 # 34 # s @ 34 # 44 # 34 # r"]
      find_key_segment [of "[58]" key "s @ 34 # 44 # 34 # r"] find_key_segment [of s key "44 # 34 # r"]
      find_key_segment [of "[44]" key r]
    by (cases "find_sub (json_key key) (34 # r)") (simp_all add: json_key_def)
next
  case (JNum s)
  have "58 # s @ [44] \<noteq> key" using assms(5) by auto
  moreover have "34 \<notin> set (58 # s @ [44])" using JNum assms(4) by auto
  ultimately show ?thesis using JNum assms find_key_segment [of k key "58 # s @ 44 # 34 # r"]
      find_key_segment [of "58 # s @ [44]" key r]
    by (cases "find_sub (json_key key) (34 # r)") (simp_all add: json_key_def)
qed

lemma members_quote: "\<exists>r. members (p # ps) = 34 # r"
  by (cases p; cases ps) (simp_all add: json_key_def)

lemma members_find:
  assumes "members_ok ps" and "key_ok key ps" and "map_of ps key = Some v"
  shows "\<exists>pre c rest. members ps = pre @ json_key key @ 58 # json_text v @ c # rest \<and>
    find_sub (json_key key) (members ps) = Some (length pre) \<and> c \<in> {44, 125}"
  using assms
proof (induction ps rule: members.induct)
  case (2 k w)
  then have "k = key" "w = v" by (auto split: if_splits)
  then show ?case using find_key_here [of key] 2 by (intro exI [of _ "[]"]) (simp add: key_ok_def)
next
  case (3 k w p ps)
  show ?case
  proof (cases "k = key")
    case True
    then have "w = v" using 3(4) by simp
    then show ?thesis using find_key_here [of key] 3 True by (intro exI [of _ "[]"]) (simp add: key_ok_def)
  next
    case False
    then obtain pre c rest where IH: "members (p # ps) = pre @ json_key key @ 58 # json_text v @ c # rest"
      "find_sub (json_key key) (members (p # ps)) = Some (length pre)" "c \<in> {44, 125}"
      using 3 by (auto simp: members_ok_def key_ok_def)
    obtain r where r: "members (p # ps) = 34 # r" using members_quote by blast
    have "find_sub (json_key key) (json_key k @ 58 # json_text w @ 44 # 34 # r) =
        map_option ((+) (length (json_key k @ 58 # json_text w @ [44]))) (find_sub (json_key key) (34 # r))"
      using False 3(2,3) by (intro find_key_member) (auto simp: members_ok_def key_ok_def)
    then have "find_sub (json_key key) (members ((k, w) # p # ps)) = Some (length (json_key k @ 58 # json_text w @ 44 # pre))"
      unfolding members.simps r [symmetric] IH(2) by simp
    moreover have "members ((k, w) # p # ps) =
        (json_key k @ 58 # json_text w @ 44 # pre) @ json_key key @ 58 # json_text v @ c # rest"
      using IH(1) by simp
    ultimately show ?thesis using IH(3) by blast
  qed
qed simp

lemma find_key_last:
  assumes "34 \<notin> set k" and "34 \<notin> set key" and "k \<noteq> key" and "value_ok v" and "set key \<inter> {44, 58} = {}"
    and "v \<noteq> JStr key"
  shows "find_sub (json_key key) (json_key k @ 58 # json_text v @ [125]) = None"
proof (cases v)
  case (JStr s)
  have "[58] \<noteq> key" using assms(5) by auto
  then show ?thesis using JStr assms find_key_segment [of k key "58 # 34 # s @ 34 # [125]"]
      find_key_segment [of "[58]" key "s @ 34 # [125]"] find_key_segment [of s key "[125]"] find_key_none [of key "[125]"]
    by (simp add: json_key_def)
next
  case (JNum s)
  then show ?thesis using assms find_key_segment [of k key "58 # s @ [125]"] find_key_none [of key "58 # s @ [125]"]
    by (auto simp: json_key_def)
qed

lemma members_absent:
  assumes "members_ok ps" and "key_ok key ps" and "map_of ps key = None"
  shows "find_sub (json_key key) (members ps) = None"
  using assms
proof (induction ps rule: members.induct)
  case 1
  show ?case by (simp add: json_key_def starts_with_def)
next
  case (2 k w)
  then show ?case by (auto simp: members_ok_def key_ok_def split: if_splits intro!: find_key_last)
next
  case (3 k w p ps)
  obtain r where r: "members (p # ps) = 34 # r" using members_quote by blast
  have "find_sub (json_key key) (34 # r) = None" using 3 r by (auto simp: members_ok_def key_ok_def split: if_splits)
  moreover have "find_sub (json_key key) (json_key k @ 58 # json_text w @ 44 # 34 # r) =
      map_option ((+) (length (json_key k @ 58 # json_text w @ [44]))) (find_sub (json_key key) (34 # r))"
    using 3(2-4) by (intro find_key_member) (auto simp: members_ok_def key_ok_def split: if_splits)
  ultimately show ?case by (simp add: r)
qed

subsection \<open>Taking the value\<close>

lemma find_first_of_drop:
  assumes "pos \<le> length s" and "drop pos s = t @ c # u" and "c \<in> cs" and "set t \<inter> cs = {}"
  shows "find_first_of cs pos s = Some (pos + length t)"
proof -
  have "takeWhile (\<lambda>x. x \<notin> cs) (t @ c # u) = t" using assms(3,4) by (subst takeWhile_append2) auto
  moreover have "length s = pos + length (t @ c # u)" using arg_cong [OF assms(2), of length] assms(1) by simp
  ultimately show ?thesis by (simp add: find_first_of_def assms(2))
qed

lemma cpp_find_char:
  assumes "pos \<le> length s" and "drop pos s = t @ c # u" and "c \<notin> set t"
  shows "cpp_find [c] pos s = Some (pos + length t)"
  using assms by (simp add: cpp_find_def find_sub_single)

lemma take_value:
  assumes "drop pos body = json_text v @ c # rest" and "pos \<le> length body" and "value_ok v" and "c \<in> {44, 125}"
  shows "json_value_at body pos = raw_value v"
proof -
  have len: "length body = pos + length (json_text v @ c # rest)" using arg_cong [OF assms(1), of length] assms(2) by simp
  have hd: "body ! pos = hd (json_text v @ c # rest)"
    using assms(1) len by (metis hd_drop_conv_nth length_greater_0_conv add_less_same_cancel1 append_is_Nil_conv list.distinct(1)
        less_add_same_cancel1)
  show ?thesis
  proof (cases v)
    case (JStr s)
    have d: "drop (pos + 1) body = s @ 34 # c # rest" using arg_cong [OF assms(1), of "drop 1"] JStr by simp
    have "cpp_find [34] (pos + 1) body = Some (pos + 1 + length s)"
      by (rule cpp_find_char [OF _ d]) (use assms(3) JStr len in auto)
    then show ?thesis using JStr d hd len assms(1)
      by (simp add: json_value_at_def Let_def skip_blanks_def substr_to_def substr_def is_blank_def)
  next
    case (JNum s)
    then obtain x xs where s: "s = x # xs" "\<not> is_blank x" "x \<noteq> 34" using assms(3) by (cases s) auto
    have "find_first_of {44, 125} pos body = Some (pos + length s)"
      by (rule find_first_of_drop [of _ _ _ c rest]) (use assms JNum in auto)
    then show ?thesis using JNum s hd len assms(1)
      by (simp add: json_value_at_def Let_def skip_blanks_def substr_to_def substr_def)
  qed
qed

lemma findJsonValue_members:
  assumes "members_ok ps" and "key_ok key ps"
  shows "findJsonValue (json_object ps) key = (case map_of ps key of None \<Rightarrow> [] | Some v \<Rightarrow> raw_value v)"
proof (cases "map_of ps key")
  case None
  have "find_sub (json_key key) (json_object ps) = None"
    using members_absent [OF assms None] by (simp add: json_object_def json_key_def starts_with_def)
  then show ?thesis using None by (simp add: findJsonValue_def)
next
  case (Some v)
  obtain pre c rest where ps: "members ps = pre @ json_key key @ 58 # json_text v @ c # rest"
    and f: "find_sub (json_key key) (members ps) = Some (length pre)" and c: "c \<in> {44, 125}"
    using members_find [OF assms Some] by blast
  let ?b = "json_object ps" and ?p = "Suc (length pre)" and ?q = "Suc (length pre) + length (json_key key)"
  have fb: "find_sub (json_key key) ?b = Some ?p"
    using f by (simp add: json_object_def json_key_def starts_with_def)
  have b: "?b = (123 # pre) @ json_key key @ 58 # json_text v @ c # rest" by (simp add: json_object_def ps)
  have "58 \<notin> set (json_key key)" using assms(2) by (auto simp: key_ok_def json_key_def)
  then have q: "cpp_find [58] ?p ?b = Some ?q" by (intro cpp_find_char [of _ _ "json_key key"]) (simp_all add: b)
  have ok: "value_ok v" using assms(1) map_of_SomeD [OF Some] by (auto simp: members_ok_def)
  have d: "drop (?q + 1) ?b = json_text v @ c # rest" by (simp add: b)
  have "?q + 1 \<le> length ?b" by (simp add: b)
  from take_value [OF d this ok c] show ?thesis
    by (simp add: findJsonValue_def fb q Some)
qed

end
