(* ===== verification/Speed_Api.thy ===== *)
theory Speed_Api
  imports Json_Value Speed_Records Http_Protocol
begin

section \<open>The speed-test interface (\<^verbatim>\<open>SpeedTestApi.cpp\<close>, \<^verbatim>\<open>AdminPageHandler.cpp\<close>, \<^verbatim>\<open>http_route_config.cpp\<close>)\<close>

text \<open>
  The handlers behind the routes, with the database of \<open>Speed_Records\<close> as the application state of \<open>Http_Protocol\<close>; \<open>None\<close>
  is a null pointer. The record \<open>api_env\<close> collects what comes from outside: \<^verbatim>\<open>std::stod\<close>, the printing of doubles by
  \<^verbatim>\<open>operator<<\<close> (\<open>env_fmt\<close>) and by \<^verbatim>\<open>std::to_string\<close> (\<open>env_fixed\<close>), of time stamps, \<^verbatim>\<open>rand\<close>, the value of a conversion of a
  double to \<^verbatim>\<open>size_t\<close> that is out of range (\<open>env_cast\<close>), and SQLite's answers, which may depend on the database. The
  handlers are modelled on live objects: in the source they capture \<^verbatim>\<open>this\<close> of objects that are gone when
  \<^verbatim>\<open>RegisterRoutes\<close> returns.
\<close>

record api_env =
  env_stod :: "bytes \<Rightarrow> conv_error + jsnum"
  env_fmt :: "jsnum \<Rightarrow> bytes"
  env_fixed :: "jsnum \<Rightarrow> bytes"
  env_time :: "nat \<Rightarrow> bytes"
  env_cast :: "jsnum \<Rightarrow> u64"
  env_rand :: "database \<Rightarrow> int"
  env_save :: "database \<Rightarrow> bool \<times> bool \<times> nat"
  env_reread :: "jsnum \<Rightarrow> jsnum"
  env_avg :: "jsnum list \<Rightarrow> jsnum"
  env_tie :: "device_info list \<Rightarrow> device_info list"
  env_delivered :: "nat option"
  env_stats_run :: bool

type_synonym api_state = "database option"

definition json_type :: bytes where
  "json_type = str ''application/json''"

subsection \<open>Saving a result\<close>

definition field_double :: "api_env \<Rightarrow> bytes \<Rightarrow> jsnum" where
  "field_double env s = (if s = [] then Num 0 else case env_stod env s of Inl e \<Rightarrow> Num 0 | Inr x \<Rightarrow> x)"

definition field_int :: "bytes \<Rightarrow> int" where
  "field_int s = (if s = [] then 0 else case stoi s of Inl e \<Rightarrow> 0 | Inr n \<Rightarrow> n)"

text \<open>\<^verbatim>\<open>static_cast<size_t>\<close>: truncation towards zero where the result fits, undefined elsewhere.\<close>

definition to_size :: "api_env \<Rightarrow> jsnum \<Rightarrow> u64" where
  "to_size env x =
     (case x of Num r \<Rightarrow> if - 1 < r \<and> r < 2 ^ 64 then of_int \<lfloor>max r 0\<rfloor> else env_cast env x | _ \<Rightarrow> env_cast env x)"

definition default_bytes :: "api_env \<Rightarrow> jsnum \<Rightarrow> u64" where
  "default_bytes env speed =
     to_size env (js_mul (js_div (js_mul (js_mul speed (Num 1024)) (Num 1024)) (Num 8)) (Num 10))"

definition record_from :: "api_env \<Rightarrow> database \<Rightarrow> (bytes \<Rightarrow> bytes) \<Rightarrow> speed_record" where
  "record_from env d val =
     (let speed = field_double env (val (str ''speed''));
          dev_id = val (str ''device_id'');
          dev_name = val (str ''device_name'');
          bytes_str = val (str ''total_bytes'')
      in \<lparr>sr_id = 0,
          sr_device_id = (if dev_id \<noteq> [] then dev_id else str ''device_'' @ to_string (env_rand env d)),
          sr_device_name = (if dev_name \<noteq> [] then dev_name else str ''Unknown Device''),
          speed_mbps_of = speed,
          upload_speed_mbps = field_double env (val (str ''upload_speed'')),
          latency_ms = field_int (val (str ''latency_ms'')),
          jitter_ms = field_double env (val (str ''jitter_ms'')),
          packet_loss = field_double env (val (str ''packet_loss'')),
          total_bytes_of = (if bytes_str \<noteq> [] then
               (case stoul bytes_str of Inl e \<Rightarrow> default_bytes env speed | Inr n \<Rightarrow> of_nat n)
             else default_bytes env speed),
          test_duration = Num 10,
          created_at = 0\<rparr>)"

definition error_json :: "string \<Rightarrow> http_response \<Rightarrow> http_response" where
  "error_json b resp = SetContentType json_type (SetBody (str b) (SetStatus 500 [] resp))"

definition handleSaveRecord :: "api_env \<Rightarrow> api_state handler" where
  "handleSaveRecord env req x =
     (case x of (resp, db) \<Rightarrow>
        (case db of
           None \<Rightarrow> (error_json ''{\"status\":\"error\",\"message\":\"Database not available\"}'' resp, None)
         | Some d \<Rightarrow>
             (case env_save env d of (insert_runs, upsert_runs, now) \<Rightarrow>
                (case saveSpeedRecord insert_runs upsert_runs now (record_from env d (findJsonValue (req_body req))) d of
                   (d', ok) \<Rightarrow>
                     ((if ok then SetContentType json_type
                          (SetBody (str ''{\"status\":\"ok\",\"message\":\"Record saved\"}'') resp)
                       else error_json ''{\"status\":\"error\",\"message\":\"Database error\"}'' resp), Some d')))))"

subsection \<open>Queries\<close>

definition no_database :: string where
  "no_database = ''{\"error\":\"Database not available\"}''"

definition handleGetStats :: "api_env \<Rightarrow> api_state handler" where
  "handleGetStats env req x =
     (case x of (resp, db) \<Rightarrow>
        (case db of
           None \<Rightarrow> (error_json no_database resp, db)
         | Some d \<Rightarrow>
             let st = getStats (env_reread env) (env_avg env) (env_stats_run env) d
             in (SetContentType json_type (SetBody
                   (str ''{\"total_tests\":'' @ to_string (si_total_tests st) @ str '',\"avg_speed\":'' @ env_fmt env (si_avg_speed st)
                    @ str '',\"max_speed\":'' @ env_fmt env (si_max_speed st) @ str '',\"active_devices\":'' @ to_string (active_devices st)
                    @ str '',\"total_bytes\":'' @ to_string (total_bytes_transferred st) @ str '',\"avg_latency\":''
                    @ env_fmt env (si_avg_latency st) @ str '',\"avg_packet_loss\":'' @ env_fmt env (si_avg_packet_loss st)
                    @ str ''}'') resp), db)))"

definition device_entry :: "api_env \<Rightarrow> device_info \<Rightarrow> bytes" where
  "device_entry env v =
     str ''{\"device_id\":\"'' @ di_device_id v @ str ''\",\"device_name\":\"'' @ di_device_name v
     @ str ''\",\"last_seen\":\"'' @ env_time env (last_seen v) @ str ''\",\"total_tests\":'' @ to_string (total_tests v)
     @ str '',\"avg_speed\":'' @ env_fixed env (avg_speed v) @ str '',\"avg_latency\":'' @ to_string (avg_latency v)
     @ str '',\"avg_packet_loss\":'' @ env_fixed env (avg_packet_loss v) @ str ''}''"

definition history_entry :: "api_env \<Rightarrow> speed_record \<Rightarrow> bytes" where
  "history_entry env r =
     str ''{\"id\":'' @ to_string (sr_id r) @ str '',\"device_name\":\"'' @ sr_device_name r
     @ str ''\",\"speed_mbps\":'' @ env_fixed env (speed_mbps_of r) @ str '',\"created_at\":\"''
     @ env_time env (created_at r) @ str ''\"}''"

fun comma_list :: "bytes list \<Rightarrow> bytes" where
  "comma_list [] = []"
| "comma_list [e] = e"
| "comma_list (e # es) = e @ 44 # comma_list es"

definition json_array :: "bytes list \<Rightarrow> bytes" where
  "json_array es = 91 # comma_list es @ [93]"

definition handleGetDevices :: "api_env \<Rightarrow> api_state handler" where
  "handleGetDevices env req x =
     (case x of (resp, db) \<Rightarrow>
        (case db of
           None \<Rightarrow> (error_json no_database resp, db)
         | Some d \<Rightarrow>
             (SetContentType json_type (SetBody (json_array (map (device_entry env)
                (getDevices (env_reread env) (env_delivered env) (env_tie env) d))) resp), db)))"

definition handleGetHistory :: "api_env \<Rightarrow> api_state handler" where
  "handleGetHistory env req x =
     (case x of (resp, db) \<Rightarrow>
        (case db of
           None \<Rightarrow> (error_json no_database resp, db)
         | Some d \<Rightarrow>
             (SetContentType json_type (SetBody (json_array (map (history_entry env)
                (getHistory (env_reread env) (env_delivered env) 50 d))) resp), db)))"

definition api_Register :: "api_env \<Rightarrow> api_state protocol \<Rightarrow> api_state protocol" where
  "api_Register env s =
     Post (str ''/api/speedtest'') (handleSaveRecord env) (Get (str ''/api/history'') (handleGetHistory env)
       (Get (str ''/api/devices'') (handleGetDevices env) (Get (str ''/api/stats'') (handleGetStats env) s)))"

subsection \<open>The administration page\<close>

text \<open>Lines of a raw string literal, each ended by a newline.\<close>

definition text_lines :: "string list \<Rightarrow> bytes" where
  "text_lines ls = concat (map (\<lambda>l. str l @ [10]) ls)"

definition page_head :: bytes where
  "page_head = 10 # text_lines
       [''<!DOCTYPE html>'',
        ''<html>'',
        ''<head>'',
        ''    <title>Admin Panel - Speed Test Server</title>'',
        ''    <style>'',
        ''        body { font-family: Arial, sans-serif; margin: 20px; }'',
        ''        table { border-collapse: collapse; width: 100%; margin-bottom: 20px; }'',
        ''        th, td { border: 1px solid #ddd; padding: 8px; text-align: left; }'',
        ''        th { background-color: #4CAF50; color: white; }'',
        ''        .stats { background-color: #f2f2f2; padding: 10px; margin-bottom: 20px; border-radius: 5px; }'',
        ''    </style>'',
        ''</head>'',
        ''<body>'',
        ''    <h1>Admin Panel</h1>'',
        ''    '',
        ''    <div class=\"stats\">'',
        ''        <h2>Statistics</h2>'']"

definition page_devices :: bytes where
  "page_devices = text_lines
       ['' MB</p>'',
        ''    </div>'',
        ''    '',
        ''    <h2>Devices</h2>'',
        ''    <table>'',
        ''        <tr><th>Device ID</th><th>Name</th><th>Tests</th><th>Avg Speed</th><th>Avg Latency</th><th>Last Seen</th></tr>'']"

definition page_history :: bytes where
  "page_history = 10 # text_lines
       [''    </table>'',
        ''    '',
        ''    <h2>Recent Tests (Last 20)</h2>'',
        ''    <table>'',
        ''        <tr><th>ID</th><th>Device</th><th>Download</th><th>Upload</th><th>Latency</th><th>Time</th></tr>'']"

definition page_end :: bytes where
  "page_end = 10 # text_lines
       [''    </table>'',
        ''</body>'',
        ''</html>'']"

text \<open>The second cell of a device row is closed by \<^verbatim>\<open></table>\<close>, as in the source.\<close>

definition device_row :: "api_env \<Rightarrow> device_info \<Rightarrow> bytes" where
  "device_row env v =
     str ''<tr><td>'' @ di_device_id v @ str ''</td><td>'' @ di_device_name v @ str ''</table><td>''
     @ to_string (total_tests v) @ str ''</td><td>'' @ env_fmt env (avg_speed v) @ str '' Mbps</td><td>''
     @ to_string (avg_latency v) @ str '' ms</td><td>'' @ env_time env (last_seen v) @ str ''</td></tr>''"

definition history_row :: "api_env \<Rightarrow> speed_record \<Rightarrow> bytes" where
  "history_row env r =
     str ''<tr><td>'' @ to_string (sr_id r) @ str ''</td><td>'' @ sr_device_name r @ str ''</td><td>''
     @ env_fmt env (speed_mbps_of r) @ str '' Mbps</td><td>'' @ env_fmt env (upload_speed_mbps r) @ str '' Mbps</td><td>''
     @ to_string (latency_ms r) @ str '' ms</td><td>'' @ env_time env (created_at r) @ str ''</td></tr>''"

definition stats_block :: "api_env \<Rightarrow> stats_info \<Rightarrow> bytes" where
  "stats_block env st =
     str ''        <p>Total Tests: '' @ to_string (si_total_tests st) @ text_lines [''</p>'']
     @ str ''        <p>Average Speed: '' @ env_fmt env (si_avg_speed st) @ text_lines ['' Mbps</p>'']
     @ str ''        <p>Max Speed: '' @ env_fmt env (si_max_speed st) @ text_lines ['' Mbps</p>'']
     @ str ''        <p>Average Latency: '' @ env_fmt env (si_avg_latency st) @ text_lines ['' ms</p>'']
     @ str ''        <p>Active Devices: '' @ to_string (active_devices st) @ text_lines [''</p>'']
     @ str ''        <p>Total Data Transferred: '' @ to_string (total_bytes_transferred st sdiv 1024 sdiv 1024)"

definition handleAdminPage :: "api_env \<Rightarrow> api_state handler" where
  "handleAdminPage env req x =
     (case x of (resp, db) \<Rightarrow>
        (case db of
           None \<Rightarrow> (SetContentType (str ''text/html'')
              (SetBody (str ''<html><body><h1>Database not available</h1></body></html>'') resp), db)
         | Some d \<Rightarrow>
             let st = getStats (env_reread env) (env_avg env) (env_stats_run env) d;
                 devs = getDevices (env_reread env) (env_delivered env) (env_tie env) d;
                 hist = getHistory (env_reread env) (env_delivered env) 20 d
             in (SetContentType (str ''text/html'') (SetBody
                   (page_head @ stats_block env st @ page_devices @ concat (map (device_row env) devs)
                    @ page_history @ concat (map (history_row env) hist) @ page_end) resp), db)))"

definition admin_Register :: "api_env \<Rightarrow> api_state protocol \<Rightarrow> api_state protocol" where
  "admin_Register env s = Get (str ''/admin'') (handleAdminPage env) s"

subsection \<open>Routes\<close>

definition fallback_page :: bytes where
  "fallback_page = 10 # text_lines
       [''<!DOCTYPE html>'',
        ''<html>'',
        ''<head><title>Speed Test</title></head>'',
        ''<body>'',
        ''<h1>Speed Test Server</h1>'',
        ''<p>Server is running! Please ensure index.html exists in examples/public/</p>'',
        ''<a href=\"/admin\">Admin Panel</a>'',
        ''</body>'',
        ''</html>'']"

definition handleRoot :: "(bytes \<rightharpoonup> bytes) \<Rightarrow> 'w handler" where
  "handleRoot files req x =
     (case x of (resp, w) \<Rightarrow>
        let content = (case files (str ''examples/public/index.html'') of
                         Some c \<Rightarrow> c
                       | None \<Rightarrow> (case files (str ''/CODE/OrangeLi_Http_Server/examples/public/index.html'') of
                            Some c \<Rightarrow> c | None \<Rightarrow> []))
        in (SetContentType (str ''text/html'') (SetBody (if content = [] then fallback_page else content) resp), w))"

definition RegisterRoutes ::
  "api_env \<Rightarrow> (bytes \<rightharpoonup> bytes) \<Rightarrow> api_state \<Rightarrow> api_state protocol \<Rightarrow> api_state protocol" where
  "RegisterRoutes env files db s =
     (if db = None then s
      else Get (str ''/'') (handleRoot files)
        (ServeStatic (str ''/js'') (str ''examples/public/js'') (ServeStatic (str ''/css'') (str ''examples/public/css'')
          (ServeStatic (str ''/static'') (str ''examples/public'') (admin_Register env (api_Register env s))))))"

subsection \<open>What is saved\<close>

definition lookup :: "(bytes \<times> json_value) list \<Rightarrow> bytes \<Rightarrow> bytes" where
  "lookup ps k = (case map_of ps k of None \<Rightarrow> [] | Some v \<Rightarrow> raw_value v)"

definition api_keys :: "bytes list" where
  "api_keys = map str [''speed'', ''device_id'', ''device_name'', ''upload_speed'', ''latency_ms'', ''jitter_ms'',
     ''packet_loss'', ''total_bytes'']"

text \<open>An object the interface can read: no quotes inside strings, and no string equal to a field name.\<close>

definition readable_object :: "(bytes \<times> json_value) list \<Rightarrow> bool" where
  "readable_object ps \<longleftrightarrow> members_ok ps \<and> (\<forall>k \<in> set api_keys. JStr k \<notin> snd ` set ps)"

lemma api_keys_clean: "k \<in> set api_keys \<Longrightarrow> set k \<inter> {34, 44, 58} = {}"
  by (auto simp: api_keys_def str_simps)

lemma findJsonValue_readable:
  "readable_object ps \<Longrightarrow> k \<in> set api_keys \<Longrightarrow> findJsonValue (json_object ps) k = lookup ps k"
  using findJsonValue_members [of ps k] api_keys_clean [of k] by (simp add: readable_object_def key_ok_def lookup_def)

lemma record_from_cong: "\<forall>k \<in> set api_keys. val k = val' k \<Longrightarrow> record_from env d val = record_from env d val'"
  by (simp add: record_from_def api_keys_def)

lemma handleSaveRecord_object:
  assumes "readable_object ps" and "req_body req = json_object ps" and "env_save env d = (i, u, now)"
  shows "handleSaveRecord env req (resp, Some d) =
    (let x = (i, u, now, record_from env d (lookup ps))
     in (if save_ok x then SetContentType json_type (SetBody (str ''{\"status\":\"ok\",\"message\":\"Record saved\"}'') resp)
         else error_json ''{\"status\":\"error\",\"message\":\"Database error\"}'' resp, Some (do_save x d)))"
proof -
  have "record_from env d (findJsonValue (json_object ps)) = record_from env d (lookup ps)"
    using findJsonValue_readable [OF assms(1)] by (intro record_from_cong) simp
  moreover obtain d' ok where "saveSpeedRecord i u now (record_from env d (lookup ps)) d = (d', ok)" by fastforce
  moreover from this have "save_ok (i, u, now, record_from env d (lookup ps)) = ok"
    using saveSpeedRecord_result [of i u now "record_from env d (lookup ps)" d] by simp
  ultimately show ?thesis
    using assms(2,3) by (simp add: handleSaveRecord_def do_save_def Let_def)
qed

lemma SetContentType_frame [simp]:
  "status_code (SetContentType t r) = status_code r" "resp_body (SetContentType t r) = resp_body r"
  by (simp_all add: SetContentType_def resp_AddHeader_def)

lemma SetBody_frame [simp]: "status_code (SetBody b r) = status_code r" "resp_body (SetBody b r) = b"
  by (simp_all add: SetBody_def)

lemma error_json_status [simp]: "status_code (error_json b r) = 500"
  by (simp add: error_json_def SetStatus_def)

subsection \<open>The routes\<close>

lemma match_literal:
  "58 \<notin> set pat \<Longrightarrow> match_tokens (compile_pattern pat) path = (if path = pat then Some [] else None)"
proof (induction pat arbitrary: path)
  case (Cons c pat)
  then show ?case by (cases path) auto
qed simp

lemma match_literal_params: "58 \<notin> set pat \<Longrightarrow> param_names (compile_pattern pat) = []"
  by (induction pat) auto

lemma MatchRoute_literals:
  "\<forall>(p, h) \<in> set hs. 58 \<notin> set p \<Longrightarrow>
   MatchRoute (map (\<lambda>(p, h). CreateRouteEntry p h) hs) path = map_option (\<lambda>h. (h, [])) (map_of hs path)"
proof (induction hs)
  case (Cons ph hs)
  then show ?case by (cases ph) (auto simp: CreateRouteEntry_def match_literal match_literal_params)
qed simp

definition get_table :: "api_env \<Rightarrow> (bytes \<rightharpoonup> bytes) \<Rightarrow> (bytes \<times> api_state handler) list" where
  "get_table env files =
     [(str ''/api/stats'', handleGetStats env), (str ''/api/devices'', handleGetDevices env),
      (str ''/api/history'', handleGetHistory env), (str ''/admin'', handleAdminPage env), (str ''/'', handleRoot files)]"

definition api_server :: "api_env \<Rightarrow> (bytes \<rightharpoonup> bytes) \<Rightarrow> database \<Rightarrow> api_state protocol" where
  "api_server env files d = RegisterRoutes env files (Some d) protocol_new"

lemmas register_defs = api_server_def RegisterRoutes_def admin_Register_def api_Register_def Get_def Post_def
  ServeStatic_def protocol_new_def

lemma api_get_routes:
  "get_routes (api_server env files d) = map (\<lambda>(p, h). CreateRouteEntry p h) (get_table env files)"
  by (simp add: register_defs get_table_def)

lemma api_post_routes:
  "post_routes (api_server env files d) =
     map (\<lambda>(p, h). CreateRouteEntry p h) [(str ''/api/speedtest'', handleSaveRecord env)]"
  by (simp add: register_defs)

lemma api_match:
  "MatchRoute (get_routes (api_server env files d)) path = map_option (\<lambda>h. (h, [])) (map_of (get_table env files) path)"
  "MatchRoute (post_routes (api_server env files d)) path =
     (if path = str ''/api/speedtest'' then Some (handleSaveRecord env, []) else None)"
  unfolding api_get_routes api_post_routes
  by (subst MatchRoute_literals; simp add: get_table_def str_simps)+

lemma api_post_handled:
  fixes env files d i u now ps
  defines "x \<equiv> (i, u, now, record_from env d (lookup ps))"
  assumes "readable_object ps" and "req_body req = json_object ps" and "req_method req = str ''POST''"
    and "req_path req = str ''/api/speedtest''" and "env_save env d = (i, u, now)" and "iter [] = []"
  shows "\<exists>r. HandleRequest any_files iter (api_server env files d) req (Some d) =
      ([Op_SendAsync (resp_ToString iter r)], Some (do_save x d), None) \<and>
    status_code r = (if save_ok x then 200 else 500)"
proof -
  have "status_code http_response_new = 200" by (simp add: http_response_new_def)
  then obtain r where h: "handleSaveRecord env req (http_response_new, Some d) = (r, Some (do_save x d))"
    and status: "status_code r = (if save_ok x then 200 else 500)"
    unfolding handleSaveRecord_object [OF assms(2,3,6)] x_def Let_def by simp
  have "routes_for (req_method req) (api_server env files d) = post_routes (api_server env files d)"
    using assms(4) by (simp add: routes_for_def str_simps)
  moreover have "middlewares (api_server env files d) = []" by (simp add: register_defs)
  ultimately have "HandleRequest any_files iter (api_server env files d) req (Some d) =
      ([Op_SendAsync (resp_ToString iter r)], Some (do_save x d), None)"
    using assms(5,7) h by (simp add: HandleRequest_def api_match)
  then show ?thesis using status by blast
qed


text \<open>After a successful save of a JSON object the list that \<^verbatim>\<open>/api/history\<close> returns starts with the entry of that
  object, as it comes back from the database.\<close>

theorem api_history_shows_post:
  assumes "readable_object ps" and "req_body req = json_object ps" and "env_save env d = (True, True, now)"
    and "field_double env (lookup ps (str ''speed'')) \<noteq> NaN" and "env_delivered env = None"
  shows "\<exists>rest. resp_body (fst (handleGetHistory env req2 (resp2, snd (handleSaveRecord env req (resp, Some d))))) =
    91 # history_entry env (recordCallback (env_reread env)
      (stored_row (last_rowid d + 1) (True, True, now, record_from env d (lookup ps)))) @ rest"
proof -
  let ?x = "(True, True, now, record_from env d (lookup ps))"
  have st: "save_stored ?x" "save_ok ?x" using assms(4) by (simp_all add: save_stored_def save_ok_def record_from_def Let_def)
  have cl: "\<exists>rest. comma_list (e # es) @ [93] = e @ rest" for e es by (cases es) auto
  have "handleSaveRecord env req (resp, Some d) =
      (SetContentType json_type (SetBody (str ''{\"status\":\"ok\",\"message\":\"Record saved\"}'') resp), Some (do_save ?x d))"
    using handleSaveRecord_object [OF assms(1,2,3), of resp] st(2) by (simp add: Let_def)
  then show ?thesis using st(1) cl assms(5)
    by (simp add: handleGetHistory_def getHistory_def rows_delivered_def do_save_records json_array_def)
qed

definition sample_env :: api_env where
  "sample_env =
     \<lparr>env_stod = (\<lambda>s. Inr (Num (of_nat (digits_value s)))), env_fmt = (\<lambda>x. []), env_fixed = (\<lambda>x. []), env_time = nat_digits,
      env_cast = (\<lambda>x. 0), env_rand = (\<lambda>d. 7), env_save = (\<lambda>d. (True, True, 9)), env_reread = id, env_avg = (\<lambda>xs. NaN),
      env_tie = id, env_delivered = None, env_stats_run = True\<rparr>"

definition sample_object :: "(bytes \<times> json_value) list" where
  "sample_object = [(str ''device_name'', JStr (str ''pc'')), (str ''speed'', JNum (str ''50''))]"

definition sample_post :: http_request where
  "sample_post = http_request_new\<lparr>req_method := str ''POST'', req_path := str ''/api/speedtest'',
     req_body := json_object sample_object\<rparr>"

lemma sample_readable: "readable_object sample_object"
  by (simp add: readable_object_def members_ok_def sample_object_def api_keys_def str_simps is_blank_def)

lemma sample_saves: "env_save sample_env d = (True, True, 9)"
  by (simp add: sample_env_def)

lemma sample_speed: "field_double sample_env (lookup sample_object (str ''speed'')) = Num 50"
  by (simp add: field_double_def lookup_def sample_object_def sample_env_def digits_value_def str_simps)


theorem api_history_shows_post_witness:
  "\<exists>rest. resp_body (fst (handleGetHistory sample_env http_request_new
     (http_response_new, snd (handleSaveRecord sample_env sample_post (http_response_new, Some createTables))))) =
    91 # history_entry sample_env (recordCallback id (stored_row 1
      (True, True, 9, record_from sample_env createTables (lookup sample_object)))) @ rest"
  using api_history_shows_post [OF sample_readable, of sample_post sample_env createTables 9 http_request_new
      http_response_new http_response_new] sample_speed
  by (simp add: sample_saves sample_post_def createTables_def, simp add: sample_env_def)

subsection \<open>Where searching is not parsing\<close>

text \<open>A device that calls itself \<^verbatim>\<open>total_bytes\<close> has the speed stored as its number of bytes.\<close>

lemma key_found_in_value:
  "findJsonValue (json_object [(str ''device_name'', JStr (str ''total_bytes'')), (str ''speed'', JNum (str ''50''))])
     (str ''total_bytes'') = str ''50''"
  by (simp add: json_object_def json_key_def findJsonValue_def str_simps starts_with_def cpp_find_def json_value_at_def
      skip_blanks_def is_blank_def substr_to_def substr_def find_first_of_def)

text \<open>An entry of the history is a flat object, so the reader of this server reads it back.\<close>

lemma history_entry_object:
  "history_entry env r = json_object
     [(str ''id'', JNum (to_string (sr_id r))), (str ''device_name'', JStr (sr_device_name r)),
      (str ''speed_mbps'', JNum (env_fixed env (speed_mbps_of r))), (str ''created_at'', JStr (env_time env (created_at r)))]"
  by (simp add: history_entry_def json_object_def json_key_def str_simps)

text \<open>Names go into the page as they are, markup included.\<close>

lemma admin_page_verbatim:
  assumes "v \<in> set (getDevices (env_reread env) (env_delivered env) (env_tie env) d)"
  shows "\<exists>pre post. resp_body (fst (handleAdminPage env req (resp, Some d))) = pre @ di_device_name v @ post"
proof -
  from split_list [OF assms] obtain xs ys
    where devs: "getDevices (env_reread env) (env_delivered env) (env_tie env) d = xs @ v # ys" by blast
  obtain a b where row: "device_row env v = a @ di_device_name v @ b"
    unfolding device_row_def by (metis append.assoc)
  let ?st = "stats_block env (getStats (env_reread env) (env_avg env) (env_stats_run env) d)"
  have "resp_body (fst (handleAdminPage env req (resp, Some d))) =
      (page_head @ ?st @ page_devices @ concat (map (device_row env) xs) @ a) @ di_device_name v @
      (b @ concat (map (device_row env) ys) @ page_history @
       concat (map (history_row env) (getHistory (env_reread env) (env_delivered env) 20 d)) @ page_end)"
    by (simp add: handleAdminPage_def Let_def devs row)
  then show ?thesis by blast
qed

end
