(* ===== verification/Index_Page.thy ===== *)
theory Index_Page
  imports Speedtest_Client
begin

section \<open>The page the server delivers (\<^verbatim>\<open>examples/public/index.html\<close>)\<close>

text \<open>
  The script inside \<^verbatim>\<open>index.html\<close>. Its variables and the page elements it writes are the record \<open>index_state\<close>, with the sockets it
  has created, the interval timers and timeouts that are live and the requests it has sent. Each function of the script is one definition.
  \<^verbatim>\<open>Date.now()\<close> is an integer (time values stay below \<open>2 ^ 53\<close>, where numbers are exact) and is read once per handler; all
  other numbers are doubles. \<open>index_act\<close> runs the handler of an event of the browser, \<open>index_enabled\<close> says when the
  event can happen: handlers of sockets that are no longer the current one fire as well, as nothing removes them.

  The address up to the path (protocol and \<^verbatim>\<open>location.host\<close>) is the parameter \<open>host\<close>; the name taken from \<^verbatim>\<open>navigator.userAgent\<close> and the printing of a number by \<^verbatim>\<open>JSON.stringify\<close> are parameters. What
  \<^verbatim>\<open>JSON.parse\<close> makes of a text message is part of the event: \<open>None\<close> if it is not an object of type \<^verbatim>\<open>end\<close>.
\<close>

record index_dom =
  d_speed :: dom_text
  d_width :: dom_text
  d_disabled :: bool
  d_button :: jsstring
  d_status :: jsstring
  d_peak :: dom_text
  d_total :: dom_text

record index_state =
  ix_ws :: "nat option"
  ix_sockets :: "socket list"
  testStartTime :: int
  ix_total :: jsnum
  peakSpeed :: jsnum
  isRunning :: bool
  ix_chunks :: "(int \<times> jsnum) list"
  uiTimer :: "nat option"
  live_intervals :: "nat list"
  next_handle :: nat
  timeouts :: "int list"
  ix_dom :: index_dom
  saved :: "(int \<times> jsnum) list"

text \<open>The argument of \<^verbatim>\<open>finishTest\<close>: missing or \<^verbatim>\<open>null\<close>, a number, or a value without \<^verbatim>\<open>toFixed\<close>.\<close>

datatype final_speed = Absent | Final jsnum | Not_A_Number

definition TEST_DURATION :: int where "TEST_DURATION = 10000"
definition WINDOW_SIZE :: int where "WINDOW_SIZE = 2000"

fun js_gt :: "jsnum \<Rightarrow> jsnum \<Rightarrow> bool" where
  "js_gt NaN y = False"
| "js_gt x NaN = False"
| "js_gt (Num a) (Num b) = (b < a)"
| "js_gt (Infinity s) (Infinity t) = (\<not> s \<and> t)"
| "js_gt (Infinity s) (Num b) = (\<not> s)"
| "js_gt (Num a) (Infinity t) = t"

fun js_min :: "jsnum \<Rightarrow> jsnum \<Rightarrow> jsnum" where
  "js_min NaN y = NaN"
| "js_min x NaN = NaN"
| "js_min x y = (if js_gt x y then y else x)"

definition index_init :: index_state where
  "index_init =
     \<lparr>ix_ws = None, ix_sockets = [], testStartTime = 0, ix_total = Num 0, peakSpeed = Num 0, isRunning = False,
      ix_chunks = [], uiTimer = None, live_intervals = [], next_handle = 1, timeouts = [],
      ix_dom = \<lparr>d_speed = [Chars (asc ''0.00'')], d_width = [], d_disabled = False,
                d_button = [0x5F00, 0x59CB, 0x6D4B, 0x901F], d_status = [], d_peak = [Chars (asc ''0.00 Mbps'')],
                d_total = [Chars (asc ''0 MB'')]\<rparr>,
      saved = []\<rparr>"

definition formatSpeed :: "jsnum \<Rightarrow> dom_text" where
  "formatSpeed mbps = toFixed2 mbps"

definition formatData :: "jsnum \<Rightarrow> dom_text" where
  "formatData n = toFixed2 (js_div n (Num 1048576))"

definition updateUI :: "int \<Rightarrow> jsnum \<Rightarrow> index_state \<Rightarrow> index_state" where
  "updateUI now speed s =
     (let s1 = s\<lparr>ix_dom := (ix_dom s)\<lparr>d_speed := formatSpeed speed\<rparr>\<rparr>;
          s2 = (if js_gt speed (peakSpeed s1)
                then s1\<lparr>peakSpeed := speed, ix_dom := (ix_dom s1)\<lparr>d_peak := formatSpeed speed @ [Chars (asc '' Mbps'')]\<rparr>\<rparr>
                else s1);
          s3 = s2\<lparr>ix_dom := (ix_dom s2)\<lparr>d_total := formatData (ix_total s2) @ [Chars (asc '' MB'')]\<rparr>\<rparr>
      in if isRunning s3 \<and> 0 < testStartTime s3
         then let progress = js_min (Num 100)
                    (js_mul (js_div (Num (of_int (now - testStartTime s3))) (Num (of_int TEST_DURATION))) (Num 100))
              in s3\<lparr>ix_dom := (ix_dom s3)\<lparr>d_width := [NumStr progress, Chars (asc ''%'')]\<rparr>\<rparr>
         else s3)"

definition window_speed :: "(int \<times> jsnum) list \<Rightarrow> jsnum" where
  "window_speed cs =
     (if length cs < 2 then Num 0
      else let windowBytes = foldl js_add (Num 0) (map snd cs);
               durationSec = js_div (Num (of_int (fst (last cs) - fst (hd cs)))) (Num 1000)
           in if \<not> js_gt durationSec (Num 0) then Num 0
              else js_div (js_div (js_mul windowBytes (Num 8)) durationSec) (Num 1000000))"

definition computeInstantSpeed :: "int \<Rightarrow> index_state \<Rightarrow> index_state \<times> jsnum" where
  "computeInstantSpeed now s =
     (if ix_chunks s = [] then (s, Num 0)
      else let cs = dropWhile (\<lambda>c. WINDOW_SIZE < now - fst c) (ix_chunks s)
           in (s\<lparr>ix_chunks := cs\<rparr>, window_speed cs))"

text \<open>\<^verbatim>\<open>data.byteLength || data.size || data.length\<close> of an empty \<^verbatim>\<open>ArrayBuffer\<close> is \<^verbatim>\<open>undefined\<close>, which counts as NaN in sums.\<close>

definition chunk_bytes :: "nat \<Rightarrow> jsnum" where
  "chunk_bytes n = (if n = 0 then NaN else Num (of_nat n))"

definition maxChunks :: nat where
  "maxChunks = 50"

definition handleDataChunk :: "int \<Rightarrow> nat \<Rightarrow> index_state \<Rightarrow> index_state" where
  "handleDataChunk now n s =
     (let cs = ix_chunks s @ [(now, chunk_bytes n)]
      in s\<lparr>ix_total := js_add (ix_total s) (chunk_bytes n),
           ix_chunks := (if maxChunks * 2 < length cs then lastn maxChunks cs else cs)\<rparr>)"

definition stopUITimer :: "index_state \<Rightarrow> index_state" where
  "stopUITimer s =
     (case uiTimer s of
        None \<Rightarrow> s
      | Some h \<Rightarrow> s\<lparr>live_intervals := remove1 h (live_intervals s), uiTimer := None\<rparr>)"

definition startUITimer :: "index_state \<Rightarrow> index_state" where
  "startUITimer s =
     (let s1 = (case uiTimer s of None \<Rightarrow> s | Some h \<Rightarrow> s\<lparr>live_intervals := remove1 h (live_intervals s)\<rparr>)
      in s1\<lparr>uiTimer := Some (next_handle s1), live_intervals := next_handle s1 # live_intervals s1,
            next_handle := next_handle s1 + 1\<rparr>)"

definition ui_tick :: "int \<Rightarrow> index_state \<Rightarrow> index_state" where
  "ui_tick now s =
     (if \<not> isRunning s then s
      else case computeInstantSpeed now s of (s1, speed) \<Rightarrow> updateUI now speed s1)"

definition resetState :: "index_state \<Rightarrow> index_state" where
  "resetState s =
     s\<lparr>ix_total := Num 0, peakSpeed := Num 0, ix_chunks := [],
       ix_dom := (ix_dom s)\<lparr>d_width := [Chars (asc ''0%'')], d_speed := [Chars (asc ''0.00'')],
         d_peak := [Chars (asc ''0.00 Mbps'')], d_total := [Chars (asc ''0 MB'')], d_status := []\<rparr>\<rparr>"

definition saveRecord :: "int \<Rightarrow> jsnum \<Rightarrow> index_state \<Rightarrow> index_state" where
  "saveRecord now speed s = s\<lparr>saved := saved s @ [(now, speed)]\<rparr>"

definition ix_ws_close :: "nat \<Rightarrow> socket list \<Rightarrow> socket list" where
  "ix_ws_close i ss =
     (if readyState (ss ! i) = CONNECTING \<or> readyState (ss ! i) = OPEN then ss[i := (ss ! i)\<lparr>readyState := CLOSING\<rparr>] else ss)"

text \<open>A final speed that is not a number makes \<^verbatim>\<open>updateUI\<close> throw at its first statement; the caller catches the exception.\<close>

definition finish_with :: "int \<Rightarrow> jsnum \<Rightarrow> index_state \<Rightarrow> index_state" where
  "finish_with now speed s =
     (let s1 = saveRecord now speed (updateUI now speed s);
          s2 = s1\<lparr>ix_dom := (ix_dom s1)\<lparr>d_status := [0x6D4B, 0x901F, 0x5B8C, 0x6210], d_width := [Chars (asc ''100%'')]\<rparr>\<rparr>
      in case ix_ws s2 of
           None \<Rightarrow> s2
         | Some i \<Rightarrow> s2\<lparr>ix_sockets := ix_ws_close i (ix_sockets s2), ix_ws := None\<rparr>)"

definition finishTest :: "int \<Rightarrow> final_speed \<Rightarrow> index_state \<Rightarrow> index_state" where
  "finishTest now fin s =
     (if \<not> isRunning s then s
      else let s1 = stopUITimer (s\<lparr>isRunning := False,
                 ix_dom := (ix_dom s)\<lparr>d_disabled := False, d_button := [0x5F00, 0x59CB, 0x6D4B, 0x901F]\<rparr>\<rparr>)
           in case fin of
                Absent \<Rightarrow> (case computeInstantSpeed now s1 of (s2, v) \<Rightarrow> finish_with now v s2)
              | Final v \<Rightarrow> finish_with now v s1
              | Not_A_Number \<Rightarrow> s1)"

definition ix_startTest :: "jsstring \<Rightarrow> int \<Rightarrow> index_state \<Rightarrow> index_state" where
  "ix_startTest host now s =
     (if isRunning s then s
      else let s1 = resetState s
           in s1\<lparr>isRunning := True, testStartTime := now,
                 ix_dom := (ix_dom s1)\<lparr>d_disabled := True, d_button := [0x6D4B, 0x901F, 0x4E2D] @ asc ''...'',
                   d_status := [0x6B63, 0x5728, 0x8FDE, 0x63A5, 0x670D, 0x52A1, 0x5668] @ asc ''...''\<rparr>,
                 ix_sockets := ix_sockets s1 @ [\<lparr>url = host @ asc ''/ws/speedtest'', binaryType = asc ''arraybuffer'',
                                                 readyState = CONNECTING, sent = []\<rparr>],
                 ix_ws := Some (length (ix_sockets s1))\<rparr>)"

definition ix_onopen :: "int \<Rightarrow> index_state \<Rightarrow> index_state" where
  "ix_onopen now s =
     (let s1 = startUITimer (s\<lparr>ix_dom := (ix_dom s)\<lparr>d_status := [0x6D4B, 0x901F, 0x4E2D] @ asc ''...''\<rparr>\<rparr>)
      in s1\<lparr>timeouts := timeouts s1 @ [now + TEST_DURATION]\<rparr>)"

definition ix_timeout :: "int \<Rightarrow> index_state \<Rightarrow> index_state" where
  "ix_timeout now s = (if isRunning s then finishTest now Absent s else s)"

definition ix_onbinary :: "int \<Rightarrow> nat \<Rightarrow> index_state \<Rightarrow> index_state" where
  "ix_onbinary now n s = (if isRunning s then handleDataChunk now n s else s)"

definition ix_ontext :: "int \<Rightarrow> final_speed option \<Rightarrow> index_state \<Rightarrow> index_state" where
  "ix_ontext now msg s =
     (if \<not> isRunning s then s else case msg of None \<Rightarrow> s | Some fin \<Rightarrow> finishTest now fin s)"

definition ix_onerror :: "int \<Rightarrow> index_state \<Rightarrow> index_state" where
  "ix_onerror now s =
     finishTest now (Final (Num 0)) (s\<lparr>ix_dom := (ix_dom s)\<lparr>d_status := [0x8FDE, 0x63A5, 0x9519, 0x8BEF]\<rparr>\<rparr>)"

definition ix_onclose :: "int \<Rightarrow> index_state \<Rightarrow> index_state" where
  "ix_onclose now s = (if isRunning s then finishTest now Absent s else s)"

subsection \<open>Events of the browser\<close>

datatype index_event =
  Click | Opened nat | Binary nat nat | Text nat "final_speed option" | Failed nat | Closed_By_Peer nat | Tick nat | Timeout nat

definition ix_set_state :: "nat \<Rightarrow> ready_state \<Rightarrow> index_state \<Rightarrow> index_state" where
  "ix_set_state i r s = s\<lparr>ix_sockets := (ix_sockets s)[i := (ix_sockets s ! i)\<lparr>readyState := r\<rparr>]\<rparr>"

definition in_state :: "ready_state list \<Rightarrow> nat \<Rightarrow> index_state \<Rightarrow> bool" where
  "in_state rs i s \<longleftrightarrow> i < length (ix_sockets s) \<and> readyState (ix_sockets s ! i) \<in> set rs"

fun index_enabled :: "int \<Rightarrow> index_event \<Rightarrow> index_state \<Rightarrow> bool" where
  "index_enabled now Click s = (\<not> d_disabled (ix_dom s))"
| "index_enabled now (Opened i) s = in_state [CONNECTING] i s"
| "index_enabled now (Binary i n) s = in_state [OPEN] i s"
| "index_enabled now (Text i m) s = in_state [OPEN] i s"
| "index_enabled now (Failed i) s = in_state [CONNECTING, OPEN, CLOSING] i s"
| "index_enabled now (Closed_By_Peer i) s = in_state [OPEN, CLOSING] i s"
| "index_enabled now (Tick h) s = (h \<in> set (live_intervals s))"
| "index_enabled now (Timeout k) s = (k < length (timeouts s) \<and> timeouts s ! k \<le> now)"

text \<open>A socket that fails fires \<^verbatim>\<open>error\<close> and then \<^verbatim>\<open>close\<close>.\<close>

fun index_act :: "jsstring \<Rightarrow> int \<Rightarrow> index_event \<Rightarrow> index_state \<Rightarrow> index_state" where
  "index_act host now Click s = ix_startTest host now s"
| "index_act host now (Opened i) s = ix_onopen now (ix_set_state i OPEN s)"
| "index_act host now (Binary i n) s = ix_onbinary now n s"
| "index_act host now (Text i m) s = ix_ontext now m s"
| "index_act host now (Failed i) s = ix_onclose now (ix_onerror now (ix_set_state i CLOSED s))"
| "index_act host now (Closed_By_Peer i) s = ix_onclose now (ix_set_state i CLOSED s)"
| "index_act host now (Tick h) s = ui_tick now s"
| "index_act host now (Timeout k) s = ix_timeout now (s\<lparr>timeouts := take k (timeouts s) @ drop (Suc k) (timeouts s)\<rparr>)"

text \<open>A run: events with the times they happen at, in order, newest first.\<close>

inductive index_run :: "jsstring \<Rightarrow> (int \<times> index_event) list \<Rightarrow> index_state \<Rightarrow> bool" for host where
  run_start: "index_run host [] index_init"
| run_event: "index_run host evs s \<Longrightarrow> (evs = [] \<longrightarrow> 0 < now) \<Longrightarrow> (evs \<noteq> [] \<longrightarrow> fst (hd evs) \<le> now) \<Longrightarrow>
    index_enabled now ev s \<Longrightarrow> index_run host ((now, ev) # evs) (index_act host now ev s)"

subsection \<open>What the functions leave alone\<close>

lemma updateUI_frame [simp]:
  "ix_chunks (updateUI now v s) = ix_chunks s" "uiTimer (updateUI now v s) = uiTimer s"
  "live_intervals (updateUI now v s) = live_intervals s" "isRunning (updateUI now v s) = isRunning s"
  "d_disabled (ix_dom (updateUI now v s)) = d_disabled (ix_dom s)" "saved (updateUI now v s) = saved s"
  "ix_total (updateUI now v s) = ix_total s" "ix_ws (updateUI now v s) = ix_ws s"
  "ix_sockets (updateUI now v s) = ix_sockets s" "timeouts (updateUI now v s) = timeouts s"
  "testStartTime (updateUI now v s) = testStartTime s"
  by (simp_all add: updateUI_def Let_def)

lemma computeInstantSpeed_frame [simp]:
  "fst (computeInstantSpeed now s) = s\<lparr>ix_chunks := dropWhile (\<lambda>c. WINDOW_SIZE < now - fst c) (ix_chunks s)\<rparr>"
  by (simp add: computeInstantSpeed_def Let_def)

lemma finish_with_frame [simp]:
  "ix_chunks (finish_with now v s) = ix_chunks s" "uiTimer (finish_with now v s) = uiTimer s"
  "live_intervals (finish_with now v s) = live_intervals s" "isRunning (finish_with now v s) = isRunning s"
  "d_disabled (ix_dom (finish_with now v s)) = d_disabled (ix_dom s)" "saved (finish_with now v s) = saved s @ [(now, v)]"
  "ix_total (finish_with now v s) = ix_total s" "timeouts (finish_with now v s) = timeouts s"
  by (simp_all add: finish_with_def saveRecord_def Let_def split: option.split)

lemma stopUITimer_frame [simp]:
  "ix_chunks (stopUITimer s) = ix_chunks s" "isRunning (stopUITimer s) = isRunning s" "ix_dom (stopUITimer s) = ix_dom s"
  "saved (stopUITimer s) = saved s" "ix_total (stopUITimer s) = ix_total s" "timeouts (stopUITimer s) = timeouts s"
  by (simp_all add: stopUITimer_def split: option.split)

lemma startUITimer_frame [simp]:
  "ix_chunks (startUITimer s) = ix_chunks s" "isRunning (startUITimer s) = isRunning s" "ix_dom (startUITimer s) = ix_dom s"
  "saved (startUITimer s) = saved s" "ix_total (startUITimer s) = ix_total s" "timeouts (startUITimer s) = timeouts s"
  by (simp_all add: startUITimer_def Let_def split: option.split)

lemma ix_set_state_frame [simp]:
  "ix_chunks (ix_set_state i r s) = ix_chunks s" "isRunning (ix_set_state i r s) = isRunning s"
  "ix_dom (ix_set_state i r s) = ix_dom s" "saved (ix_set_state i r s) = saved s" "ix_total (ix_set_state i r s) = ix_total s"
  "timeouts (ix_set_state i r s) = timeouts s" "uiTimer (ix_set_state i r s) = uiTimer s"
  "live_intervals (ix_set_state i r s) = live_intervals s"
  by (simp_all add: ix_set_state_def)

lemma finishTest_frame [simp]:
  "isRunning (finishTest now fin s) = False"
  "d_disabled (ix_dom (finishTest now fin s)) = (if isRunning s then False else d_disabled (ix_dom s))"
  "ix_total (finishTest now fin s) = ix_total s" "timeouts (finishTest now fin s) = timeouts s"
  by (cases fin; simp add: finishTest_def Let_def prod.case_eq_if)+

text \<open>One save per finished test, none when the final speed is unusable.\<close>

lemma finishTest_saved:
  "length (saved (finishTest now fin s)) = length (saved s) + (if isRunning s \<and> fin \<noteq> Not_A_Number then 1 else 0)"
  by (cases fin) (simp_all add: finishTest_def Let_def prod.case_eq_if)

lemma finishTest_chunks:
  "ix_chunks (finishTest now fin s) =
     (if isRunning s \<and> fin = Absent then dropWhile (\<lambda>c. WINDOW_SIZE < now - fst c) (ix_chunks s) else ix_chunks s)"
  by (cases fin) (simp_all add: finishTest_def Let_def prod.case_eq_if)

lemmas index_events = ix_startTest_def ix_onopen_def ix_onbinary_def ix_ontext_def ix_onerror_def ix_onclose_def ix_timeout_def
  ui_tick_def

subsection \<open>Every test is saved once\<close>

definition clicks :: "(int \<times> index_event) list \<Rightarrow> nat" where
  "clicks evs = length (filter (\<lambda>e. snd e = Click) evs)"

definition broken_end :: "(int \<times> index_event) list \<Rightarrow> bool" where
  "broken_end evs \<longleftrightarrow> (\<exists>t i. (t, Text i (Some Not_A_Number)) \<in> set evs)"

lemma index_act_saved:
  assumes "index_enabled now ev s" and "d_disabled (ix_dom s) = isRunning s" and "\<forall>i. ev \<noteq> Text i (Some Not_A_Number)"
  shows "length (saved (index_act host now ev s)) + (if isRunning (index_act host now ev s) then 1 else 0) =
      length (saved s) + (if isRunning s then 1 else 0) + (if ev = Click then 1 else 0) \<and>
    d_disabled (ix_dom (index_act host now ev s)) = isRunning (index_act host now ev s)"
  using assms
  by (cases ev) (auto simp: index_events resetState_def Let_def handleDataChunk_def finishTest_saved prod.case_eq_if
      split: option.split)

lemma index_run_saved:
  "index_run host evs s \<Longrightarrow> \<not> broken_end evs \<Longrightarrow>
   length (saved s) + (if isRunning s then 1 else 0) = clicks evs \<and> d_disabled (ix_dom s) = isRunning s"
proof (induction rule: index_run.induct)
  case run_start
  show ?case by (simp add: index_init_def clicks_def)
next
  case (run_event evs s now ev)
  then have "\<not> broken_end evs" "\<forall>i. ev \<noteq> Text i (Some Not_A_Number)" by (auto simp: broken_end_def)
  then show ?case using run_event index_act_saved [of now ev s host] by (simp add: clicks_def)
qed

text \<open>C15: Every test the user starts sends exactly one record to the server when it ends, whatever ends it (the timeout, the
  server, an error) and however events of older sockets interfere: the records sent and the running test together are the
  clicks that started tests. The one exception is an \<^verbatim>\<open>end\<close> message whose speed is not a number.\<close>

theorem index_saves_once:
  assumes "index_run host evs s" and "\<not> broken_end evs"
  shows "length (saved s) + (if isRunning s then 1 else 0) = clicks evs"
  using index_run_saved [OF assms] by simp

definition first_click :: index_state where
  "first_click = index_act [] 1 Click index_init"

lemma run_first_click: "index_run [] [(1, Click)] first_click"
  unfolding first_click_def by (rule run_event [OF run_start]) (simp_all add: index_init_def)

theorem index_saves_once_witness: "length (saved first_click) + (if isRunning first_click then 1 else 0) = 1"
  using index_saves_once [OF run_first_click] by (simp add: broken_end_def clicks_def)

subsection \<open>The window of chunks\<close>

text \<open>The chunks are in order of arrival, none from the future, at most a hundred; and one interval timer is live at most.\<close>

definition index_inv :: "int \<Rightarrow> index_state \<Rightarrow> bool" where
  "index_inv now s \<longleftrightarrow> length (ix_chunks s) \<le> 2 * maxChunks \<and> sorted (map fst (ix_chunks s)) \<and>
     (\<forall>c \<in> set (ix_chunks s). fst c \<le> now) \<and>
     live_intervals s = (case uiTimer s of None \<Rightarrow> [] | Some h \<Rightarrow> [h])"

definition chunks_ok :: "int \<Rightarrow> (int \<times> jsnum) list \<Rightarrow> bool" where
  "chunks_ok now cs \<longleftrightarrow> length cs \<le> 2 * maxChunks \<and> sorted (map fst cs) \<and> (\<forall>c \<in> set cs. fst c \<le> now)"

definition timers_ok :: "index_state \<Rightarrow> bool" where
  "timers_ok s \<longleftrightarrow> live_intervals s = (case uiTimer s of None \<Rightarrow> [] | Some h \<Rightarrow> [h])"

lemma index_inv_iff: "index_inv now s \<longleftrightarrow> chunks_ok now (ix_chunks s) \<and> timers_ok s"
  by (simp add: index_inv_def chunks_ok_def timers_ok_def)

lemma chunks_ok_later: "chunks_ok t cs \<Longrightarrow> t \<le> now \<Longrightarrow> chunks_ok now cs"
  by (auto simp: chunks_ok_def)

lemma sorted_drop_fst: "sorted (map fst cs) \<Longrightarrow> sorted (map fst (dropWhile P cs))" for cs :: "(int \<times> jsnum) list"
  by (induction cs) auto

lemma chunks_ok_drop: "chunks_ok now cs \<Longrightarrow> chunks_ok now (dropWhile P cs)"
  using length_dropWhile_le [of P cs] sorted_drop_fst [of cs P]
  by (auto simp: chunks_ok_def dest: set_dropWhileD)

lemma chunks_ok_push:
  assumes "chunks_ok now cs"
  shows "chunks_ok now (if maxChunks * 2 < length (cs @ [(now, b)]) then lastn maxChunks (cs @ [(now, b)]) else cs @ [(now, b)])"
proof -
  have "sorted (map fst (cs @ [(now, b)]))" using assms by (auto simp: chunks_ok_def sorted_append)
  moreover from this have "sorted (map fst (lastn n (cs @ [(now, b)])))" for n
    unfolding lastn_def drop_map [symmetric] by (rule sorted_wrt_drop)
  ultimately show ?thesis using assms by (auto simp: chunks_ok_def lastn_def dest: in_set_dropD)
qed

lemma stopUITimer_ok: "timers_ok s \<Longrightarrow> timers_ok (stopUITimer s)"
  by (simp add: timers_ok_def stopUITimer_def split: option.splits)

lemma startUITimer_ok: "timers_ok s \<Longrightarrow> timers_ok (startUITimer s)"
  by (simp add: timers_ok_def startUITimer_def Let_def split: option.splits)

lemma timers_ok_frame [simp]:
  "timers_ok (s\<lparr>ix_dom := d\<rparr>) = timers_ok s" "timers_ok (s\<lparr>ix_chunks := cs\<rparr>) = timers_ok s"
  "timers_ok (s\<lparr>ix_total := n\<rparr>) = timers_ok s" "timers_ok (s\<lparr>peakSpeed := n\<rparr>) = timers_ok s"
  "timers_ok (s\<lparr>isRunning := b\<rparr>) = timers_ok s" "timers_ok (s\<lparr>testStartTime := t\<rparr>) = timers_ok s"
  "timers_ok (s\<lparr>ix_sockets := ss\<rparr>) = timers_ok s" "timers_ok (s\<lparr>ix_ws := w\<rparr>) = timers_ok s"
  "timers_ok (s\<lparr>timeouts := ts\<rparr>) = timers_ok s" "timers_ok (ix_set_state i r s) = timers_ok s"
  "timers_ok (updateUI now v s) = timers_ok s" "timers_ok (finish_with now v s) = timers_ok s"
  by (simp_all add: timers_ok_def)

lemma finishTest_timers: "timers_ok s \<Longrightarrow> timers_ok (finishTest now fin s)"
  by (cases fin) (simp_all add: finishTest_def Let_def prod.case_eq_if stopUITimer_ok)

lemma index_act_inv:
  assumes "index_inv t s" and "t \<le> now"
  shows "index_inv now (index_act host now ev s)"
proof -
  have c: "chunks_ok now (ix_chunks s)" and tm: "timers_ok s" using assms chunks_ok_later by (auto simp: index_inv_iff)
  have "chunks_ok now (ix_chunks (index_act host now ev s))"
  proof (cases ev)
    case (Binary i n)
    then show ?thesis using chunks_ok_push [OF c, of "chunk_bytes n"] c by (simp add: ix_onbinary_def handleDataChunk_def Let_def)
  next
    case Click
    then show ?thesis using c by (simp add: ix_startTest_def resetState_def Let_def chunks_ok_def)
  qed (use c in \<open>simp_all add: index_events Let_def finishTest_chunks chunks_ok_drop prod.case_eq_if split: option.split\<close>)
  moreover have "timers_ok (index_act host now ev s)"
    using tm by (cases ev) (simp_all add: index_events resetState_def Let_def handleDataChunk_def prod.case_eq_if finishTest_timers
        startUITimer_ok split: option.split)
  ultimately show ?thesis by (simp add: index_inv_iff)
qed

lemma index_run_inv:
  "index_run host evs s \<Longrightarrow> (if evs = [] then s = index_init else index_inv (fst (hd evs)) s)"
proof (induction rule: index_run.induct)
  case (run_event evs s now ev)
  have "index_inv now index_init" for now by (simp add: index_inv_def index_init_def)
  then show ?case using run_event index_act_inv [of _ s now host ev] by (auto split: if_splits)
qed simp

text \<open>At every moment the page holds at most a hundred chunks, however fast data arrives and even while no tick trims the window;
  they are in the order they arrived; and at most one interval timer is live, the one whose handle the script kept, so a
  new test never leaves an old timer running.\<close>

theorem index_bounded:
  assumes "index_run host evs s"
  shows "length (ix_chunks s) \<le> 100 \<and> sorted (map fst (ix_chunks s)) \<and>
    live_intervals s = (case uiTimer s of None \<Rightarrow> [] | Some h \<Rightarrow> [h])"
  using index_run_inv [OF assms] by (auto simp: index_inv_def maxChunks_def index_init_def split: if_splits)

theorem index_bounded_witness: "length (ix_chunks first_click) \<le> 100"
  using index_bounded [OF run_first_click] by simp

subsection \<open>The window and the total\<close>

text \<open>The chunks that arrived since the test began, oldest first: the specification of the two counters.\<close>

fun received :: "(int \<times> index_event) list \<Rightarrow> (int \<times> jsnum) list" where
  "received [] = []"
| "received ((t, Click) # evs) = []"
| "received ((t, Binary i n) # evs) = received evs @ [(t, chunk_bytes n)]"
| "received (e # evs) = received evs"

definition old :: "int \<Rightarrow> int \<times> jsnum \<Rightarrow> bool" where
  "old now c \<longleftrightarrow> WINDOW_SIZE < now - fst c"

text \<open>\<open>kept now r cs\<close>: \<open>cs\<close> are the last of the chunks \<open>r\<close>, and either all that were left out are too old or fifty remain.\<close>

definition kept :: "int \<Rightarrow> (int \<times> jsnum) list \<Rightarrow> (int \<times> jsnum) list \<Rightarrow> bool" where
  "kept now r cs \<longleftrightarrow> (\<exists>pre. r = pre @ cs \<and> (maxChunks \<le> length cs \<or> (\<forall>c \<in> set pre. old now c)))"

lemma old_later: "old t c \<Longrightarrow> t \<le> now \<Longrightarrow> old now c"
  by (simp add: old_def)

lemma kept_later: "kept t r cs \<Longrightarrow> t \<le> now \<Longrightarrow> kept now r cs"
  using old_later unfolding kept_def by blast

lemma kept_nil [simp]: "kept now [] []"
  by (simp add: kept_def)

lemma kept_push:
  assumes "kept now r cs"
  shows "kept now (r @ [c]) (if maxChunks * 2 < length (cs @ [c]) then lastn maxChunks (cs @ [c]) else cs @ [c])"
proof -
  obtain pre where pre: "r = pre @ cs" "maxChunks \<le> length cs \<or> (\<forall>c \<in> set pre. old now c)" using assms unfolding kept_def by blast
  show ?thesis
  proof (cases "maxChunks * 2 < length (cs @ [c])")
    case True
    let ?k = "length (cs @ [c]) - maxChunks"
    have "r @ [c] = (pre @ take ?k (cs @ [c])) @ lastn maxChunks (cs @ [c])" using pre(1) by (simp add: lastn_def del: take_append drop_append)
    moreover have "maxChunks \<le> length (lastn maxChunks (cs @ [c]))" using True by simp
    ultimately show ?thesis using True unfolding kept_def by auto
  next
    case False
    then show ?thesis using pre unfolding kept_def by (auto intro!: exI [of _ pre])
  qed
qed

lemma kept_drop:
  assumes "kept now r cs" and "sorted (map fst r)"
  shows "kept now r (dropWhile (old now) cs)"
proof (cases "takeWhile (old now) cs")
  case Nil
  then have "dropWhile (old now) cs = cs" by (metis append_Nil takeWhile_dropWhile_id)
  then show ?thesis using assms(1) by simp
next
  case (Cons c ys)
  obtain pre where r: "r = pre @ cs" using assms(1) unfolding kept_def by blast
  have c: "c \<in> set cs" "old now c" using Cons set_takeWhileD [of c "old now" cs] by simp_all
  have "old now x" if "x \<in> set pre" for x
    using assms(2) c that r by (fastforce simp: sorted_append old_def)
  moreover have "old now x" if "x \<in> set (takeWhile (old now) cs)" for x using that set_takeWhileD by metis
  ultimately have "\<forall>x \<in> set (pre @ takeWhile (old now) cs). old now x" by auto
  moreover have "r = (pre @ takeWhile (old now) cs) @ dropWhile (old now) cs" using r by simp
  ultimately show ?thesis unfolding kept_def by blast
qed

lemma dropWhile_filter_sorted:
  "sorted (map fst cs) \<Longrightarrow> dropWhile (old now) cs = filter (\<lambda>c. \<not> old now c) cs"
proof (induction cs)
  case (Cons c cs)
  then have "\<not> old now c \<Longrightarrow> filter (\<lambda>c. \<not> old now c) cs = cs" by (fastforce simp: old_def filter_id_conv)
  then show ?case using Cons by simp
qed simp

definition counters_ok :: "(int \<times> index_event) list \<Rightarrow> index_state \<Rightarrow> bool" where
  "counters_ok evs s \<longleftrightarrow> isRunning s \<longrightarrow>
     evs \<noteq> [] \<and> kept (fst (hd evs)) (received evs) (ix_chunks s) \<and> ix_total s = foldl js_add (Num 0) (map snd (received evs))"

lemma index_run_button: "index_run host evs s \<Longrightarrow> d_disabled (ix_dom s) = isRunning s"
proof (induction rule: index_run.induct)
  case (run_event evs s now ev)
  then show ?case
    by (cases ev) (auto simp: index_events resetState_def Let_def handleDataChunk_def prod.case_eq_if split: option.split)
qed (simp add: index_init_def)

lemma received_sorted:
  "index_run host evs s \<Longrightarrow> sorted (map fst (received evs)) \<and> (\<forall>c \<in> set (received evs). evs \<noteq> [] \<and> fst c \<le> fst (hd evs))"
proof (induction rule: index_run.induct)
  case (run_event evs s now ev)
  then have "sorted (map fst (received evs))" "\<forall>c \<in> set (received evs). fst c \<le> now" by fastforce+
  then show ?case by (cases ev) (auto simp: sorted_append)
qed simp

lemma index_act_counters:
  assumes run: "index_run host evs s" and ok: "counters_ok evs s" and later: "evs \<noteq> [] \<longrightarrow> fst (hd evs) \<le> now"
    and en: "index_enabled now ev s"
  shows "counters_ok ((now, ev) # evs) (index_act host now ev s)"
proof (cases "ev = Click \<or> \<not> isRunning s")
  case True
  then show ?thesis using en index_run_button [OF run]
    by (cases ev) (auto simp: index_events resetState_def Let_def counters_ok_def prod.case_eq_if split: option.split)
next
  case False
  then have k: "kept now (received evs) (ix_chunks s)" and t: "ix_total s = foldl js_add (Num 0) (map snd (received evs))"
    using ok later kept_later by (auto simp: counters_ok_def)
  have d: "kept now (received evs) (dropWhile (old now) (ix_chunks s))"
    using kept_drop [OF k] received_sorted [OF run] by blast
  show ?thesis using False k t d kept_push [OF k]
    by (cases ev) (simp_all add: index_events Let_def counters_ok_def handleDataChunk_def prod.case_eq_if old_def [abs_def]
        split: option.split)
qed

lemma index_run_counters: "index_run host evs s \<Longrightarrow> counters_ok evs s"
proof (induction rule: index_run.induct)
  case (run_event evs s now ev)
  then show ?case using index_act_counters by blast
qed (simp add: counters_ok_def index_init_def)

text \<open>C14: The speed shown at a tick of a running test is computed from the data of the last two seconds: the chunks
  kept are exactly those received since the test began that are at most 2000 ms old, or, when data arrives in too many
  pieces, the last of these, at least fifty of them.\<close>

theorem index_window:
  assumes "index_run host evs s" and "isRunning s" and "fst (hd evs) \<le> now"
  defines "w \<equiv> filter (\<lambda>c. now - fst c \<le> 2000) (received evs)"
  shows "ix_chunks (ui_tick now s) = w \<or> (\<exists>n \<ge> 50. ix_chunks (ui_tick now s) = lastn n w)"
proof -
  let ?d = "dropWhile (old now) (ix_chunks s)"
  have srt: "sorted (map fst (received evs))" using received_sorted [OF assms(1)] by blast
  have "kept now (received evs) (ix_chunks s)"
    using index_run_counters [OF assms(1)] assms(2,3) kept_later by (auto simp: counters_ok_def)
  then have "kept now (received evs) ?d" using srt by (rule kept_drop)
  then obtain pre where r: "received evs = pre @ ?d" "maxChunks \<le> length ?d \<or> (\<forall>c \<in> set pre. old now c)"
    unfolding kept_def by blast
  have "sorted (map fst ?d)" using srt r(1) by (metis map_append sorted_append)
  then have "filter (\<lambda>c. \<not> old now c) ?d = ?d"
    using dropWhile_filter_sorted [of ?d now] by (simp add: dropWhile_idem)
  then have w: "w = filter (\<lambda>c. \<not> old now c) pre @ ?d"
    using r(1) arg_cong [OF r(1), of "filter (\<lambda>c. \<not> old now c)"] by (simp add: w_def old_def WINDOW_SIZE_def not_less)
  have d: "ix_chunks (ui_tick now s) = ?d"
    using assms(2) by (simp add: ui_tick_def prod.case_eq_if old_def [abs_def])
  show ?thesis
  proof (cases "\<forall>c \<in> set pre. old now c")
    case True
    then show ?thesis using w d by (simp add: filter_empty_conv)
  next
    case False
    then have "50 \<le> length ?d" using r(2) by (auto simp: maxChunks_def)
    then show ?thesis using w d by (intro disjI2 exI [of _ "length ?d"]) (simp add: lastn_def)
  qed
qed

theorem index_window_witness:
  "ix_chunks (ui_tick 5 first_click) = [] \<or> (\<exists>n \<ge> 50. ix_chunks (ui_tick 5 first_click) = lastn n [])"
  using index_window [OF run_first_click, of 5] by (simp add: first_click_def index_init_def ix_startTest_def Let_def)

lemma foldl_add_NaN: "foldl js_add NaN xs = NaN"
  by (induction xs) simp_all

lemma js_add_NaN [simp]: "js_add x NaN = NaN"
  by (cases x) simp_all

lemma foldl_add_exact:
  "b + sum_list ns < 2 ^ 53 \<Longrightarrow> 0 \<notin> set ns \<Longrightarrow>
   foldl js_add (Num (of_nat b)) (map chunk_bytes ns) = Num (of_nat (b + sum_list ns))"
proof (induction ns arbitrary: b)
  case (Cons n ns)
  then have "js_add (Num (of_nat b)) (chunk_bytes n) = Num (of_nat (b + n))"
    using js_add_nat [of b n] by (simp add: chunk_bytes_def)
  then show ?case using Cons by (simp add: add.assoc del: of_nat_add)
qed simp

text \<open>The lengths of the binary messages since the test began.\<close>

fun sizes :: "(int \<times> index_event) list \<Rightarrow> nat list" where
  "sizes [] = []"
| "sizes ((t, Click) # evs) = []"
| "sizes ((t, Binary i n) # evs) = sizes evs @ [n]"
| "sizes (e # evs) = sizes evs"

lemma received_sizes: "map snd (received evs) = map chunk_bytes (sizes evs)"
  by (induction evs rule: sizes.induct) simp_all

text \<open>C37: The total shown for a running test is the exact number of bytes received since it began, as long as that is below
  \<open>2 ^ 53\<close> and no binary message was empty; a single empty message makes the total \<^verbatim>\<open>NaN\<close> for the rest of the test.\<close>

theorem index_total:
  assumes "index_run host evs s" and "isRunning s"
  shows "(0 \<in> set (sizes evs) \<longrightarrow> ix_total s = NaN) \<and>
    (0 \<notin> set (sizes evs) \<and> sum_list (sizes evs) < 2 ^ 53 \<longrightarrow> ix_total s = Num (of_nat (sum_list (sizes evs))))"
proof -
  have t: "ix_total s = foldl js_add (Num 0) (map chunk_bytes (sizes evs))"
    using index_run_counters [OF assms(1)] assms(2) by (simp add: counters_ok_def received_sizes)
  have "foldl js_add x (map chunk_bytes ns) = NaN" if "0 \<in> set ns" for x ns
    using that by (induction ns arbitrary: x) (auto simp: chunk_bytes_def foldl_add_NaN)
  then show ?thesis using t foldl_add_exact [of 0 "sizes evs"] by simp
qed

subsection \<open>Concrete runs\<close>

definition index_exec :: "jsstring \<Rightarrow> (int \<times> index_event) list \<Rightarrow> index_state" where
  "index_exec host evs = foldr (\<lambda>e. index_act host (fst e) (snd e)) evs index_init"

fun index_valid :: "jsstring \<Rightarrow> (int \<times> index_event) list \<Rightarrow> bool" where
  "index_valid host [] = True"
| "index_valid host (e # evs) = (index_valid host evs \<and> (if evs = [] then 0 < fst e else fst (hd evs) \<le> fst e) \<and>
     index_enabled (fst e) (snd e) (index_exec host evs))"

lemma index_valid_run: "index_valid host evs \<Longrightarrow> index_run host evs (index_exec host evs)"
proof (induction evs)
  case (Cons e evs)
  then show ?case
    using run_event [of host evs "index_exec host evs" "fst e" "snd e"] by (simp add: index_exec_def split: if_splits)
qed (simp add: index_exec_def run_start)

definition two_chunks :: "(int \<times> index_event) list" where
  "two_chunks = [(4, Binary 0 100), (3, Binary 0 65536), (2, Opened 0), (1, Click)]"

lemmas index_eval = index_exec_def index_init_def index_events in_state_def resetState_def startUITimer_def stopUITimer_def
  handleDataChunk_def ix_set_state_def ix_ws_close_def finishTest_def finish_with_def saveRecord_def TEST_DURATION_def Let_def

lemma two_chunks_run: "index_run [] two_chunks (index_exec [] two_chunks)"
  by (rule index_valid_run) (simp add: two_chunks_def index_eval)

theorem index_total_witness: "ix_total (index_exec [] two_chunks) = Num 65636"
proof -
  have "isRunning (index_exec [] two_chunks)" by (simp add: two_chunks_def index_eval)
  then show ?thesis using index_total [OF two_chunks_run] by (simp add: two_chunks_def)
qed

text \<open>The first test ends after eight seconds as its socket closes; the second, begun at 9 s, is ended by the timeout of the first.\<close>

definition stale_timeout :: "(int \<times> index_event) list" where
  "stale_timeout = [(10001, Timeout 0), (10000, Binary 1 65536), (9000, Opened 1), (9000, Click), (8000, Closed_By_Peer 0),
     (1, Opened 0), (1, Click)]"

text \<open>No test need run its ten seconds: the timeout of an earlier test is never cleared, so a second test begun after the first
  one was cut short is ended by it, here after one second with its socket open and data arriving, and is saved as if complete.\<close>

theorem index_stale_timeout:
  "\<exists>evs s. index_run host evs s \<and> hd evs = (10001, Timeout 0) \<and> isRunning (index_exec host (tl evs)) \<and>
     in_state [OPEN] 1 (index_exec host (tl evs)) \<and> testStartTime s = 9000 \<and> \<not> isRunning s \<and> length (saved s) = 2"
proof -
  have "index_valid host stale_timeout" by (simp add: stale_timeout_def index_eval prod.case_eq_if)
  then have "index_run host stale_timeout (index_exec host stale_timeout)" by (rule index_valid_run)
  moreover have "\<not> isRunning (index_exec host stale_timeout) \<and> testStartTime (index_exec host stale_timeout) = 9000 \<and>
      length (saved (index_exec host stale_timeout)) = 2"
    by (simp add: stale_timeout_def index_eval prod.case_eq_if)
  moreover have "isRunning (index_exec host (tl stale_timeout)) \<and> in_state [OPEN] 1 (index_exec host (tl stale_timeout))"
    by (simp add: stale_timeout_def index_eval prod.case_eq_if)
  moreover have "hd stale_timeout = (10001, Timeout 0)" by (simp add: stale_timeout_def)
  ultimately show ?thesis by blast
qed

text \<open>Two chunks of 125000 bytes a second apart arrive at one megabit per second; the formula shows two, as the window's bytes include the
  first chunk and its duration does not.\<close>

lemma window_speed_fencepost: "window_speed [(0, Num 125000), (1000, Num 125000)] = Num 2"
  using round_double_pos_int [of 125000] round_double_pos_int [of 250000] round_double_pos_int [of 2000000]
    round_double_pos_int [of 1] round_double_pos_int [of 2]
  by (simp add: window_speed_def Let_def)

subsection \<open>The sockets\<close>

definition page_socket :: "jsstring \<Rightarrow> socket \<Rightarrow> bool" where
  "page_socket host k \<longleftrightarrow> url k = host @ asc ''/ws/speedtest'' \<and> binaryType k = asc ''arraybuffer'' \<and> sent k = []"

lemma page_socket_state [simp]: "page_socket host (k\<lparr>readyState := r\<rparr>) = page_socket host k"
  by (simp add: page_socket_def)

definition page_sockets :: "jsstring \<Rightarrow> socket list \<Rightarrow> bool" where
  "page_sockets host ss \<longleftrightarrow> (\<forall>k \<in> set ss. page_socket host k)"

lemma page_sockets_update: "page_sockets host ss \<Longrightarrow> page_sockets host (ss[i := (ss ! i)\<lparr>readyState := r\<rparr>])"
  by (cases "i < length ss") (auto simp: page_sockets_def list_update_beyond dest!: set_update_subset_insert [THEN subsetD])

lemma page_sockets_close: "page_sockets host ss \<Longrightarrow> page_sockets host (ix_ws_close i ss)"
  by (simp add: ix_ws_close_def page_sockets_update)

lemma finishTest_sockets: "page_sockets host (ix_sockets s) \<Longrightarrow> page_sockets host (ix_sockets (finishTest now fin s))"
  by (cases fin) (simp_all add: finishTest_def finish_with_def saveRecord_def stopUITimer_def Let_def prod.case_eq_if
      page_sockets_close split: option.split)

lemma set_state_sockets: "page_sockets host (ix_sockets s) \<Longrightarrow> page_sockets host (ix_sockets (ix_set_state i r s))"
  by (simp add: ix_set_state_def page_sockets_update)

lemma index_run_sockets: "index_run host evs s \<Longrightarrow> page_sockets host (ix_sockets s)"
proof (induction rule: index_run.induct)
  case (run_event evs s now ev)
  then show ?case
  proof (cases ev)
    case Click
    then show ?thesis using run_event
      by (simp add: ix_startTest_def resetState_def Let_def page_sockets_def page_socket_def)
  next
    case (Opened i)
    then show ?thesis using set_state_sockets [OF run_event.IH, of i OPEN]
      by (simp add: ix_onopen_def startUITimer_def Let_def split: option.split)
  qed (simp_all add: index_events Let_def handleDataChunk_def prod.case_eq_if finishTest_sockets set_state_sockets
      split: option.split)
qed (simp add: index_init_def page_sockets_def)

end
