(* ===== verification/Page_Server.thy ===== *)
theory Page_Server
  imports Index_Page Speed_Api
begin

section \<open>The page against the server\<close>

text \<open>
  What the server makes of the requests of \<^verbatim>\<open>index.html\<close>: the upgrade of its sockets and the records it posts. The
  printing of the speed by \<^verbatim>\<open>JSON.stringify\<close> and the device name found in \<^verbatim>\<open>navigator.userAgent\<close> are the parameters
  \<open>num\<close> and \<open>agent\<close>.
\<close>

definition page_bytes :: "jsstring \<Rightarrow> bytes" where
  "page_bytes s = map of_nat s"

definition record_members :: "(jsnum \<Rightarrow> bytes) \<Rightarrow> bytes \<Rightarrow> int \<Rightarrow> jsnum \<Rightarrow> (bytes \<times> json_value) list" where
  "record_members num agent now speed =
     [(str ''speed'', JNum (num speed)), (str ''device_id'', JStr (str ''web_'' @ to_string now)),
      (str ''device_name'', JStr (if agent = [] then str ''Web Browser'' else agent)),
      (str ''latency_ms'', JNum (str ''0'')), (str ''packet_loss'', JNum (str ''0''))]"

definition record_path :: bytes where
  "record_path = str ''/api/record''"

text \<open>A request as the page's \<^verbatim>\<open>fetch\<close> sends it for a saved speed; other headers are left open.\<close>

definition record_request :: "(jsnum \<Rightarrow> bytes) \<Rightarrow> bytes \<Rightarrow> int \<times> jsnum \<Rightarrow> http_request \<Rightarrow> bool" where
  "record_request num agent x req \<longleftrightarrow> req_method req = str ''POST'' \<and> req_path req = record_path \<and>
     req_body req = json_object (record_members num agent (fst x) (snd x))"


definition one_test :: "(int \<times> index_event) list" where
  "one_test = [(10002, Timeout 0), (2, Opened 0), (1, Click)]"

definition one_record :: http_request where
  "one_record = http_request_new\<lparr>req_method := str ''POST'', req_path := record_path,
     req_body := json_object (record_members (\<lambda>x. str ''0'') [] 10002 (Num 0))\<rparr>"

lemma one_test_run: "index_run [] one_test (index_exec [] one_test)"
  by (rule index_valid_run) (simp add: one_test_def index_eval)


subsection \<open>The record is well formed\<close>

text \<open>Sent to the registered route, the same body would be stored: it is an object the interface can read, whenever the number is printed
  as a number and the device name holds no quote and is not the name of a field.\<close>

lemma to_string_no_quote: "34 \<notin> set (to_string n)"
  using to_string_chars [of 34 n] by (auto simp: is_digit_def)

lemma record_members_readable:
  assumes "value_ok (JNum (num speed))" and "34 \<notin> set agent" and "agent \<notin> set api_keys"
  shows "readable_object (record_members num agent now speed)"
  using assms to_string_no_quote [of now]
  by (auto simp: readable_object_def members_ok_def record_members_def api_keys_def str_simps is_blank_def)

end
