(* ===== verification/Io_Handler.thy ===== *)
theory Io_Handler
  imports Net_Socket
begin

section \<open>System calls (\<^verbatim>\<open>src/core/net/io_handler.cpp\<close>)\<close>

text \<open>
  \<^verbatim>\<open>PosixIOHandler\<close> makes one system call per function and turns its return value and \<^verbatim>\<open>errno\<close> into a result. The answer of a
  call is the pair of both. \<^verbatim>\<open>SetNonBlocking\<close> reads the descriptor's flags and writes them back, so the two
  \<^verbatim>\<open>fcntl\<close> calls are functions.
\<close>

type_synonym sys_answer = "int \<times> int"
type_synonym flags = "32 word"

text \<open>\<^verbatim>\<open>CreateSocket\<close>, \<^verbatim>\<open>Accept\<close>, \<^verbatim>\<open>Send\<close>, \<^verbatim>\<open>Recv\<close>, \<^verbatim>\<open>SendTo\<close> and \<^verbatim>\<open>RecvFrom\<close> return the value of the call.\<close>

definition io_call :: "sys_answer \<Rightarrow> int io_result" where
  "io_call a = (if fst a = - 1 then Inl (snd a) else Inr (fst a))"

text \<open>\<^verbatim>\<open>CloseSocket\<close>, \<^verbatim>\<open>ShutdownSocket\<close>, \<^verbatim>\<open>SetSocketOption\<close>, \<^verbatim>\<open>SetTcpNoDelay\<close>, \<^verbatim>\<open>Connect\<close>, \<^verbatim>\<open>Bind\<close>, \<^verbatim>\<open>Listen\<close> and
  \<^verbatim>\<open>GetSocketOption\<close> only say whether it worked.\<close>

definition io_void :: "sys_answer \<Rightarrow> unit io_result" where
  "io_void a = (if fst a = - 1 then Inl (snd a) else Inr ())"

text \<open>\<^verbatim>\<open>GetLocalAddress\<close> and \<^verbatim>\<open>GetPeerAddress\<close>, with the address the call has written.\<close>

definition io_address :: "sys_answer \<Rightarrow> sockaddr_in \<Rightarrow> sockaddr_in io_result" where
  "io_address a addr = (if fst a = - 1 then Inl (snd a) else Inr addr)"

definition O_NONBLOCK :: flags where
  "O_NONBLOCK = 0x800"

definition set_flag :: "bool \<Rightarrow> flags \<Rightarrow> flags" where
  "set_flag enable fl = (if enable then fl OR O_NONBLOCK else fl AND NOT O_NONBLOCK)"

definition SetNonBlocking :: "int + flags \<Rightarrow> (flags \<Rightarrow> sys_answer) \<Rightarrow> bool \<Rightarrow> unit io_result" where
  "SetNonBlocking getfl setfl enable = (case getfl of Inl e \<Rightarrow> Inl e | Inr fl \<Rightarrow> io_void (setfl (set_flag enable fl)))"

abbreviation (input) POLLIN :: "16 word" where "POLLIN \<equiv> 0x1"
abbreviation (input) POLLOUT :: "16 word" where "POLLOUT \<equiv> 0x4"
abbreviation (input) POLLERR_HUP_NVAL :: "16 word" where "POLLERR_HUP_NVAL \<equiv> 0x38"

definition poll_for :: "16 word \<Rightarrow> sys_answer \<Rightarrow> 16 word \<Rightarrow> bool io_result" where
  "poll_for wanted a revents = (if fst a = - 1 then Inl (snd a) else Inr (0 < fst a \<and> revents AND wanted \<noteq> 0))"

definition PollRead :: "sys_answer \<Rightarrow> 16 word \<Rightarrow> bool io_result" where
  "PollRead a revents = poll_for POLLIN a revents"

definition PollWrite :: "sys_answer \<Rightarrow> 16 word \<Rightarrow> bool io_result" where
  "PollWrite a revents = poll_for POLLOUT a revents"

definition PollError :: "sys_answer \<Rightarrow> 16 word \<Rightarrow> bool io_result" where
  "PollError a revents = poll_for POLLERR_HUP_NVAL a revents"

lemma set_flag_bit: "bit (set_flag enable fl) n \<longleftrightarrow> (if n = 11 then enable else bit fl n)"
proof -
  have o: "O_NONBLOCK = 2 ^ 11" by (simp add: O_NONBLOCK_def)
  have "bit O_NONBLOCK m \<longleftrightarrow> m = 11" for m
    unfolding o bit_exp_iff by (auto simp: possible_bit_def)
  moreover have "bit fl n \<Longrightarrow> n < 32" using bit_imp_le_length [of fl n] by simp
  ultimately show ?thesis by (auto simp: set_flag_def bit_or_iff bit_and_iff bit_not_iff possible_bit_def)
qed

lemma set_flag_last: "set_flag a (set_flag b fl) = set_flag a fl"
  by (rule bit_word_eqI) (simp add: set_flag_bit)

lemma PollRead_iff: "PollRead a r = Inr True \<longleftrightarrow> 0 < fst a \<and> bit r 0"
  by (auto simp: PollRead_def poll_for_def and_exp_eq_0_iff_not_bit [of r 0, simplified])

end
