(* ===== verification/Tcp_Lifecycle.thy ===== *)
theory Tcp_Lifecycle
  imports Tcp_Connection Io_Handler
begin

section \<open>The life of a TCP connection (\<^verbatim>\<open>src/core/Tcp/tcp_connection.cpp\<close>)\<close>

text \<open>
  The members of \<^verbatim>\<open>TCPConnection\<close> that \<open>Tcp_Connection\<close> leaves out: the configuration, the addresses, the connection manager and the
  read threads \<^verbatim>\<open>init\<close> has started. \<open>sys\<close> is the sequence of system calls made that concern descriptors and
  socket options; the answers of \<^verbatim>\<open>socket\<close>, \<^verbatim>\<open>connect\<close> and \<^verbatim>\<open>getsockname\<close> are arguments. A descriptor is open between the
  call that created it and its \<^verbatim>\<open>close\<close>.
\<close>

record connection_config =
  cf_send_buffer_size :: nat
  cf_recv_buffer_size :: nat
  cf_connect_timeout :: nat
  cf_send_timeout :: nat
  cf_recv_timeout :: nat
  cf_idle_timeout :: nat
  cf_no_delay :: bool
  cf_keep_alive :: bool
  cf_reuse_address :: bool
  cf_nonblocking :: bool
  cf_use_ssl :: bool
  cf_ssl_cert_file :: bytes
  cf_ssl_key_file :: bytes
  cf_ssl_ca_file :: bytes
  cf_max_retries :: int
  cf_max_packet_size :: nat

definition config_new :: connection_config where
  "config_new =
     \<lparr>cf_send_buffer_size = 8192, cf_recv_buffer_size = 8192, cf_connect_timeout = 3000, cf_send_timeout = 5000,
      cf_recv_timeout = 10000, cf_idle_timeout = 30000, cf_no_delay = True, cf_keep_alive = True, cf_reuse_address = True,
      cf_nonblocking = True, cf_use_ssl = False, cf_ssl_cert_file = [], cf_ssl_key_file = [], cf_ssl_ca_file = [],
      cf_max_retries = 3, cf_max_packet_size = 65536\<rparr>"

datatype sys_call =
  Sys_Socket int
| Sys_Nonblocking int
| Sys_Option int sockopt nat
| Sys_Connect int sockaddr_in
| Sys_Shutdown int
| Sys_Close int

record tcp_object =
  base :: tcp
  tcp_config :: connection_config
  local_addr :: sockaddr_in
  peer_addr :: sockaddr_in
  tcp_manager :: "nat option"
  read_threads :: nat
  sys :: "sys_call list"

definition addr_zero :: sockaddr_in where
  "addr_zero = \<lparr>sin_family = 0, sin_port = 0, sin_addr = INADDR_ANY\<rparr>"

definition setup_calls :: "connection_config \<Rightarrow> int \<Rightarrow> sys_call list" where
  "setup_calls cfg fd =
     (if cf_nonblocking cfg then [Sys_Nonblocking fd] else []) @
     (if cf_no_delay cfg then [Sys_Option fd TCP_NODELAY 1] else []) @
     (if cf_keep_alive cfg then [Sys_Option fd SO_KEEPALIVE 1] else []) @
     (if cf_reuse_address cfg then [Sys_Option fd SO_REUSEADDR 1] else []) @
     (if 0 < cf_send_buffer_size cfg then [Sys_Option fd SO_SNDBUF (cf_send_buffer_size cfg)] else []) @
     (if 0 < cf_recv_buffer_size cfg then [Sys_Option fd SO_RCVBUF (cf_recv_buffer_size cfg)] else [])"

definition setup_socket :: "tcp_object \<Rightarrow> tcp_object \<times> bool" where
  "setup_socket t =
     (if socket_fd (base t) < 0 then (t, False)
      else (t\<lparr>sys := sys t @ setup_calls (tcp_config t) (socket_fd (base t))\<rparr>, True))"

definition obj_new :: "nat \<Rightarrow> tcp_object" where
  "obj_new now = \<lparr>base = tcp_new now, tcp_config = config_new, local_addr = addr_zero, peer_addr = addr_zero,
     tcp_manager = None, read_threads = 0, sys = []\<rparr>"

text \<open>The constructor for accepted connections; the descriptor was opened by \<^verbatim>\<open>accept\<close>.\<close>

definition obj_accepted :: "sockaddr_in io_result \<Rightarrow> int \<Rightarrow> sockaddr_in \<Rightarrow> nat \<Rightarrow> tcp_object" where
  "obj_accepted local existing_fd peer now =
     fst (setup_socket ((obj_new now)\<lparr>base := tcp_accepted existing_fd now, peer_addr := peer,
       local_addr := (case local of Inr a \<Rightarrow> a | Inl e \<Rightarrow> addr_zero), sys := [Sys_Socket existing_fd]\<rparr>))"

definition init :: "tcp_object \<Rightarrow> tcp_object" where
  "init t = t\<lparr>read_threads := read_threads t + 1\<rparr>"

definition obj_Connect ::
  "errno + int \<Rightarrow> errno option \<Rightarrow> sockaddr_in io_result \<Rightarrow> nat \<Rightarrow> sockaddr_in \<Rightarrow> tcp_object \<Rightarrow> tcp_object \<times> errno option" where
  "obj_Connect created connected local now addr t =
     (if conn_state (base t) \<noteq> ST_DISCONNECTED then (t, Some ALREADY_CONNECTED)
      else case created of
             Inl e \<Rightarrow> (t\<lparr>base := (base t)\<lparr>conn_state := ST_ERROR\<rparr>\<rparr>, Some e)
           | Inr fd \<Rightarrow>
               let t1 = t\<lparr>base := (base t)\<lparr>socket_fd := fd\<rparr>, peer_addr := addr, sys := sys t @ [Sys_Socket fd]\<rparr>;
                   t2 = fst (setup_socket t1);
                   t3 = t2\<lparr>sys := sys t2 @ [Sys_Connect fd addr]\<rparr>
               in (case connected of
                     Some e \<Rightarrow>
                       (t3\<lparr>sys := sys t3 @ [Sys_Close fd],
                           base := (base t3)\<lparr>socket_fd := - 1, conn_state := ST_ERROR\<rparr>\<rparr>, Some e)
                   | None \<Rightarrow>
                       let t4 = (case local of Inr a \<Rightarrow> t3\<lparr>local_addr := a\<rparr> | Inl e \<Rightarrow> t3);
                           t5 = init (t4\<lparr>base := (base t4)\<lparr>conn_state := ST_CONNECTED, connect_time := now,
                                                       last_activity_time := now\<rparr>\<rparr>)
                       in (t5\<lparr>base := TriggerEvent EV_CONNECTED (base t5)\<rparr>, None)))"

definition obj_Connect_host ::
  "errno + int \<Rightarrow> errno option \<Rightarrow> sockaddr_in io_result \<Rightarrow> nat \<Rightarrow> bytes \<Rightarrow> u16 \<Rightarrow> tcp_object \<Rightarrow> tcp_object \<times> errno option" where
  "obj_Connect_host created connected local now host port t = obj_Connect created connected local now (FromIpPort host port) t"

definition obj_Disconnect :: "tcp_object \<Rightarrow> tcp_object" where
  "obj_Disconnect t =
     (if conn_state (base t) \<noteq> ST_CONNECTED then t
      else t\<lparr>base := tcp_Disconnect (base t), sys := sys t @ [Sys_Shutdown (socket_fd (base t))]\<rparr>)"

definition obj_Close :: "tcp_object \<Rightarrow> tcp_object" where
  "obj_Close t =
     (if 0 \<le> socket_fd (base t)
      then t\<lparr>base := tcp_Close (base t), sys := sys t @ [Sys_Close (socket_fd (base t))]\<rparr> else t)"

definition obj_Configure :: "connection_config \<Rightarrow> tcp_object \<Rightarrow> tcp_object" where
  "obj_Configure cfg t =
     (let t1 = fst (setup_socket (t\<lparr>tcp_config := cfg\<rparr>))
      in t1\<lparr>base := Configure (cf_send_buffer_size cfg) (base t1)\<rparr>)"

definition UpdateConfig :: "(connection_config \<Rightarrow> connection_config) \<Rightarrow> tcp_object \<Rightarrow> tcp_object" where
  "UpdateConfig updater t = (let t1 = t\<lparr>tcp_config := updater (tcp_config t)\<rparr> in obj_Configure (tcp_config t1) t1)"

definition GetLocalAddress :: "tcp_object \<Rightarrow> bytes" where
  "GetLocalAddress t = sa_ToString (local_addr t)"

definition GetPeerAddress :: "tcp_object \<Rightarrow> bytes" where
  "GetPeerAddress t = sa_ToString (peer_addr t)"

definition GetLocalPort :: "tcp_object \<Rightarrow> u16" where
  "GetLocalPort t = GetPort (local_addr t)"

definition GetPeerPort :: "tcp_object \<Rightarrow> u16" where
  "GetPeerPort t = GetPort (peer_addr t)"

definition WaitForData :: "(int \<Rightarrow> int \<Rightarrow> bool io_result) \<Rightarrow> int \<Rightarrow> tcp_object \<Rightarrow> bool" where
  "WaitForData poll_read timeout t = (case poll_read (socket_fd (base t)) timeout of Inr b \<Rightarrow> b | Inl e \<Rightarrow> False)"

definition WaitForWritable :: "(int \<Rightarrow> int \<Rightarrow> bool io_result) \<Rightarrow> int \<Rightarrow> tcp_object \<Rightarrow> bool" where
  "WaitForWritable poll_write timeout t = (case poll_write (socket_fd (base t)) timeout of Inr b \<Rightarrow> b | Inl e \<Rightarrow> False)"

definition SetConnectionManager :: "nat option \<Rightarrow> tcp_object \<Rightarrow> tcp_object" where
  "SetConnectionManager m t = t\<lparr>tcp_manager := m\<rparr>"

text \<open>The task of \<^verbatim>\<open>SendAsync\<close> and \<^verbatim>\<open>ReceiveAsync\<close>: an error becomes a \<^verbatim>\<open>system_error\<close> in the future (\<open>Inl\<close>). The second form of
  \<^verbatim>\<open>Receive\<close> copies the string into the caller's buffer.\<close>

definition send_task :: "bool \<Rightarrow> bytes \<Rightarrow> io_send list \<Rightarrow> nat \<Rightarrow> bytes \<Rightarrow> tcp_object \<Rightarrow> tcp_object \<times> (errno + nat)" where
  "send_task alloc junk io now data t = (case Send alloc junk io now data (base t) of (b, r) \<Rightarrow> (t\<lparr>base := b\<rparr>, r))"

definition receive_task ::
  "bool \<Rightarrow> bytes \<Rightarrow> recv_result \<Rightarrow> nat \<Rightarrow> nat \<Rightarrow> tcp_object \<Rightarrow> (tcp_object \<times> (errno + bytes)) option" where
  "receive_task alloc junk answer now max_len t =
     map_option (\<lambda>(b, r). (t\<lparr>base := b\<rparr>, r)) (Receive alloc junk answer now max_len (base t))"

definition Receive_into ::
  "bool \<Rightarrow> bytes \<Rightarrow> recv_result \<Rightarrow> nat \<Rightarrow> bytes \<Rightarrow> nat \<Rightarrow> tcp_object \<Rightarrow> (tcp_object \<times> bytes \<times> (errno + nat)) option" where
  "Receive_into alloc junk answer now buffer len t =
     map_option (\<lambda>(t', r). (case r of
          Inl e \<Rightarrow> (t', buffer, Inl e)
        | Inr s \<Rightarrow> let n = min (length s) len in (t', splice buffer 0 (take n s), Inr n)))
       (receive_task alloc junk answer now len t)"

subsection \<open>Steps\<close>

datatype obj_op =
  Op_Connect "errno + int" "errno option" "sockaddr_in io_result" nat sockaddr_in
| Op_Disconnect
| Op_Close
| Op_Configure connection_config
| Op_Update "connection_config \<Rightarrow> connection_config"
| Op_Send bool bytes "io_send list" nat bytes
| Op_Flush "io_send list" nat

fun obj_do :: "obj_op \<Rightarrow> tcp_object \<Rightarrow> tcp_object" where
  "obj_do (Op_Connect created connected local now addr) t = fst (obj_Connect created connected local now addr t)"
| "obj_do Op_Disconnect t = obj_Disconnect t"
| "obj_do Op_Close t = obj_Close t"
| "obj_do (Op_Configure cfg) t = obj_Configure cfg t"
| "obj_do (Op_Update f) t = UpdateConfig f t"
| "obj_do (Op_Send alloc junk io now data) t = fst (send_task alloc junk io now data t)"
| "obj_do (Op_Flush io now) t = t\<lparr>base := fst (Flush io now (base t))\<rparr>"

fun open_step :: "sys_call \<Rightarrow> int set \<Rightarrow> int set" where
  "open_step (Sys_Socket fd) fds = insert fd fds"
| "open_step (Sys_Close fd) fds = fds - {fd}"
| "open_step c fds = fds"

definition open_fds :: "sys_call list \<Rightarrow> int set" where
  "open_fds cs = fold open_step cs {}"

text \<open>Every \<^verbatim>\<open>close\<close> is of a descriptor that is open at that moment.\<close>

fun closes_owned :: "int set \<Rightarrow> sys_call list \<Rightarrow> bool" where
  "closes_owned fds [] = True"
| "closes_owned fds (c # cs) = ((case c of Sys_Close fd \<Rightarrow> fd \<in> fds | _ \<Rightarrow> True) \<and> closes_owned (open_step c fds) cs)"

text \<open>The kernel hands out descriptors that are not negative and not open.\<close>

fun kernel_ok :: "obj_op \<Rightarrow> tcp_object \<Rightarrow> bool" where
  "kernel_ok (Op_Connect (Inr fd) connected local now addr) t \<longleftrightarrow> 0 \<le> fd \<and> fd \<notin> open_fds (sys t)"
| "kernel_ok op t \<longleftrightarrow> True"

inductive obj_step :: "tcp_object \<Rightarrow> tcp_object \<Rightarrow> bool" where
  do_op: "kernel_ok op t \<Longrightarrow> obj_step t (obj_do op t)"

inductive obj_start :: "tcp_object \<Rightarrow> bool" where
  start_new: "obj_start (obj_new now)"
| start_accepted: "0 \<le> fd \<Longrightarrow> obj_start (obj_accepted local fd peer now)"

definition obj_reach :: "tcp_object \<Rightarrow> bool" where
  "obj_reach t \<longleftrightarrow> (\<exists>s. obj_start s \<and> obj_step\<^sup>*\<^sup>* s t)"

subsection \<open>Effects of the operations\<close>

lemma open_fds_append [simp]: "open_fds (cs @ ds) = fold open_step ds (open_fds cs)"
  by (simp add: open_fds_def)

lemma closes_owned_append: "closes_owned fds (cs @ ds) \<longleftrightarrow> closes_owned fds cs \<and> closes_owned (fold open_step cs fds) ds"
  by (induction cs arbitrary: fds) auto

lemma setup_calls_open [simp]: "fold open_step (setup_calls cfg fd) fds = fds"
  by (simp add: setup_calls_def)

lemma setup_calls_owned [simp]: "closes_owned fds (setup_calls cfg fd)"
  by (simp add: setup_calls_def closes_owned_append)

lemma setup_socket_frame [simp]:
  "base (fst (setup_socket t)) = base t" "tcp_config (fst (setup_socket t)) = tcp_config t"
  "open_fds (sys (fst (setup_socket t))) = open_fds (sys t)"
  "closes_owned {} (sys (fst (setup_socket t))) = closes_owned {} (sys t)"
  by (simp_all add: setup_socket_def closes_owned_append)

text \<open>The detailed \<^verbatim>\<open>Connect\<close> does to the state of \<open>Tcp_Connection\<close> what \<open>tcp_Connect\<close> says, with the same result.\<close>

lemma obj_Connect_base:
  "base (fst (obj_Connect created connected local now addr t)) = fst (tcp_Connect created connected now (base t))"
  "snd (obj_Connect created connected local now addr t) = snd (tcp_Connect created connected now (base t))"
  by (simp_all add: obj_Connect_def tcp_Connect_def init_def TriggerEvent_def Let_def split: sum.split option.split)

lemma obj_Connect_sys:
  "open_fds (sys (fst (obj_Connect created connected local now addr t))) =
     (case created of
        Inr fd \<Rightarrow> if conn_state (base t) \<noteq> ST_DISCONNECTED then open_fds (sys t)
                 else if connected = None then insert fd (open_fds (sys t)) else open_fds (sys t) - {fd}
      | Inl e \<Rightarrow> open_fds (sys t))"
  by (auto simp: obj_Connect_def init_def Let_def setup_socket_def split: sum.split option.split)

lemma obj_Connect_owned:
  "closes_owned {} (sys (fst (obj_Connect created connected local now addr t))) = closes_owned {} (sys t)"
  by (auto simp: obj_Connect_def init_def Let_def setup_socket_def closes_owned_append split: sum.split option.split)

lemma Flush_frame [simp]: "conn_state (fst (Flush io now b)) = conn_state b" "socket_fd (fst (Flush io now b)) = socket_fd b"
  "tcp.send_buffer_size (fst (Flush io now b)) = tcp.send_buffer_size b"
  by (simp_all add: Flush_def split: prod.split)

lemma Send_frame [simp]:
  "conn_state (fst (Send alloc junk io now data b)) = conn_state b" "socket_fd (fst (Send alloc junk io now data b)) = socket_fd b"
  "tcp.send_buffer_size (fst (Send alloc junk io now data b)) = tcp.send_buffer_size b"
  by (auto simp: Send_def Let_def split: prod.split option.split dest!: arg_cong [of "Flush _ _ _" _ fst])

lemma Configure_frame [simp]:
  "conn_state (Configure n b) = conn_state b" "socket_fd (Configure n b) = socket_fd b" "tcp.send_buffer_size (Configure n b) = n"
  by (simp_all add: Configure_def)

lemmas life_defs = obj_Disconnect_def obj_Close_def obj_Configure_def UpdateConfig_def send_task_def tcp_Disconnect_def tcp_Close_def
  TriggerEvent_def Let_def

subsection \<open>Descriptors\<close>

definition obj_inv :: "tcp_object \<Rightarrow> bool" where
  "obj_inv t \<longleftrightarrow> closes_owned {} (sys t) \<and> (0 \<le> socket_fd (base t) \<longrightarrow> socket_fd (base t) \<in> open_fds (sys t)) \<and>
     (conn_state (base t) = ST_CONNECTED \<longrightarrow> 0 \<le> socket_fd (base t)) \<and>
     tcp.send_buffer_size (base t) = cf_send_buffer_size (tcp_config t)"

lemma obj_start_inv: "obj_start t \<Longrightarrow> obj_inv t"
  by (induction rule: obj_start.induct)
     (simp_all add: obj_inv_def obj_new_def obj_accepted_def tcp_new_def tcp_accepted_def config_new_def open_fds_def setup_socket_def
      closes_owned_append)

lemma obj_Connect_inv:
  assumes "obj_inv t" and "kernel_ok (Op_Connect created connected local now addr) t"
  shows "obj_inv (fst (obj_Connect created connected local now addr t))"
proof -
  have "tcp_config (fst (obj_Connect created connected local now addr t)) = tcp_config t"
    by (simp add: obj_Connect_def init_def Let_def split: sum.split option.split)
  then show ?thesis using assms
    by (cases created; cases connected)
       (auto simp: obj_inv_def obj_Connect_owned obj_Connect_sys obj_Connect_base tcp_Connect_def TriggerEvent_def)
qed

lemma obj_step_inv:
  assumes "obj_step t t'" and "obj_inv t"
  shows "obj_inv t'"
  using assms
proof (induction rule: obj_step.induct)
  case (do_op op t)
  then show ?case
  proof (cases op)
    case (Op_Connect created connected local now addr)
    then show ?thesis using do_op obj_Connect_inv by simp
  next
    case Op_Close
    then show ?thesis using do_op by (auto simp: obj_inv_def life_defs closes_owned_append open_fds_def [symmetric])
  qed (auto simp: obj_inv_def life_defs closes_owned_append split: prod.split dest!: arg_cong [of "Send _ _ _ _ _ _" _ fst])
qed

lemma obj_steps_inv: "obj_step\<^sup>*\<^sup>* t t' \<Longrightarrow> obj_inv t \<Longrightarrow> obj_inv t'"
  by (induction rule: rtranclp_induct) (auto intro: obj_step_inv)

lemma obj_reach_inv: "obj_reach t \<Longrightarrow> obj_inv t"
  using obj_start_inv obj_steps_inv by (auto simp: obj_reach_def)

text \<open>A run without \<^verbatim>\<open>Disconnect\<close>: the open descriptors are exactly the one the object holds.\<close>

fun kernel_run :: "obj_op list \<Rightarrow> tcp_object \<Rightarrow> bool" where
  "kernel_run [] t \<longleftrightarrow> True"
| "kernel_run (op # ops) t \<longleftrightarrow> kernel_ok op t \<and> kernel_run ops (obj_do op t)"

definition holds_all :: "tcp_object \<Rightarrow> bool" where
  "holds_all t \<longleftrightarrow> open_fds (sys t) = (if 0 \<le> socket_fd (base t) then {socket_fd (base t)} else {}) \<and>
     (conn_state (base t) = ST_DISCONNECTED \<longrightarrow> socket_fd (base t) < 0)"

lemma start_holds_all: "obj_start t \<Longrightarrow> holds_all t"
  by (induction rule: obj_start.induct)
     (simp_all add: holds_all_def obj_new_def obj_accepted_def tcp_new_def tcp_accepted_def open_fds_def setup_socket_def)

lemma do_holds_all:
  assumes "holds_all t" and "kernel_ok op t" and "op \<noteq> Op_Disconnect"
  shows "holds_all (obj_do op t)"
proof (cases op)
  case (Op_Connect created connected local now addr)
  then show ?thesis using assms
    by (cases created; cases connected) (auto simp: holds_all_def obj_Connect_sys obj_Connect_base tcp_Connect_def TriggerEvent_def)
qed (use assms in \<open>auto simp: holds_all_def life_defs split: prod.split dest!: arg_cong [of "Send _ _ _ _ _ _" _ fst]\<close>)

lemma run_holds_all:
  "holds_all t \<Longrightarrow> kernel_run ops t \<Longrightarrow> Op_Disconnect \<notin> set ops \<Longrightarrow> holds_all (fold obj_do ops t)"
proof (induction ops arbitrary: t)
  case (Cons op ops)
  then show ?case using do_holds_all [of t op] by auto
qed simp

lemma kernel_run_reach: "obj_step\<^sup>*\<^sup>* s t \<Longrightarrow> kernel_run ops t \<Longrightarrow> obj_step\<^sup>*\<^sup>* s (fold obj_do ops t)"
proof (induction ops arbitrary: t)
  case (Cons op ops)
  then have "obj_step t (obj_do op t)" by (simp add: do_op)
  then show ?case using Cons by (simp add: rtranclp.rtrancl_into_rtrancl)
qed simp

text \<open>C21: A connection object closes only descriptors that are open and its own, whatever calls are made on it and whatever the socket
  layer answers; while it counts as connected it has a descriptor; and as long as \<^verbatim>\<open>Disconnect\<close> is not called, the open
  descriptors are exactly the one it holds, so that none is left once it is closed.\<close>

theorem tcp_descriptors:
  assumes "obj_start s" and "kernel_run ops s"
  defines "t \<equiv> fold obj_do ops s"
  shows "closes_owned {} (sys t) \<and> (IsConnected (base t) \<longrightarrow> 0 \<le> socket_fd (base t)) \<and>
    (Op_Disconnect \<notin> set ops \<longrightarrow>
       open_fds (sys t) = (if 0 \<le> socket_fd (base t) then {socket_fd (base t)} else {}) \<and> open_fds (sys (obj_Close t)) = {})"
proof -
  have "obj_inv t" using kernel_run_reach [OF rtranclp.rtrancl_refl assms(2)] obj_start_inv [OF assms(1)] obj_steps_inv t_def by blast
  moreover have "Op_Disconnect \<notin> set ops \<Longrightarrow> holds_all t"
    using run_holds_all [OF start_holds_all [OF assms(1)] assms(2)] by (simp add: t_def)
  ultimately show ?thesis by (auto simp: obj_inv_def holds_all_def IsConnected_def obj_Close_def)
qed

definition addr_local :: sockaddr_in where
  "addr_local = FromIpPort (str ''127.0.0.1'') 8080"

definition sample_run :: "obj_op list" where
  "sample_run = [Op_Connect (Inr 5) None (Inr addr_local) 1 addr_local, Op_Configure config_new]"

lemmas life_eval = obj_new_def tcp_new_def obj_Connect_def obj_Configure_def Configure_def init_def setup_socket_def setup_calls_def
  config_new_def open_fds_def TriggerEvent_def Let_def

theorem tcp_descriptors_witness: "open_fds (sys (obj_Close (fold obj_do sample_run (obj_new 0)))) = {}"
proof -
  have "kernel_run sample_run (obj_new 0)" by (simp add: sample_run_def life_eval)
  moreover have "Op_Disconnect \<notin> set sample_run" by (simp add: sample_run_def)
  ultimately show ?thesis using tcp_descriptors [OF start_new, of sample_run 0] by blast
qed

text \<open>\<open>leaked\<close>: open and out of reach of the object.\<close>

definition leaked :: "int \<Rightarrow> tcp_object \<Rightarrow> bool" where
  "leaked fd t \<longleftrightarrow> fd \<in> open_fds (sys t) \<and> fd \<noteq> socket_fd (base t) \<and> 0 \<le> fd"

lemma leaked_step: "obj_step t t' \<Longrightarrow> leaked fd t \<Longrightarrow> leaked fd t'"
proof (induction rule: obj_step.induct)
  case (do_op op t)
  then show ?case
  proof (cases op)
    case (Op_Connect created connected local now addr)
    then show ?thesis using do_op
      by (cases created; cases connected) (auto simp: leaked_def obj_Connect_sys obj_Connect_base tcp_Connect_def TriggerEvent_def)
  qed (auto simp: leaked_def life_defs split: prod.split dest!: arg_cong [of "Send _ _ _ _ _ _" _ fst])
qed

lemma leaked_forever: "obj_step\<^sup>*\<^sup>* t t' \<Longrightarrow> leaked fd t \<Longrightarrow> leaked fd t'"
  by (induction rule: rtranclp_induct) (auto intro: leaked_step)

text \<open>C39: Reconnecting loses a descriptor for good. \<^verbatim>\<open>Disconnect\<close> shuts the socket down without closing it, and the next \<^verbatim>\<open>Connect\<close>
  that obtains a socket overwrites the number: from then on the old descriptor stays open whatever is called, \<^verbatim>\<open>Close\<close> and with it the
  destructor included.\<close>

theorem tcp_reconnect_leaks:
  assumes "obj_reach t" and "IsConnected (base t)" and "0 \<le> fd" and "fd \<notin> open_fds (sys t)"
    and "obj_step\<^sup>*\<^sup>* (fst (obj_Connect (Inr fd) connected local now addr (obj_Disconnect t))) t'"
  shows "leaked (socket_fd (base t)) t'"
proof -
  have "obj_inv t" using assms(1) by (rule obj_reach_inv)
  then have "leaked (socket_fd (base t)) (fst (obj_Connect (Inr fd) connected local now addr (obj_Disconnect t)))"
    using assms(2-4) by (cases connected) (auto simp: leaked_def obj_inv_def IsConnected_def obj_Connect_sys obj_Connect_base
        tcp_Connect_def life_defs)
  then show ?thesis using leaked_forever [OF assms(5)] by blast
qed

theorem tcp_reconnect_leaks_witness:
  "leaked 5 (fst (obj_Connect (Inr 6) None (Inl 9) 2 addr_local (obj_Disconnect (fold obj_do sample_run (obj_new 0)))))"
proof -
  let ?t = "fold obj_do sample_run (obj_new 0)"
  have "kernel_run sample_run (obj_new 0)" by (simp add: sample_run_def life_eval)
  then have "obj_reach ?t" using kernel_run_reach [OF rtranclp.rtrancl_refl] start_new obj_reach_def by blast
  moreover have "IsConnected (base ?t)" "socket_fd (base ?t) = 5" "6 \<notin> open_fds (sys ?t)"
    by (simp_all add: sample_run_def life_eval IsConnected_def)
  ultimately show ?thesis
    using tcp_reconnect_leaks [of ?t 6 None "Inl 9" 2 addr_local, OF _ _ _ _ rtranclp.rtrancl_refl] by simp
qed

subsection \<open>States without return\<close>

definition spent :: "tcp_object \<Rightarrow> bool" where
  "spent t \<longleftrightarrow> conn_state (base t) \<in> {ST_ERROR, ST_CLOSING}"

lemma spent_step: "obj_step t t' \<Longrightarrow> spent t \<Longrightarrow> spent t'"
proof (induction rule: obj_step.induct)
  case (do_op op t)
  then show ?case
    by (cases op) (auto simp: spent_def obj_Connect_base tcp_Connect_def life_defs split: prod.split
        dest!: arg_cong [of "Send _ _ _ _ _ _" _ fst])
qed

lemma spent_forever: "obj_step\<^sup>*\<^sup>* t t' \<Longrightarrow> spent t \<Longrightarrow> spent t'"
  by (induction rule: rtranclp_induct) (auto intro: spent_step)

text \<open>C40: A connection that could not be made at once can never be made. With the default configuration the socket does not block, so
  \<^verbatim>\<open>connect\<close> answers that it is in progress; \<^verbatim>\<open>Connect\<close> takes this for a failure, closes the socket and enters the error
  state, which no operation leaves: every later \<^verbatim>\<open>Send\<close> is refused as not connected. The same holds after \<^verbatim>\<open>Close\<close>.\<close>

theorem tcp_connect_final:
  assumes "obj_step\<^sup>*\<^sup>* t t'"
    and "t = obj_Close s \<and> 0 \<le> socket_fd (base s) \<or>
      t = fst (obj_Connect (Inr fd) (Some EINPROGRESS) local now addr s) \<and> conn_state (base s) = ST_DISCONNECTED"
  shows "\<not> IsConnected (base t') \<and> snd (Send alloc junk io now' data (base t')) = Inl ENOTCONN"
proof -
  have "spent t" using assms(2) by (auto simp: spent_def obj_Connect_base tcp_Connect_def life_defs)
  then have "spent t'" using spent_forever [OF assms(1)] by blast
  then show ?thesis by (auto simp: spent_def IsConnected_def Send_def)
qed

theorem tcp_connect_final_witness:
  "\<not> IsConnected (base (fst (obj_Connect (Inr 5) (Some EINPROGRESS) (Inl 9) 1 addr_local (obj_new 0))))"
  using tcp_connect_final [OF rtranclp.rtrancl_refl, of _ "obj_new 0" 5 "Inl 9" 1 addr_local] by (simp add: obj_new_def tcp_new_def)

subsection \<open>Configuration\<close>

text \<open>Once a configuration is applied, a connection that says it is writable accepts whatever fits below its send buffer size.\<close>

lemma configured_writable:
  assumes "obj_inv t" and "conn_buffer_inv (tbuf (base t))" and "IsConnected (base t)"
    and "length (send_pending (tbuf (base t))) + length data \<le> cf_send_buffer_size cfg"
  shows "accepts True data (base (obj_Configure cfg t))"
  using assms by (simp add: accepts_def obj_Configure_def Configure_def SetMaxSendQueueSize_def IsConnected_def send_pending_def Let_def)

lemma UpdateConfig_config [simp]: "tcp_config (UpdateConfig f t) = f (tcp_config t)"
  by (simp add: UpdateConfig_def obj_Configure_def Let_def)

lemma peer_address_of_connect:
  "conn_state (base t) = ST_DISCONNECTED \<Longrightarrow>
   GetPeerAddress (fst (obj_Connect_host (Inr fd) None local now host port t)) = sa_ToString (FromIpPort host port)"
  by (simp add: GetPeerAddress_def obj_Connect_host_def obj_Connect_def init_def setup_socket_def Let_def split: sum.split)

end
