(* ===== verification/Legacy_Connection.thy ===== *)
theory Legacy_Connection
  imports Tcp_Lifecycle Connection_Parts
begin

section \<open>The second implementation of connections (\<^verbatim>\<open>src/core/Connection/connection.cpp\<close>)\<close>

text \<open>
  The class \<^verbatim>\<open>TcpConnection\<close> puts a connection together from \<^verbatim>\<open>net::Socket\<close> (\<open>Net_Socket\<close>), the stand-alone queue and receive buffer
  (\<open>Connection_Buffer\<close>) and the parts of \<open>Connection_Parts\<close>, with its own \<^verbatim>\<open>EventManager\<close> and \<^verbatim>\<open>Identity\<close>. What it registers with the
  event dispatcher and which callbacks are called are logs. The functions it calls that no class declares are parameters:
  \<^verbatim>\<open>StateMachine::SetDisconnecting\<close>, \<^verbatim>\<open>StateMachine::HasError\<close> and \<^verbatim>\<open>Statistics::RecordOperation\<close>. The answers of the system are
  the record \<open>net_answers\<close>; loops run over the answers to \<^verbatim>\<open>send\<close>, after which the socket would block.
\<close>

record net_answers =
  an_create :: "int \<Rightarrow> int \<Rightarrow> int \<Rightarrow> int io_result"
  an_nonblock :: "int \<Rightarrow> bool \<Rightarrow> unit io_result"
  an_setopt :: "int \<Rightarrow> sockopt \<Rightarrow> optval \<Rightarrow> nat \<Rightarrow> unit io_result"
  an_connect :: "int \<Rightarrow> sockaddr_in \<Rightarrow> unit io_result"
  an_recv :: "int \<Rightarrow> nat \<Rightarrow> bytes io_result"
  an_so_error :: "int \<Rightarrow> int io_result"
  an_ntop6 :: "128 word \<Rightarrow> bytes"
  an_now :: nat

record missing_parts =
  set_disconnecting :: "connection_state \<Rightarrow> connection_state"
  has_error_state :: "connection_state \<Rightarrow> bool"
  record_operation :: "conn_statistics \<Rightarrow> conn_statistics"

datatype notice = Note_Event connection_event | Note_Data bytes | Note_Error errno

datatype registration = Reg_Read int | Reg_Write int | Reg_Remove int | Reg_Read_Only int

datatype tc_error = Generic_Error nat | System_Error errno

text \<open>\<^verbatim>\<open>EventManager\<close>: which callbacks are set, what was called, what was registered.\<close>

record event_manager =
  has_event_cb :: bool
  has_data_cb :: bool
  has_error_cb :: bool
  has_dispatcher :: bool
  notices :: "notice list"
  registrations :: "registration list"

record 'v tconn =
  tc_sock :: sock
  tc_queue :: send_buffer_queue
  tc_recv :: recv_buffer_comp
  tc_events :: event_manager
  tc_beat :: nat
  tc_id :: u64
  tc_mgr :: "nat option"
  tc_state :: connection_state
  tc_stats :: conn_statistics
  tc_user :: "'v user_data"
  tc_config :: connection_config

abbreviation (input) CE_CONNECTION_RESET :: nat where "CE_CONNECTION_RESET \<equiv> 6"
abbreviation (input) CE_WOULD_BLOCK :: nat where "CE_WOULD_BLOCK \<equiv> 7"
abbreviation (input) CE_ALREADY_CONNECTED :: nat where "CE_ALREADY_CONNECTED \<equiv> 8"
abbreviation (input) CE_NOT_CONNECTED :: nat where "CE_NOT_CONNECTED \<equiv> 9"

subsection \<open>Event manager\<close>

definition em_SetEventCallback :: "bool \<Rightarrow> event_manager \<Rightarrow> event_manager" where
  "em_SetEventCallback b m = m\<lparr>has_event_cb := b\<rparr>"

definition em_SetDataCallback :: "bool \<Rightarrow> event_manager \<Rightarrow> event_manager" where
  "em_SetDataCallback b m = m\<lparr>has_data_cb := b\<rparr>"

definition em_SetErrorCallback :: "bool \<Rightarrow> event_manager \<Rightarrow> event_manager" where
  "em_SetErrorCallback b m = m\<lparr>has_error_cb := b\<rparr>"

definition NotifyEvent :: "connection_event \<Rightarrow> event_manager \<Rightarrow> event_manager" where
  "NotifyEvent e m = (if has_event_cb m then m\<lparr>notices := notices m @ [Note_Event e]\<rparr> else m)"

definition NotifyData :: "bytes \<Rightarrow> event_manager \<Rightarrow> event_manager" where
  "NotifyData d m = (if has_data_cb m then m\<lparr>notices := notices m @ [Note_Data d]\<rparr> else m)"

definition NotifyError :: "errno \<Rightarrow> event_manager \<Rightarrow> event_manager" where
  "NotifyError e m = (if has_error_cb m then m\<lparr>notices := notices m @ [Note_Error e]\<rparr> else m)"

definition RegisterRead :: "int \<Rightarrow> event_manager \<Rightarrow> event_manager" where
  "RegisterRead fd m = (if has_dispatcher m \<and> fd \<noteq> - 1 then m\<lparr>registrations := registrations m @ [Reg_Read fd]\<rparr> else m)"

definition RegisterWrite :: "int \<Rightarrow> event_manager \<Rightarrow> event_manager" where
  "RegisterWrite fd m = (if has_dispatcher m \<and> fd \<noteq> - 1 then m\<lparr>registrations := registrations m @ [Reg_Write fd]\<rparr> else m)"

definition Unregister :: "int \<Rightarrow> event_manager \<Rightarrow> event_manager" where
  "Unregister fd m = (if has_dispatcher m then m\<lparr>registrations := registrations m @ [Reg_Remove fd]\<rparr> else m)"

definition ModifyToReadOnly :: "int \<Rightarrow> event_manager \<Rightarrow> event_manager" where
  "ModifyToReadOnly fd m = (if has_dispatcher m then m\<lparr>registrations := registrations m @ [Reg_Read_Only fd]\<rparr> else m)"

definition em_new :: event_manager where
  "em_new = \<lparr>has_event_cb = False, has_data_cb = False, has_error_cb = False, has_dispatcher = True, notices = [],
     registrations = []\<rparr>"

subsection \<open>Helpers\<close>

definition on_events :: "(event_manager \<Rightarrow> event_manager) \<Rightarrow> 'v tconn \<Rightarrow> 'v tconn" where
  "on_events f c = c\<lparr>tc_events := f (tc_events c)\<rparr>"

definition config_options :: "connection_config \<Rightarrow> socket_options" where
  "config_options cfg = socket_options_new\<lparr>tcp_no_delay := cf_no_delay cfg, keep_alive := cf_keep_alive cfg, reuse_addr := True\<rparr>"

definition applyConfigToSocket :: "net_answers \<Rightarrow> 'v tconn \<Rightarrow> 'v tconn" where
  "applyConfigToSocket an c = c\<lparr>tc_sock := fst (sock_set_options (an_setopt an) (config_options (tc_config c)) (tc_sock c))\<rparr>"

definition updateActivity :: "nat \<Rightarrow> 'v tconn \<Rightarrow> 'v tconn" where
  "updateActivity now c = c\<lparr>tc_stats := UpdateActivity now (tc_stats c), tc_beat := Heartbeat_Update now (tc_beat c)\<rparr>"

definition closeInternal :: "'v tconn \<Rightarrow> 'v tconn" where
  "closeInternal c =
     (let c1 = (if is_valid (tc_sock c)
                then (on_events (Unregister (sock_fd (tc_sock c))) c)\<lparr>tc_sock := fst (sock_close (tc_sock c))\<rparr> else c)
      in on_events (NotifyEvent EV_DISCONNECTED)
           (c1\<lparr>tc_state := SetDisconnected (tc_state c1), tc_queue := sbq_ClearAll (tc_queue c1), tc_recv := rb_ClearAll (tc_recv c1)\<rparr>))"

definition tconn_new :: "net_answers \<Rightarrow> recv_buffer_comp \<Rightarrow> sock \<Rightarrow> 'v tconn" where
  "tconn_new an rb s =
     applyConfigToSocket an
       \<lparr>tc_sock = s, tc_queue = \<lparr>chunks = [], total_bytes = 0\<rparr>, tc_recv = rb, tc_events = em_new, tc_beat = an_now an,
        tc_id = 0, tc_mgr = None, tc_state = sm_new, tc_stats = statistics_new (an_now an), tc_user = Map.empty,
        tc_config = config_new\<rparr>"

subsection \<open>Life cycle\<close>

definition connected_now :: "net_answers \<Rightarrow> 'v tconn \<Rightarrow> 'v tconn" where
  "connected_now an c =
     (let c1 = c\<lparr>tc_state := fst (SetConnected (tc_state c)), tc_stats := SetConnectTime (an_now an) (tc_stats c)\<rparr>
      in on_events (NotifyEvent EV_CONNECTED) (on_events (RegisterRead (sock_fd (tc_sock c))) (updateActivity (an_now an) c1)))"

definition try_connect :: "net_answers \<Rightarrow> net_address \<Rightarrow> 'v tconn \<Rightarrow> 'v tconn \<times> tc_error option" where
  "try_connect an addr c =
     (case sock_connect (an_connect an) (an_ntop6 an) addr (fst (sock_set_nonblocking (an_nonblock an) True (tc_sock c))) of
        (s, ok) \<Rightarrow>
          let c1 = c\<lparr>tc_sock := s\<rparr>; err = sock_get_error (an_so_error an) s
          in if ok then (connected_now an c1, None)
             else if err = EINPROGRESS
             then (on_events (RegisterWrite (sock_fd s)) (c1\<lparr>tc_state := fst (SetConnecting (tc_state c1))\<rparr>), None)
             else (c1, Some (System_Error err)))"

definition ConnectInternal :: "net_answers \<Rightarrow> net_address \<Rightarrow> 'v tconn \<Rightarrow> 'v tconn \<times> (sock_exn + tc_error option)" where
  "ConnectInternal an addr c =
     (if tc_state c \<noteq> ST_DISCONNECTED then (c, Inr (Some (Generic_Error CE_ALREADY_CONNECTED)))
      else if is_valid (tc_sock c) then map_prod id Inr (try_connect an addr c)
      else case create_socket (an_create an) TCP of
             Inl e \<Rightarrow> (c, Inl e)
           | Inr s \<Rightarrow> map_prod id Inr (try_connect an addr (applyConfigToSocket an (c\<lparr>tc_sock := s\<rparr>))))"

definition tc_Connect :: "net_answers \<Rightarrow> bytes \<Rightarrow> u16 \<Rightarrow> 'v tconn \<Rightarrow> 'v tconn \<times> (sock_exn + tc_error option)" where
  "tc_Connect an host port c = ConnectInternal an (addr_of_ip_port host port) c"

definition tc_Connect_addr :: "net_answers \<Rightarrow> sockaddr_in \<Rightarrow> 'v tconn \<Rightarrow> 'v tconn \<times> (sock_exn + tc_error option)" where
  "tc_Connect_addr an sa c = ConnectInternal an (addr_of_ip_port (GetIp sa) (GetPort sa)) c"

definition tc_Disconnect :: "missing_parts \<Rightarrow> 'v tconn \<Rightarrow> 'v tconn" where
  "tc_Disconnect mp c =
     (if tc_state c = ST_DISCONNECTED then c else closeInternal (c\<lparr>tc_state := set_disconnecting mp (tc_state c)\<rparr>))"

definition tc_Close :: "'v tconn \<Rightarrow> 'v tconn" where
  "tc_Close c = closeInternal c"

definition onConnectComplete :: "net_answers \<Rightarrow> 'v tconn \<Rightarrow> 'v tconn" where
  "onConnectComplete an c =
     (if tc_state c = ST_CONNECTING
      then let err = sock_get_error (an_so_error an) (tc_sock c)
           in if err = 0 then connected_now an c
              else on_events (NotifyError err) (c\<lparr>tc_state := SetError (tc_state c)\<rparr>)
      else c)"

subsection \<open>Data\<close>

fun send_answer :: "io_send \<Rightarrow> bytes \<Rightarrow> nat io_result" where
  "send_answer (Accepted n) data = Inr (min n (length data))"
| "send_answer (Refused e) data = Inl e"

definition sock_send_with :: "io_send \<Rightarrow> bytes \<Rightarrow> 'v tconn \<Rightarrow> 'v tconn \<times> nat option" where
  "sock_send_with r data c = (case sock_send (\<lambda>fd bs. send_answer r bs) data (tc_sock c) of (s, x) \<Rightarrow> (c\<lparr>tc_sock := s\<rparr>, x))"

definition count_sent :: "missing_parts \<Rightarrow> nat \<Rightarrow> nat \<Rightarrow> 'v tconn \<Rightarrow> 'v tconn" where
  "count_sent mp now n c = updateActivity now (c\<lparr>tc_stats := record_operation mp (RecordSent (of_nat n) (tc_stats c))\<rparr>)"

definition count_received :: "missing_parts \<Rightarrow> nat \<Rightarrow> nat \<Rightarrow> 'v tconn \<Rightarrow> 'v tconn" where
  "count_received mp now n c = updateActivity now (c\<lparr>tc_stats := record_operation mp (RecordReceived (of_nat n) (tc_stats c))\<rparr>)"

text \<open>\<^verbatim>\<open>EnqueueSend\<close> always succeeds, so the branch for a full queue is never taken.\<close>

definition tc_Send :: "missing_parts \<Rightarrow> net_answers \<Rightarrow> io_send \<Rightarrow> bytes \<Rightarrow> 'v tconn \<Rightarrow> 'v tconn \<times> (tc_error + nat)" where
  "tc_Send mp an r data c =
     (if \<not> sm_IsConnected (tc_state c) then (c, Inl (Generic_Error CE_NOT_CONNECTED))
      else case sock_send_with r data c of
             (c1, Some n) \<Rightarrow> (count_sent mp (an_now an) n c1, Inr n)
           | (c1, None) \<Rightarrow>
               let err = sock_get_error (an_so_error an) (tc_sock c1)
               in if err = EAGAIN
                  then (on_events (RegisterWrite (sock_fd (tc_sock c1))) (c1\<lparr>tc_queue := sbq_EnqueueSend data (tc_queue c1)\<rparr>),
                        Inr (length data))
                  else (c1, Inl (System_Error err)))"

definition tc_Receive :: "missing_parts \<Rightarrow> net_answers \<Rightarrow> nat \<Rightarrow> 'v tconn \<Rightarrow> 'v tconn \<times> (tc_error + bytes)" where
  "tc_Receive mp an max_len c =
     (if \<not> sm_IsConnected (tc_state c) then (c, Inl (Generic_Error CE_NOT_CONNECTED))
      else case sock_recv (an_recv an) max_len (tc_sock c) of
             (s, x) \<Rightarrow>
               let c1 = c\<lparr>tc_sock := s\<rparr>
               in (case x of
                     None \<Rightarrow>
                       let err = sock_get_error (an_so_error an) s
                       in (c1, Inl (if err = EAGAIN then Generic_Error CE_WOULD_BLOCK else System_Error err))
                   | Some d \<Rightarrow>
                       if take max_len d = [] then (closeInternal c1, Inl (Generic_Error CE_CONNECTION_RESET))
                       else (count_received mp (an_now an) (length (take max_len d)) c1, Inr (take max_len d))))"

text \<open>The form that fills the caller's memory: the bytes go there, the count is returned.\<close>

definition tc_Receive_into :: "missing_parts \<Rightarrow> net_answers \<Rightarrow> nat \<Rightarrow> 'v tconn \<Rightarrow> 'v tconn \<times> bytes \<times> (tc_error + nat)" where
  "tc_Receive_into mp an len c =
     (case tc_Receive mp an len c of (c', Inl e) \<Rightarrow> (c', [], Inl e) | (c', Inr d) \<Rightarrow> (c', d, Inr (length d)))"

fun tc_Flush_loop :: "missing_parts \<Rightarrow> net_answers \<Rightarrow> io_send list \<Rightarrow> 'v tconn \<Rightarrow> 'v tconn \<times> tc_error option" where
  "tc_Flush_loop mp an io c =
     (if sbq_IsSendQueueEmpty (tc_queue c) \<or> sbq_PeekSend (tc_queue c) = [] then (c, None)
      else case sock_send_with (case io of [] \<Rightarrow> Refused EAGAIN | r # _ \<Rightarrow> r) (sbq_PeekSend (tc_queue c)) c of
             (c1, None) \<Rightarrow>
               let err = sock_get_error (an_so_error an) (tc_sock c1)
               in if err = EAGAIN then (on_events (RegisterWrite (sock_fd (tc_sock c1))) c1, None)
                  else (c1, Some (System_Error err))
           | (c1, Some n) \<Rightarrow>
               let c2 = count_sent mp (an_now an) n (c1\<lparr>tc_queue := sbq_ConsumeSend n (tc_queue c1)\<rparr>)
               in (case io of [] \<Rightarrow> (c2, None) | _ # io' \<Rightarrow> tc_Flush_loop mp an io' c2))"

definition tc_Flush :: "missing_parts \<Rightarrow> net_answers \<Rightarrow> io_send list \<Rightarrow> 'v tconn \<Rightarrow> 'v tconn \<times> tc_error option" where
  "tc_Flush mp an io c =
     (if \<not> sm_IsConnected (tc_state c) then (c, Some (Generic_Error CE_NOT_CONNECTED))
      else case tc_Flush_loop mp an io c of
             (c1, Some e) \<Rightarrow> (c1, Some e)
           | (c1, None) \<Rightarrow>
               (if sbq_IsSendQueueEmpty (tc_queue c1) then on_events (ModifyToReadOnly (sock_fd (tc_sock c1))) c1 else c1, None))"

text \<open>The second view is taken after the commit: it begins behind the data it is meant to show.\<close>

definition onReadEvent :: "missing_parts \<Rightarrow> net_answers \<Rightarrow> 'v tconn \<Rightarrow> 'v tconn" where
  "onReadEvent mp an c =
     (if \<not> sm_IsConnected (tc_state c) then c
      else case rb_GetReceiveBuffer (tc_recv c) of
             (rb, pos, room) \<Rightarrow>
               if room = 0 then c\<lparr>tc_recv := rb\<rparr>
               else (case sock_recv (an_recv an) room (tc_sock c) of
                       (s, x) \<Rightarrow>
                         let c1 = c\<lparr>tc_recv := rb, tc_sock := s\<rparr>
                         in (case x of
                               None \<Rightarrow>
                                 let err = sock_get_error (an_so_error an) s
                                 in if err = EAGAIN then c1 else on_events (NotifyError err) (closeInternal c1)
                             | Some d \<Rightarrow>
                                 let n = length (take room d)
                                 in if n = 0 then on_events (NotifyEvent EV_DISCONNECTED) (closeInternal c1)
                                    else let rb1 = rb_CommitReceive n (rb\<lparr>rbuffer := splice (rbuffer rb) pos (take room d)\<rparr>);
                                             c2 = count_received mp (an_now an) n (c1\<lparr>tc_recv := rb1\<rparr>)
                                         in (case rb_GetReceiveBuffer rb1 of
                                               (rb2, pos2, room2) \<Rightarrow>
                                                 on_events (NotifyData (take (rb_GetReceiveBufferSize rb2) (drop pos2 (rbuffer rb2))))
                                                   (c2\<lparr>tc_recv := rb2\<rparr>)))))"

fun onWriteEvent_loop :: "missing_parts \<Rightarrow> net_answers \<Rightarrow> io_send list \<Rightarrow> 'v tconn \<Rightarrow> 'v tconn \<times> bool" where
  "onWriteEvent_loop mp an io c =
     (if sbq_IsSendQueueEmpty (tc_queue c) \<or> sbq_PeekSend (tc_queue c) = [] then (c, True)
      else case sock_send_with (case io of [] \<Rightarrow> Refused EAGAIN | r # _ \<Rightarrow> r) (sbq_PeekSend (tc_queue c)) c of
             (c1, None) \<Rightarrow>
               let err = sock_get_error (an_so_error an) (tc_sock c1)
               in if err = EAGAIN then (c1, False) else (on_events (NotifyError err) (closeInternal c1), False)
           | (c1, Some n) \<Rightarrow>
               let c2 = on_events (NotifyEvent EV_DATA_SENT)
                     (count_sent mp (an_now an) n (c1\<lparr>tc_queue := sbq_ConsumeSend n (tc_queue c1)\<rparr>))
               in (case io of [] \<Rightarrow> (c2, False) | _ # io' \<Rightarrow> onWriteEvent_loop mp an io' c2))"

definition onWriteEvent :: "missing_parts \<Rightarrow> net_answers \<Rightarrow> io_send list \<Rightarrow> 'v tconn \<Rightarrow> 'v tconn" where
  "onWriteEvent mp an io c =
     (if \<not> sm_IsConnected (tc_state c) then c
      else case onWriteEvent_loop mp an io c of
             (c1, finished) \<Rightarrow>
               if finished \<and> sbq_IsSendQueueEmpty (tc_queue c1) then on_events (ModifyToReadOnly (sock_fd (tc_sock c1))) c1 else c1)"

text \<open>The tasks of the asynchronous forms: \<open>None\<close> for the object means that it was destroyed before the task ran.\<close>

datatype task_failure = Connection_Destroyed | Task_System_Error tc_error

definition async_task :: "('v tconn \<Rightarrow> 'v tconn \<times> (tc_error + 'a)) \<Rightarrow> 'v tconn option \<Rightarrow> 'v tconn option \<times> (task_failure + 'a)" where
  "async_task f self =
     (case self of
        None \<Rightarrow> (None, Inl Connection_Destroyed)
      | Some c \<Rightarrow> (case f c of (c', r) \<Rightarrow> (Some c', map_sum Task_System_Error id r)))"

definition tc_SendAsync ::
  "missing_parts \<Rightarrow> net_answers \<Rightarrow> io_send \<Rightarrow> bytes \<Rightarrow> 'v tconn option \<Rightarrow> 'v tconn option \<times> (task_failure + nat)" where
  "tc_SendAsync mp an r data = async_task (tc_Send mp an r data)"

definition tc_ReceiveAsync ::
  "missing_parts \<Rightarrow> net_answers \<Rightarrow> nat \<Rightarrow> 'v tconn option \<Rightarrow> 'v tconn option \<times> (task_failure + bytes)" where
  "tc_ReceiveAsync mp an len = async_task (tc_Receive mp an len)"

subsection \<open>Buffers, configuration, queries\<close>

definition tc_ClearBuffers :: "'v tconn \<Rightarrow> 'v tconn" where
  "tc_ClearBuffers c = c\<lparr>tc_queue := sbq_ClearAll (tc_queue c), tc_recv := rb_ClearAll (tc_recv c)\<rparr>"

definition tc_GetPendingSendBytes :: "'v tconn \<Rightarrow> nat" where
  "tc_GetPendingSendBytes c = sbq_GetSendQueueSize (tc_queue c)"

definition tc_GetPendingReceiveBytes :: "'v tconn \<Rightarrow> nat" where
  "tc_GetPendingReceiveBytes c = rb_GetReceiveBufferSize (tc_recv c)"

definition tc_Configure :: "net_answers \<Rightarrow> connection_config \<Rightarrow> 'v tconn \<Rightarrow> 'v tconn" where
  "tc_Configure an cfg c = applyConfigToSocket an (c\<lparr>tc_config := cfg\<rparr>)"

definition tc_UpdateConfig :: "net_answers \<Rightarrow> (connection_config \<Rightarrow> connection_config) \<Rightarrow> 'v tconn \<Rightarrow> 'v tconn" where
  "tc_UpdateConfig an f c = applyConfigToSocket an (c\<lparr>tc_config := f (tc_config c)\<rparr>)"

definition tc_IsReadable :: "'v tconn \<Rightarrow> bool" where
  "tc_IsReadable c \<longleftrightarrow> is_valid (tc_sock c) \<and> sm_IsConnected (tc_state c)"

definition tc_IsWritable :: "'v tconn \<Rightarrow> bool" where
  "tc_IsWritable c \<longleftrightarrow> is_valid (tc_sock c) \<and> sm_IsConnected (tc_state c)"

definition tc_WaitForData :: "nat \<Rightarrow> 'v tconn \<Rightarrow> bool" where
  "tc_WaitForData timeout c = tc_IsReadable c"

definition tc_WaitForWritable :: "nat \<Rightarrow> 'v tconn \<Rightarrow> bool" where
  "tc_WaitForWritable timeout c = tc_IsWritable c"

definition tc_HasError :: "missing_parts \<Rightarrow> 'v tconn \<Rightarrow> bool" where
  "tc_HasError mp c = has_error_state mp (tc_state c)"

definition tc_address :: "(int \<Rightarrow> sockaddr_in io_result) \<Rightarrow> (128 word \<Rightarrow> bytes) \<Rightarrow> 'v tconn \<Rightarrow> bytes" where
  "tc_address get ntop6 c = (if is_valid (tc_sock c) then addr_to_string ntop6 (sock_address get (tc_sock c)) else [])"

definition tc_port :: "(int \<Rightarrow> sockaddr_in io_result) \<Rightarrow> 'v tconn \<Rightarrow> u16" where
  "tc_port get c = (if is_valid (tc_sock c) then addr_port (sock_address get (tc_sock c)) else 0)"

definition tc_SetConnectionId :: "u64 \<Rightarrow> 'v tconn \<Rightarrow> 'v tconn" where
  "tc_SetConnectionId i c = c\<lparr>tc_id := i\<rparr>"

definition tc_SetConnectionManager :: "nat option \<Rightarrow> 'v tconn \<Rightarrow> 'v tconn" where
  "tc_SetConnectionManager m c = c\<lparr>tc_mgr := m\<rparr>"

definition tc_SetUserData :: "bytes \<Rightarrow> 'v \<Rightarrow> 'v tconn \<Rightarrow> 'v tconn" where
  "tc_SetUserData k v c = c\<lparr>tc_user := ud_Set k v (tc_user c)\<rparr>"

definition tc_RemoveUserData :: "bytes \<Rightarrow> 'v tconn \<Rightarrow> 'v tconn" where
  "tc_RemoveUserData k c = c\<lparr>tc_user := ud_Remove k (tc_user c)\<rparr>"

definition tc_UpdateHeartbeat :: "nat \<Rightarrow> 'v tconn \<Rightarrow> 'v tconn" where
  "tc_UpdateHeartbeat now c = c\<lparr>tc_beat := Heartbeat_Update now (tc_beat c)\<rparr>"

definition tc_IsHeartbeatExpired :: "nat \<Rightarrow> nat \<Rightarrow> 'v tconn \<Rightarrow> bool" where
  "tc_IsHeartbeatExpired timeout now c = IsExpired timeout now (tc_beat c)"

declare tc_Flush_loop.simps [simp del] onWriteEvent_loop.simps [simp del]

subsection \<open>Steps\<close>

text \<open>A system call that fails leaves a nonzero \<^verbatim>\<open>errno\<close>.\<close>

definition errno_set :: "net_answers \<Rightarrow> bool" where
  "errno_set an \<longleftrightarrow> (\<forall>fd sa. an_connect an fd sa \<noteq> Inl 0)"

inductive tc_step :: "missing_parts \<Rightarrow> 'v tconn \<Rightarrow> 'v tconn \<Rightarrow> bool" for mp where
  step_connect: "errno_set an \<Longrightarrow> tc_step mp c (fst (ConnectInternal an addr c))"
| step_disconnect: "tc_step mp c (tc_Disconnect mp c)"
| step_close: "tc_step mp c (tc_Close c)"
| step_complete: "tc_step mp c (onConnectComplete an c)"
| step_send: "tc_step mp c (fst (tc_Send mp an r data c))"
| step_receive: "tc_step mp c (fst (tc_Receive mp an len c))"
| step_flush: "tc_step mp c (fst (tc_Flush mp an io c))"
| step_read: "tc_step mp c (onReadEvent mp an c)"
| step_write: "tc_step mp c (onWriteEvent mp an io c)"
| step_clear: "tc_step mp c (tc_ClearBuffers c)"
| step_configure: "tc_step mp c (tc_Configure an cfg c)"
| step_update: "tc_step mp c (tc_UpdateConfig an f c)"
| step_event_cb: "tc_step mp c (on_events (em_SetEventCallback b) c)"
| step_data_cb: "tc_step mp c (on_events (em_SetDataCallback b) c)"
| step_error_cb: "tc_step mp c (on_events (em_SetErrorCallback b) c)"
| step_id: "tc_step mp c (tc_SetConnectionId i c)"
| step_manager: "tc_step mp c (tc_SetConnectionManager m c)"
| step_set: "tc_step mp c (tc_SetUserData k v c)"
| step_remove: "tc_step mp c (tc_RemoveUserData k c)"
| step_beat: "tc_step mp c (tc_UpdateHeartbeat now c)"

inductive tc_reach :: "missing_parts \<Rightarrow> 'v tconn \<Rightarrow> bool" for mp where
  reach_new: "tc_reach mp (tconn_new an rb s)"
| reach_step: "tc_reach mp c \<Longrightarrow> tc_step mp c c' \<Longrightarrow> tc_reach mp c'"

subsection \<open>It never is connected\<close>

lemma on_events_frame [simp]:
  "tc_state (on_events f c) = tc_state c" "tc_sock (on_events f c) = tc_sock c" "tc_queue (on_events f c) = tc_queue c"
  "tc_recv (on_events f c) = tc_recv c" "tc_events (on_events f c) = f (tc_events c)"
  by (simp_all add: on_events_def)

lemma applyConfig_frame [simp]:
  "tc_state (applyConfigToSocket an c) = tc_state c" "tc_events (applyConfigToSocket an c) = tc_events c"
  by (simp_all add: applyConfigToSocket_def)

lemma updateActivity_frame [simp]:
  "tc_state (updateActivity now c) = tc_state c" "tc_events (updateActivity now c) = tc_events c" "tc_recv (updateActivity now c) = tc_recv c"
  by (simp_all add: updateActivity_def)

lemma closeInternal_state [simp]: "tc_state (closeInternal c) = ST_DISCONNECTED"
  by (simp add: closeInternal_def Let_def SetDisconnected_def)

lemma SetConnected_refused [simp]: "SetConnected ST_DISCONNECTED = (ST_DISCONNECTED, False)"
  by (simp add: SetConnected_def)

lemma connected_now_state: "tc_state c = ST_DISCONNECTED \<Longrightarrow> tc_state (connected_now an c) = ST_DISCONNECTED"
  by (simp add: connected_now_def Let_def)

text \<open>\<^verbatim>\<open>Socket::connect\<close> counts a connection in progress as success, so when it fails the error is another one.\<close>

lemma sock_connect_failed:
  assumes "sock_connect conn ntop6 addr s = (s', False)" and "\<forall>fd sa. conn fd sa \<noteq> Inl 0"
  shows "sock_get_error so s' \<noteq> EINPROGRESS"
  using assms
  by (auto simp: sock_connect_def fail_with_def sock_get_error_def split: if_splits option.splits sum.splits)

lemma try_connect_result:
  assumes "errno_set an" and "tc_state c = ST_DISCONNECTED" and "try_connect an addr c = (c', r)"
  shows "tc_state c' = ST_DISCONNECTED \<and>
    (r = None \<and> has_event_cb (tc_events c) \<longrightarrow> last (notices (tc_events c')) = Note_Event EV_CONNECTED)"
proof -
  obtain s ok where s: "sock_connect (an_connect an) (an_ntop6 an) addr (fst (sock_set_nonblocking (an_nonblock an) True (tc_sock c))) = (s, ok)"
    by fastforce
  show ?thesis
  proof (cases ok)
    case True
    then have "c' = connected_now an (c\<lparr>tc_sock := s\<rparr>)" using s assms(3) by (simp add: try_connect_def Let_def)
    moreover have "tc_state (c\<lparr>tc_sock := s\<rparr>) = ST_DISCONNECTED" using assms(2) by simp
    ultimately show ?thesis using connected_now_state
      by (simp add: connected_now_def Let_def NotifyEvent_def RegisterRead_def)
  next
    case False
    then have "sock_get_error (an_so_error an) s \<noteq> EINPROGRESS"
      using sock_connect_failed s assms(1) by (simp add: errno_set_def)
    then show ?thesis using False s assms(2,3) by (auto simp: try_connect_def Let_def)
  qed
qed

lemma ConnectInternal_result:
  assumes "errno_set an" and "tc_state c = ST_DISCONNECTED" and "ConnectInternal an addr c = (c', r)"
  shows "tc_state c' = ST_DISCONNECTED \<and>
    (r = Inr None \<and> has_event_cb (tc_events c) \<longrightarrow> last (notices (tc_events c')) = Note_Event EV_CONNECTED)"
proof (cases "is_valid (tc_sock c)")
  case True
  obtain c1 r1 where t: "try_connect an addr c = (c1, r1)" by fastforce
  then show ?thesis using try_connect_result [OF assms(1,2) t] True assms(2,3) by (auto simp: ConnectInternal_def)
next
  case False
  show ?thesis
  proof (cases "create_socket (an_create an) TCP")
    case (Inr s)
    let ?c = "applyConfigToSocket an (c\<lparr>tc_sock := s\<rparr>)"
    obtain c1 r1 where t: "try_connect an addr ?c = (c1, r1)" by fastforce
    have "tc_state ?c = ST_DISCONNECTED" "has_event_cb (tc_events ?c) = has_event_cb (tc_events c)" using assms(2) by simp_all
    then show ?thesis using try_connect_result [OF assms(1) _ t] t False Inr assms(2,3) by (auto simp: ConnectInternal_def)
  qed (use False assms(2,3) in \<open>auto simp: ConnectInternal_def\<close>)
qed

lemma tc_step_state: "tc_step mp c c' \<Longrightarrow> tc_state c = ST_DISCONNECTED \<Longrightarrow> tc_state c' = ST_DISCONNECTED"
proof (induction rule: tc_step.induct)
  case (step_connect an c addr)
  then show ?case using ConnectInternal_result [of an c addr] by (cases "ConnectInternal an addr c") auto
qed (simp_all add: tc_Disconnect_def tc_Close_def onConnectComplete_def tc_Send_def tc_Receive_def tc_Flush_def onReadEvent_def
    onWriteEvent_def tc_ClearBuffers_def tc_Configure_def tc_UpdateConfig_def tc_SetConnectionId_def tc_SetConnectionManager_def
    tc_SetUserData_def tc_RemoveUserData_def tc_UpdateHeartbeat_def sm_IsConnected_def)

lemma tc_reach_state: "tc_reach mp c \<Longrightarrow> tc_state c = ST_DISCONNECTED"
  by (induction rule: tc_reach.induct) (auto simp: tconn_new_def sm_new_def intro: tc_step_state)

text \<open>C22: A connection of this class is never connected, whatever is called and whatever the system answers. \<^verbatim>\<open>Connect\<close> may report
  success, and then it calls the event callback with \<^verbatim>\<open>CONNECTED\<close>, but the state machine refuses the step from disconnected to
  connected and the branch that would set \<^verbatim>\<open>CONNECTING\<close> is never taken: \<^verbatim>\<open>Send\<close>, \<^verbatim>\<open>Receive\<close> and \<^verbatim>\<open>Flush\<close> are all answered
  with \<^verbatim>\<open>NOT_CONNECTED\<close> and do nothing.\<close>

theorem legacy_never_connected:
  assumes "tc_reach mp c"
  shows "tc_state c = ST_DISCONNECTED \<and>
    tc_Send mp an r data c = (c, Inl (Generic_Error CE_NOT_CONNECTED)) \<and>
    tc_Receive mp an len c = (c, Inl (Generic_Error CE_NOT_CONNECTED)) \<and>
    tc_Flush mp an io c = (c, Some (Generic_Error CE_NOT_CONNECTED)) \<and>
    (errno_set an \<and> has_event_cb (tc_events c) \<and> snd (ConnectInternal an addr c) = Inr None \<longrightarrow>
       last (notices (tc_events (fst (ConnectInternal an addr c)))) = Note_Event EV_CONNECTED)"
proof -
  have st: "tc_state c = ST_DISCONNECTED" using assms by (rule tc_reach_state)
  then show ?thesis using ConnectInternal_result [of an c addr]
    by (cases "ConnectInternal an addr c") (auto simp: tc_Send_def tc_Receive_def tc_Flush_def sm_IsConnected_def)
qed

definition sample_answers :: net_answers where
  "sample_answers = \<lparr>an_create = (\<lambda>a b c. Inr 3), an_nonblock = (\<lambda>fd b. Inr ()), an_setopt = (\<lambda>fd opt v n. Inr ()),
     an_connect = (\<lambda>fd sa. Inl EINPROGRESS), an_recv = (\<lambda>fd n. Inl 11), an_so_error = (\<lambda>fd. Inr 0), an_ntop6 = (\<lambda>x. []), an_now = 0\<rparr>"

definition sample_parts :: missing_parts where
  "sample_parts = \<lparr>set_disconnecting = (\<lambda>s. ST_DISCONNECTING), has_error_state = (\<lambda>s. s = ST_ERROR), record_operation = id\<rparr>"

definition sample_conn :: "unit tconn" where
  "sample_conn = on_events (em_SetEventCallback True)
     (tconn_new sample_answers \<lparr>rbuffer = replicate 8 0, rread_pos = 0, rwrite_pos = 0\<rparr>
       \<lparr>st_type = TCP, sock_fd = 3, sock_connected = False, last_error = 0\<rparr>)"

lemma sample_conn_reach: "tc_reach sample_parts sample_conn"
  unfolding sample_conn_def by (rule reach_step [OF reach_new step_event_cb])

lemma sample_conn_valid: "is_valid (tc_sock sample_conn)" "sock_fd (tc_sock sample_conn) = 3" "has_event_cb (tc_events sample_conn)"
  by (simp_all add: sample_conn_def tconn_new_def applyConfigToSocket_def sock_set_options_def is_valid_def sample_answers_def
      fail_with_def Let_def em_SetEventCallback_def)

theorem legacy_never_connected_witness:
  "last (notices (tc_events (fst (ConnectInternal sample_answers (addr_of_port 80) sample_conn)))) = Note_Event EV_CONNECTED"
proof -
  have "tc_state sample_conn = ST_DISCONNECTED" by (rule tc_reach_state [OF sample_conn_reach])
  moreover have "netaddress_to_sockaddr_in (an_ntop6 sample_answers) (addr_of_port 80) \<noteq> None"
    by (simp add: netaddress_to_sockaddr_in_def addr_of_port_def ntop4_def INADDR_ANY_def nat_digits.simps str_simps Let_def)
  then obtain sa where "netaddress_to_sockaddr_in (an_ntop6 sample_answers) (addr_of_port 80) = Some sa" by blast
  moreover have "an_nonblock sample_answers = (\<lambda>fd b. Inr ())" "an_connect sample_answers = (\<lambda>fd sa. Inl EINPROGRESS)"
    by (simp_all add: sample_answers_def)
  ultimately have "snd (ConnectInternal sample_answers (addr_of_port 80) sample_conn) = Inr None"
    using sample_conn_valid(1)
    by (simp add: ConnectInternal_def try_connect_def sock_connect_def sock_set_nonblocking_def io_bool_def is_valid_def fail_with_def
        Let_def)
  then show ?thesis
    using legacy_never_connected [OF sample_conn_reach, of sample_answers _ _ _ _ "addr_of_port 80"] sample_conn_valid
    by (simp add: errno_set_def sample_answers_def)
qed

subsection \<open>If it were connected\<close>

text \<open>The end of the stream is announced twice, and received data are replaced by the bytes that follow them in the buffer.\<close>

lemma closeInternal_notice:
  "has_event_cb (tc_events c) \<Longrightarrow> notices (tc_events (closeInternal c)) = notices (tc_events c) @ [Note_Event EV_DISCONNECTED] \<and>
   has_event_cb (tc_events (closeInternal c))"
  by (simp add: closeInternal_def Let_def NotifyEvent_def Unregister_def)

lemma read_end_notified_twice:
  assumes "tc_state c = ST_CONNECTED" and "is_valid (tc_sock c)" and "has_event_cb (tc_events c)"
    and "rb_GetReceiveBuffer (tc_recv c) = (rb, pos, room)" and "0 < room" and "an_recv an (sock_fd (tc_sock c)) room = Inr []"
  shows "notices (tc_events (onReadEvent mp an c)) = notices (tc_events c) @ [Note_Event EV_DISCONNECTED, Note_Event EV_DISCONNECTED]"
  using assms closeInternal_notice [of "c\<lparr>tc_recv := rb, tc_sock := (tc_sock c)\<lparr>last_error := 0\<rparr>\<rparr>"]
  by (simp add: onReadEvent_def sm_IsConnected_def sock_recv_def io_value_def Let_def NotifyEvent_def)

lemma read_delivers_following_bytes:
  assumes "tc_state c = ST_CONNECTED" and "is_valid (tc_sock c)" and "has_data_cb (tc_events c)" and "d \<noteq> []" and "length d < n"
    and "tc_recv c = \<lparr>rbuffer = replicate n 0, rread_pos = 0, rwrite_pos = 0\<rparr>" and "an_recv an (sock_fd (tc_sock c)) n = Inr d"
  shows "last (notices (tc_events (onReadEvent mp an c))) = Note_Data (take (length d) (replicate (n - length d) 0))"
proof -
  have "splice (replicate n 0) 0 d = d @ replicate (n - length d) 0" using assms(5) by (simp add: splice_def)
  then show ?thesis using assms
    by (auto simp: onReadEvent_def sm_IsConnected_def sock_recv_def io_value_def rb_GetReceiveBuffer_def rb_CommitReceive_def
        rb_GetReceiveBufferSize_def count_received_def NotifyData_def Let_def)
qed

end
