(* ===== verification/Async_Batch.thy ===== *)
theory Async_Batch
  imports Scheduler
begin

section \<open>Operations on the scheduler (\<^verbatim>\<open>async_utils.cpp\<close>, \<^verbatim>\<open>async_factory.cpp\<close>)\<close>

text \<open>
  The functions of \<^verbatim>\<open>ConnectionOperations\<close> hand a task to the scheduler and return its future; the value the task computes is
  one definition each. \<^verbatim>\<open>SendBatchAsync\<close> schedules one task per message and then a task that waits for all their futures, inside
  a worker thread. \<open>batch_step\<close> are the interleavings of clients that do so with the workers: a task that waits can end only when the
  tasks it waits for have ended.
\<close>

definition CreateDefaultScheduler :: "nat \<Rightarrow> nat \<Rightarrow> scheduler" where
  "CreateDefaultScheduler hardware_concurrency thread_count =
     (let n = (if thread_count = 0 then (if hardware_concurrency = 0 then 1 else hardware_concurrency) else thread_count)
      in sched_Start (scheduler_new hardware_concurrency n))"

definition CreateScheduler :: "nat \<Rightarrow> nat \<Rightarrow> scheduler" where
  "CreateScheduler hardware_concurrency thread_count = sched_Start (CreateDefaultScheduler hardware_concurrency thread_count)"

text \<open>\<open>None\<close> is a null pointer.\<close>

definition CreateConnectionOps :: "nat \<Rightarrow> scheduler option \<Rightarrow> scheduler" where
  "CreateConnectionOps hw s = (case s of None \<Rightarrow> CreateDefaultScheduler hw 0 | Some s \<Rightarrow> s)"

definition CreateDefaultConnectionOps :: "nat \<Rightarrow> scheduler" where
  "CreateDefaultConnectionOps hw = CreateConnectionOps hw (Some (CreateScheduler hw 0))"

definition send_value :: "bytes \<Rightarrow> nat" where
  "send_value data = length data"

definition receive_value :: "nat \<Rightarrow> bytes" where
  "receive_value max_size = replicate max_size 65"

definition receive_into_value :: "bytes \<Rightarrow> nat \<Rightarrow> bytes \<times> nat" where
  "receive_into_value buffer size_given = (splice buffer 0 (replicate size_given 65), size_given)"

definition connect_value :: "bytes \<Rightarrow> u16 \<Rightarrow> bool" where
  "connect_value host port = True"

definition batch_value :: "bytes list \<Rightarrow> nat list" where
  "batch_value data_list = map send_value data_list"

text \<open>Tasks are numbered as they are created: \<open>n\<close> sends, then the task that waits for them.\<close>

record batcher =
  pool :: scheduler
  next_task :: nat
  awaits :: "nat \<Rightarrow> nat list"
  clients :: "nat list list"

definition batcher_new :: "scheduler \<Rightarrow> batcher" where
  "batcher_new s = \<lparr>pool = s, next_task = 0, awaits = (\<lambda>t. []), clients = []\<rparr>"

definition SendBatchAsync :: "nat \<Rightarrow> batcher \<Rightarrow> batcher" where
  "SendBatchAsync n b =
     (let k = next_task b
      in b\<lparr>next_task := k + n + 1, awaits := (awaits b)(k + n := [k..<k + n]), clients := clients b @ [[k..<k + n] @ [k + n]]\<rparr>)"

definition submit_next :: "nat \<Rightarrow> batcher \<Rightarrow> batcher" where
  "submit_next i b =
     (case clients b ! i of
        [] \<Rightarrow> b
      | t # ts \<Rightarrow> b\<lparr>pool := ScheduleTask t (pool b), clients := (clients b)[i := ts]\<rparr>)"

definition can_end :: "batcher \<Rightarrow> nat \<Rightarrow> bool" where
  "can_end b t \<longleftrightarrow> set (awaits b t) \<subseteq> set (finished (pool b))"

text \<open>Steps that neither queue nor start nor end a task: starting the pool, pausing, resizing, workers leaving.\<close>

inductive control_step :: "scheduler \<Rightarrow> scheduler \<Rightarrow> bool" where
  "control_step s (sched_Start s)"
| "control_step s (Stop_begin s)"
| "control_step s (Pause s)"
| "control_step s (Resume s)"
| "control_step s (SetMaxConcurrent n s)"
| "control_step s (SetThreadPoolSize n s)"
| "worker_exit s = Some s' \<Longrightarrow> control_step s s'"

inductive batch_step :: "batcher \<Rightarrow> batcher \<Rightarrow> bool" where
  batch_begin: "batch_step b (SendBatchAsync n b)"
| batch_submit: "i < length (clients b) \<Longrightarrow> batch_step b (submit_next i b)"
| batch_take: "worker_take (pool b) = Some s \<Longrightarrow> batch_step b (b\<lparr>pool := s\<rparr>)"
| batch_finish: "t \<in> set (running (pool b)) \<Longrightarrow> can_end b t \<Longrightarrow> batch_step b (b\<lparr>pool := worker_finish t ok (pool b)\<rparr>)"
| batch_control: "control_step (pool b) s \<Longrightarrow> batch_step b (b\<lparr>pool := s\<rparr>)"

lemma CreateScheduler_eq: "CreateScheduler hw n = CreateDefaultScheduler hw n"
  by (simp add: CreateScheduler_def CreateDefaultScheduler_def sched_Start_def scheduler_new_def Let_def)

subsection \<open>Waiting tasks come after the tasks they wait for\<close>

fun deps_in :: "(nat \<Rightarrow> nat list) \<Rightarrow> nat set \<Rightarrow> nat list \<Rightarrow> bool" where
  "deps_in w S [] \<longleftrightarrow> True"
| "deps_in w S (t # ts) \<longleftrightarrow> set (w t) \<subseteq> S \<and> deps_in w (insert t S) ts"

lemma deps_in_append: "deps_in w S (xs @ ys) \<longleftrightarrow> deps_in w S xs \<and> deps_in w (S \<union> set xs) ys"
  by (induction xs arbitrary: S) (auto simp: insert_commute)

lemma deps_in_mono: "deps_in w S xs \<Longrightarrow> S \<subseteq> T \<Longrightarrow> deps_in w T xs"
  by (induction xs arbitrary: S T) (auto, blast)

lemma deps_in_upd [simp]: "t \<notin> set xs \<Longrightarrow> deps_in (w(t := ds)) S xs = deps_in w S xs"
  by (induction xs arbitrary: S) auto

lemma deps_in_free: "\<forall>t \<in> set xs. w t = [] \<Longrightarrow> deps_in w S xs"
  by (induction xs arbitrary: S) auto

definition batch_inv :: "batcher \<Rightarrow> bool" where
  "batch_inv b \<longleftrightarrow> sched_inv (pool b) \<and> deps_in (awaits b) {} (submitted (pool b)) \<and>
     (\<forall>c \<in> set (clients b). deps_in (awaits b) (set (submitted (pool b))) c) \<and>
     (\<forall>t \<in> set (submitted (pool b)) \<union> \<Union> (set ` set (clients b)). t < next_task b) \<and>
     (\<forall>t \<ge> next_task b. awaits b t = [])"

lemma control_frame:
  "control_step s s' \<Longrightarrow> submitted s' = submitted s \<and> started s' = started s \<and> running s' = running s \<and> finished s' = finished s \<and>
     (sched_inv s \<longrightarrow> sched_inv s')"
  by (induction rule: control_step.induct) (auto simp: sched_inv_def sched_defs worker_exit_def split: if_splits)

lemma batch_inv_begin:
  assumes "batch_inv b"
  shows "batch_inv (SendBatchAsync n b)"
proof -
  let ?k = "next_task b" and ?w = "(awaits b)(next_task b + n := [next_task b..<next_task b + n])"
  let ?S = "submitted (pool b)"
  have small: "t < ?k" if "t \<in> set ?S \<or> t \<in> set c \<and> c \<in> set (clients b)" for t c
    using assms that unfolding batch_inv_def by blast
  have new: "?k + n \<notin> set ?S" "\<forall>c \<in> set (clients b). ?k + n \<notin> set c" "\<forall>t \<ge> ?k. awaits b t = []"
    using small [of "?k + n"] assms by (auto simp: batch_inv_def)
  have "deps_in ?w {} ?S" using new(1) assms by (simp add: batch_inv_def)
  moreover have "\<forall>c \<in> set (clients b). deps_in ?w (set ?S) c" using new(2) assms by (simp add: batch_inv_def)
  moreover have "deps_in ?w (set ?S) [?k..<?k + n]" using new(3) by (intro deps_in_free) simp
  then have "deps_in ?w (set ?S) ([?k..<?k + n] @ [?k + n])" by (simp add: deps_in_append)
  moreover have "\<forall>t \<in> set ?S \<union> \<Union> (set ` set (clients b @ [[?k..<?k + n] @ [?k + n]])). t < ?k + n + 1"
    using small by (auto intro: trans_less_add1 less_SucI)
  ultimately show ?thesis using assms new(3) by (simp add: batch_inv_def SendBatchAsync_def Let_def)
qed

lemma batch_inv_submit:
  assumes "batch_inv b" and "i < length (clients b)"
  shows "batch_inv (submit_next i b)"
proof (cases "clients b ! i")
  case (Cons t ts)
  have c: "clients b ! i \<in> set (clients b)" using assms(2) by simp
  then have d: "deps_in (awaits b) (set (submitted (pool b))) (t # ts)"
    using assms(1) unfolding batch_inv_def Cons by blast
  have sub: "set ((clients b)[i := ts]) \<subseteq> insert ts (set (clients b))" by (rule set_update_subset_insert)
  have "sched_inv (ScheduleTask t (pool b))" using assms(1) by (simp add: batch_inv_def sched_inv_def sched_defs)
  moreover have "deps_in (awaits b) {} (submitted (pool b) @ [t])" using d assms(1) by (simp add: batch_inv_def deps_in_append)
  moreover have "\<forall>c \<in> set ((clients b)[i := ts]). deps_in (awaits b) (insert t (set (submitted (pool b)))) c"
    using sub d assms(1) deps_in_mono [of "awaits b" "set (submitted (pool b))" _ "insert t (set (submitted (pool b)))"]
    by (fastforce simp: batch_inv_def)
  moreover have "\<forall>x \<in> insert t (set (submitted (pool b))) \<union> \<Union> (set ` set ((clients b)[i := ts])). x < next_task b"
    using sub c Cons assms(1) by (fastforce simp: batch_inv_def)
  ultimately show ?thesis using assms(1) Cons by (simp add: batch_inv_def submit_next_def ScheduleTask_def enqueue_def)
qed (use assms in \<open>simp add: submit_next_def\<close>)

lemma batch_step_inv: "batch_step b b' \<Longrightarrow> batch_inv b \<Longrightarrow> batch_inv b'"
proof (induction rule: batch_step.induct)
  case (batch_begin b n)
  then show ?case by (rule batch_inv_begin)
next
  case (batch_submit i b)
  then show ?case using batch_inv_submit by blast
next
  case (batch_take b s)
  then have "submitted s = submitted (pool b)" by (auto dest!: worker_takeD)
  moreover have "sched_inv s" using batch_take sched_inv_step [OF step_take _ timer_fire_inv(1)] by (auto simp: batch_inv_def)
  ultimately show ?case using batch_take by (simp add: batch_inv_def)
next
  case (batch_finish t b ok)
  then have "sched_inv (worker_finish t ok (pool b))"
    using sched_inv_step [OF step_finish _ timer_fire_inv(1)] by (auto simp: batch_inv_def)
  then show ?case using batch_finish by (simp add: batch_inv_def worker_finish_def)
next
  case (batch_control b s)
  then show ?case using control_frame by (simp add: batch_inv_def)
qed

text \<open>The first task started that has not ended waits only for tasks that have.\<close>

lemma first_unfinished:
  assumes "deps_in w {} (started s @ ts)" and "mset (started s) = mset (running s) + mset (finished s)" and "running s \<noteq> []"
  shows "\<exists>t \<in> set (running s). set (w t) \<subseteq> set (finished s)"
proof (cases "set (started s) \<subseteq> set (finished s)")
  case True
  have "deps_in w {} xs \<Longrightarrow> t \<in> set xs \<Longrightarrow> set (w t) \<subseteq> set xs" for xs t
    by (induction xs rule: rev_induct) (auto simp: deps_in_append)
  moreover have "hd (running s) \<in> set (started s)"
    using assms(2,3) by (metis UnI1 hd_in_set set_mset_mset set_mset_union)
  moreover have "deps_in w {} (started s)" using assms(1) by (simp add: deps_in_append)
  ultimately have "set (w (hd (running s))) \<subseteq> set (finished s)" using True by blast
  then show ?thesis using assms(3) hd_in_set by blast
next
  case False
  then obtain xs t ys where split: "started s = xs @ t # ys" "t \<notin> set (finished s)" "set xs \<subseteq> set (finished s)"
    using split_list_first_prop [of "started s" "\<lambda>t. t \<notin> set (finished s)"] by blast
  have "t \<in> set (started s)" using split(1) by simp
  then have "t \<in> set (running s)" using assms(2) split(2) by (metis Un_iff set_mset_mset set_mset_union)
  moreover have "set (w t) \<subseteq> set xs" using assms(1) split(1) by (simp add: deps_in_append)
  ultimately show ?thesis using split(3) by blast
qed

text \<open>C23: Waiting inside a worker cannot block the pool. In every state that any interleaving of batch senders with the workers of
  a freshly created pool can reach, however few workers there are, some task in execution can end if any is in
  execution: the tasks a batch waits for were queued, and so started, before it.\<close>

theorem batch_no_deadlock:
  assumes "batch_step\<^sup>*\<^sup>* (batcher_new (CreateScheduler hw n)) b" and "running (pool b) \<noteq> []"
  shows "\<exists>t \<in> set (running (pool b)). can_end b t"
proof -
  have "batch_inv (batcher_new (CreateScheduler hw n))"
    by (simp add: batch_inv_def batcher_new_def CreateScheduler_eq CreateDefaultScheduler_def sched_Start_def scheduler_new_def
        sched_inv_def Let_def)
  with assms(1) have "batch_inv b" by (induction rule: rtranclp_induct) (auto intro: batch_step_inv)
  then have "deps_in (awaits b) {} (started (pool b) @ tasks (pool b))"
    "mset (started (pool b)) = mset (running (pool b)) + mset (finished (pool b))"
    by (auto simp: batch_inv_def sched_inv_def)
  from first_unfinished [OF this assms(2)] show ?thesis by (simp add: can_end_def)
qed

text \<open>One worker, a batch of one message: the worker takes the send, ends it, and takes the task that waits.\<close>

definition queued_batch :: batcher where
  "queued_batch = submit_next 0 (submit_next 0 (SendBatchAsync 1 (batcher_new (CreateScheduler 8 1))))"

definition sending_batch :: batcher where
  "sending_batch = queued_batch\<lparr>pool := the (worker_take (pool queued_batch))\<rparr>"

lemmas batch_eval = sending_batch_def queued_batch_def submit_next_def SendBatchAsync_def batcher_new_def CreateScheduler_eq
  CreateDefaultScheduler_def sched_Start_def scheduler_new_def ScheduleTask_def enqueue_def worker_take_def worker_wait_def Let_def

lemma sending_batch_reached: "batch_step\<^sup>*\<^sup>* (batcher_new (CreateScheduler 8 1)) sending_batch"
proof -
  let ?b = "batcher_new (CreateScheduler 8 1)" and ?b1 = "SendBatchAsync 1 (batcher_new (CreateScheduler 8 1))"
  have "batch_step ?b ?b1" by (rule batch_begin)
  moreover have "batch_step ?b1 (submit_next 0 ?b1)" by (rule batch_submit) (simp add: batch_eval)
  moreover have "batch_step (submit_next 0 ?b1) queued_batch"
    unfolding queued_batch_def by (rule batch_submit) (simp add: batch_eval)
  moreover have "batch_step queued_batch sending_batch"
    unfolding sending_batch_def by (rule batch_take) (simp add: batch_eval)
  ultimately show ?thesis by (meson converse_rtranclp_into_rtranclp rtranclp.rtrancl_refl)
qed

theorem batch_no_deadlock_witness: "\<exists>t \<in> set (running (pool sending_batch)). can_end sending_batch t"
  using batch_no_deadlock [OF sending_batch_reached] by (simp add: batch_eval)

end
