(* ===== verification/Db_Schema.thy ===== *)
theory Db_Schema
  imports Speed_Records
begin

section \<open>Opening the database (\<^verbatim>\<open>Database::init\<close>)\<close>

text \<open>
  The tables of the file as lists of column names. \<^verbatim>\<open>init\<close> opens the file, adds four columns that older files lack, ignoring errors, and
  creates the tables that do not exist. \<open>opens\<close> and \<open>runs\<close> say whether SQLite opens the file and executes the statements, by
  number; adding a column to a missing table, or one that is there, is an error of the statement and changes nothing.
\<close>

datatype db_table = Records_Table | Devices_Table

type_synonym schema = "db_table \<Rightarrow> string list option"

definition record_columns :: "string list" where
  "record_columns = [''id'', ''device_id'', ''device_name'', ''speed_mbps'', ''upload_speed_mbps'', ''latency_ms'', ''jitter_ms'',
     ''packet_loss'', ''total_bytes'', ''test_duration'', ''created_at'']"

definition device_columns :: "string list" where
  "device_columns = [''id'', ''device_id'', ''device_name'', ''user_agent'', ''first_seen'', ''last_seen'', ''total_tests'',
     ''avg_speed'', ''avg_latency'', ''avg_packet_loss'']"

definition executeSQL :: "bool \<Rightarrow> (schema \<Rightarrow> schema) \<Rightarrow> schema \<Rightarrow> schema \<times> bool" where
  "executeSQL ok f d = (if ok then (f d, True) else (d, False))"

definition create_if_missing :: "db_table \<Rightarrow> string list \<Rightarrow> schema \<Rightarrow> schema" where
  "create_if_missing t cs d = (if d t = None then d(t \<mapsto> cs) else d)"

definition add_column :: "db_table \<Rightarrow> string \<Rightarrow> schema \<Rightarrow> schema" where
  "add_column t c d =
     (case d t of None \<Rightarrow> d | Some cs \<Rightarrow> if c \<in> set cs then d else d(t \<mapsto> cs @ [c]))"

definition create_tables :: "(nat \<Rightarrow> bool) \<Rightarrow> schema \<Rightarrow> schema \<times> bool" where
  "create_tables runs d =
     (case executeSQL (runs 4) (create_if_missing Records_Table record_columns) d of
        (d1, False) \<Rightarrow> (d1, False)
      | (d1, True) \<Rightarrow> executeSQL (runs 5) (create_if_missing Devices_Table device_columns) d1)"

definition alterQueries :: "(nat \<times> db_table \<times> string) list" where
  "alterQueries = [(0, Records_Table, ''upload_speed_mbps''), (1, Records_Table, ''jitter_ms''),
     (2, Devices_Table, ''avg_latency''), (3, Devices_Table, ''avg_packet_loss'')]"

definition db_init :: "bool \<Rightarrow> (nat \<Rightarrow> bool) \<Rightarrow> schema \<Rightarrow> schema \<times> bool" where
  "db_init opens runs d =
     (if \<not> opens then (d, False)
      else create_tables runs (fold (\<lambda>(i, t, c) d. if runs i then add_column t c d else d) alterQueries d))"

text \<open>The columns that the statements of the class name.\<close>

definition insert_columns :: "string list" where
  "insert_columns = [''device_id'', ''device_name'', ''speed_mbps'', ''upload_speed_mbps'', ''latency_ms'', ''jitter_ms'', ''packet_loss'',
     ''total_bytes'', ''test_duration'']"

definition history_columns :: "string list" where
  "history_columns = [''id'', ''device_id'', ''device_name'', ''speed_mbps'', ''upload_speed_mbps'', ''latency_ms'', ''jitter_ms'',
     ''packet_loss'', ''total_bytes'', ''test_duration'', ''created_at'']"

definition upsert_columns :: "string list" where
  "upsert_columns = [''device_id'', ''device_name'', ''total_tests'', ''avg_speed'', ''avg_latency'', ''avg_packet_loss'', ''last_seen'']"

definition devices_columns :: "string list" where
  "devices_columns = [''device_id'', ''device_name'', ''user_agent'', ''first_seen'', ''last_seen'', ''total_tests'', ''avg_speed'',
     ''avg_latency'', ''avg_packet_loss'']"

fun needed :: "db_table \<Rightarrow> string set" where
  "needed Records_Table = set insert_columns \<union> set history_columns"
| "needed Devices_Table = set upsert_columns \<union> set devices_columns"

fun added :: "db_table \<Rightarrow> string set" where
  "added Records_Table = {''upload_speed_mbps'', ''jitter_ms''}"
| "added Devices_Table = {''avg_latency'', ''avg_packet_loss''}"

definition usable :: "schema \<Rightarrow> bool" where
  "usable d \<longleftrightarrow> (\<forall>t. \<exists>cs. d t = Some cs \<and> needed t \<subseteq> set cs)"

subsection \<open>What \<^verbatim>\<open>init\<close> achieves\<close>

definition new_columns :: "db_table \<Rightarrow> string list" where
  "new_columns t = (case t of Records_Table \<Rightarrow> record_columns | Devices_Table \<Rightarrow> device_columns)"

definition with_added :: "db_table \<Rightarrow> string list \<Rightarrow> string list" where
  "with_added t cs = (let f = (\<lambda>c cs. if c \<in> set cs then cs else cs @ [c]) in
     case t of Records_Table \<Rightarrow> f ''jitter_ms'' (f ''upload_speed_mbps'' cs)
     | Devices_Table \<Rightarrow> f ''avg_packet_loss'' (f ''avg_latency'' cs))"

lemma with_added_set: "set (with_added t cs) = set cs \<union> added t"
  by (cases t) (auto simp: with_added_def Let_def)

lemma db_init_eq:
  assumes "\<forall>i. runs i"
  shows "db_init True runs d = (\<lambda>t. Some (case d t of None \<Rightarrow> new_columns t | Some cs \<Rightarrow> with_added t cs), True)"
proof -
  have "fst (db_init True runs d) t = Some (case d t of None \<Rightarrow> new_columns t | Some cs \<Rightarrow> with_added t cs)" for t
    using assms by (cases t) (auto simp: db_init_def alterQueries_def create_tables_def executeSQL_def add_column_def
        create_if_missing_def new_columns_def with_added_def Let_def split: option.splits)
  moreover have "snd (db_init True runs d)" using assms by (simp add: db_init_def create_tables_def executeSQL_def)
  ultimately show ?thesis by (intro prod_eqI) auto
qed

lemma new_columns_enough: "needed t \<subseteq> set (new_columns t)"
  by (cases t) (simp_all add: new_columns_def insert_columns_def history_columns_def upsert_columns_def devices_columns_def
      record_columns_def device_columns_def)


text \<open>A file of an older version: its tables lack the four columns.\<close>

definition old_schema :: schema where
  "old_schema t = Some (filter (\<lambda>c. c \<notin> added t) (new_columns t))"


end
