(* ===== verification/Buffer_Facade.thy ===== *)
theory Buffer_Facade
  imports Memory_Pool Connection_Buffer
begin

section \<open>The buffer manager (\<^verbatim>\<open>src/core/Buffer/buffer_manager.cpp\<close>)\<close>

text \<open>
  \<^verbatim>\<open>DefaultBufferManager\<close> holds a pool, a factory with a pool of its own, and an operator. Requests for buffers go to the factory, the
  administration of memory to the other pool. Here the pool of \<open>Memory_Pool\<close> decides whether the functions of
  \<open>Connection_Buffer\<close> get memory; a buffer comes with its address, which the destructor gives back. \<open>raw\<close> is the address \<^verbatim>\<open>operator new\<close>
  returns and \<open>junk\<close> what the memory held.
\<close>

record buffer_manager =
  own_pool :: pool
  factory_pool :: pool

definition bm_new :: buffer_manager where
  "bm_new = \<lparr>own_pool = pool_new, factory_pool = pool_new\<rparr>"

definition take_memory :: "u64 \<Rightarrow> nat \<Rightarrow> u64 \<Rightarrow> buffer_manager \<Rightarrow> buffer_manager \<times> u64 option" where
  "take_memory raw n alignment m =
     (if n = 0 then (m, None)
      else case AllocateBytesAligned raw (of_nat n) alignment (factory_pool m) of (p, r) \<Rightarrow> (m\<lparr>factory_pool := p\<rparr>, r))"

definition with_address :: "u64 option \<Rightarrow> (bool \<Rightarrow> buf option) \<Rightarrow> (u64 \<times> buf) option" where
  "with_address r f = (case r of None \<Rightarrow> None | Some ptr \<Rightarrow> map_option (Pair ptr) (f True))"

definition bm_AllocateAligned ::
  "u64 \<Rightarrow> bytes \<Rightarrow> nat \<Rightarrow> u64 \<Rightarrow> buffer_manager \<Rightarrow> buffer_manager \<times> (u64 \<times> buf) option" where
  "bm_AllocateAligned raw junk n alignment m =
     (case take_memory raw n alignment m of (m', r) \<Rightarrow> (m', with_address r (\<lambda>alloc. CreateBuffer alloc junk n)))"

definition bm_Allocate :: "u64 \<Rightarrow> bytes \<Rightarrow> nat \<Rightarrow> buffer_manager \<Rightarrow> buffer_manager \<times> (u64 \<times> buf) option" where
  "bm_Allocate raw junk n m = bm_AllocateAligned raw junk n max_align m"

definition bm_CloneBuffer :: "u64 \<Rightarrow> bytes \<Rightarrow> bytes \<Rightarrow> buffer_manager \<Rightarrow> buffer_manager \<times> (u64 \<times> buf) option" where
  "bm_CloneBuffer raw junk view m =
     (case take_memory raw (length view) max_align m of (m', r) \<Rightarrow> (m', with_address r (\<lambda>alloc. CloneBuffer alloc junk view)))"

definition bm_ReturnBuffer :: "u64 \<Rightarrow> buffer_manager \<Rightarrow> buffer_manager" where
  "bm_ReturnBuffer ptr m = m\<lparr>factory_pool := DeallocateBytes ptr (factory_pool m)\<rparr>"

definition bm_AppendBuffer :: "buf \<Rightarrow> bytes \<Rightarrow> buf \<times> bool" where
  "bm_AppendBuffer dest src = Append dest src"

definition bm_PrependBuffer :: "buf \<Rightarrow> bytes \<Rightarrow> buf \<times> bool" where
  "bm_PrependBuffer dest src = Prepend dest src"

definition bm_MergeBuffers :: "u64 \<Rightarrow> bytes \<Rightarrow> bytes list \<Rightarrow> buffer_manager \<Rightarrow> buffer_manager \<times> (u64 \<times> buf) option" where
  "bm_MergeBuffers raw junk views m =
     (case take_memory raw (sum_list (map length views)) max_align m of
        (m', r) \<Rightarrow> (m', with_address r (\<lambda>alloc. Merge alloc junk views)))"

definition bm_SplitBuffer :: "u64 \<Rightarrow> bytes \<Rightarrow> buf \<Rightarrow> nat \<Rightarrow> buffer_manager \<Rightarrow> buffer_manager \<times> (u64 \<times> buf) option" where
  "bm_SplitBuffer raw junk src pos m =
     (if bsize src < pos then (m, None)
      else case take_memory raw (bsize src - pos) max_align m of
             (m', r) \<Rightarrow> (m', with_address r (\<lambda>alloc. Split alloc junk src pos)))"

definition bm_SetMaxPoolSize :: "u64 \<Rightarrow> buffer_manager \<Rightarrow> buffer_manager" where
  "bm_SetMaxPoolSize n m = m\<lparr>own_pool := SetMaxPoolSize n (own_pool m)\<rparr>"

definition bm_SetPreAllocation :: "(nat \<Rightarrow> u64) \<Rightarrow> bool \<Rightarrow> buffer_manager \<Rightarrow> buffer_manager" where
  "bm_SetPreAllocation raws enable m = m\<lparr>own_pool := fst (SetPreAllocation raws enable (own_pool m))\<rparr>"

definition bm_ClearPool :: "buffer_manager \<Rightarrow> buffer_manager" where
  "bm_ClearPool m = m\<lparr>own_pool := fst (ClearPool (own_pool m))\<rparr>"

definition bm_GetPoolSize :: "buffer_manager \<Rightarrow> u64" where
  "bm_GetPoolSize m = GetPoolSize (own_pool m)"

definition bm_GetTotalAllocated :: "buffer_manager \<Rightarrow> u64" where
  "bm_GetTotalAllocated m = GetTotalAllocated (own_pool m)"

definition bm_GetStats :: "buffer_manager \<Rightarrow> u64 \<times> u64 \<times> u64 \<times> u64 \<times> u64" where
  "bm_GetStats m = pool_GetStats (own_pool m)"

datatype bm_call =
  Bm_Allocate u64 bytes nat u64
| Bm_Clone u64 bytes bytes
| Bm_Return u64
| Bm_Merge u64 bytes "bytes list"
| Bm_Split u64 bytes buf nat
| Bm_Max u64
| Bm_Pre "nat \<Rightarrow> u64" bool
| Bm_Clear

fun bm_do :: "bm_call \<Rightarrow> buffer_manager \<Rightarrow> buffer_manager" where
  "bm_do (Bm_Allocate raw junk n alignment) m = fst (bm_AllocateAligned raw junk n alignment m)"
| "bm_do (Bm_Clone raw junk view) m = fst (bm_CloneBuffer raw junk view m)"
| "bm_do (Bm_Return ptr) m = bm_ReturnBuffer ptr m"
| "bm_do (Bm_Merge raw junk views) m = fst (bm_MergeBuffers raw junk views m)"
| "bm_do (Bm_Split raw junk src pos) m = fst (bm_SplitBuffer raw junk src pos m)"
| "bm_do (Bm_Max n) m = bm_SetMaxPoolSize n m"
| "bm_do (Bm_Pre raws enable) m = bm_SetPreAllocation raws enable m"
| "bm_do Bm_Clear m = bm_ClearPool m"

fun is_admin :: "bm_call \<Rightarrow> bool" where
  "is_admin (Bm_Max n) = True"
| "is_admin (Bm_Pre raws enable) = True"
| "is_admin Bm_Clear = True"
| "is_admin c = False"

subsection \<open>Two pools that do not know each other\<close>

lemma take_memory_own [simp]: "own_pool (fst (take_memory raw n alignment m)) = own_pool m"
  by (simp add: take_memory_def split: prod.split)

lemma take_memory_factory:
  "factory_pool (fst (take_memory raw n alignment m)) =
     (if n = 0 then factory_pool m else fst (AllocateBytesAligned raw (of_nat n) alignment (factory_pool m)))"
  by (simp add: take_memory_def split: prod.split)

lemmas bm_defs = bm_AllocateAligned_def bm_CloneBuffer_def bm_ReturnBuffer_def bm_MergeBuffers_def bm_SplitBuffer_def
  bm_SetMaxPoolSize_def bm_SetPreAllocation_def bm_ClearPool_def

lemma bm_do_own:
  "\<not> is_admin c \<Longrightarrow> own_pool (bm_do c m) = own_pool m"
  "is_admin c \<Longrightarrow> factory_pool (bm_do c m) = factory_pool m"
  "own_pool m = own_pool m' \<Longrightarrow> own_pool (bm_do c m) = own_pool (bm_do c m')"
  "factory_pool m = factory_pool m' \<Longrightarrow> factory_pool (bm_do c m) = factory_pool (bm_do c m')"
  by (cases c; simp add: bm_defs prod.case_eq_if take_memory_factory)+

lemma bm_run_split:
  "own_pool m = own_pool m1 \<Longrightarrow> factory_pool m = factory_pool m2 \<Longrightarrow>
   own_pool (fold bm_do cs m) = own_pool (fold bm_do (filter is_admin cs) m1) \<and>
   factory_pool (fold bm_do cs m) = factory_pool (fold bm_do (filter (\<lambda>c. \<not> is_admin c) cs) m2)"
proof (induction cs arbitrary: m m1 m2)
  case (Cons c cs)
  show ?case
  proof (cases "is_admin c")
    case True
    then show ?thesis using Cons.IH [of "bm_do c m" "bm_do c m1" m2] Cons.prems bm_do_own(2) [of c m] bm_do_own(3) [of m m1 c] by simp
  next
    case False
    then show ?thesis using Cons.IH [of "bm_do c m" m1 "bm_do c m2"] Cons.prems bm_do_own(1) [of c m] bm_do_own(4) [of m m2 c] by simp
  qed
qed simp

lemma pre_allocate_counts [simp]:
  "total_allocated_bytes (fold pre_allocate_block as p) = total_allocated_bytes p"
  "used_bytes (fold pre_allocate_block as p) = used_bytes p"
  by (induction as arbitrary: p) (simp_all add: pre_allocate_block_def split: prod.split)

lemma admin_counts:
  "\<forall>c \<in> set cs. is_admin c \<Longrightarrow> total_allocated_bytes (own_pool (fold bm_do cs bm_new)) = 0 \<and> used_bytes (own_pool (fold bm_do cs bm_new)) = 0"
proof (induction cs rule: rev_induct)
  case Nil
  show ?case by (simp add: bm_new_def pool_new_def)
next
  case (snoc c cs)
  then show ?case
    by (cases c) (auto simp: bm_defs SetMaxPoolSize_def SetPreAllocation_def ClearPool_def)
qed


subsection \<open>The buffers\<close>

lemma bm_CloneBuffer_data:
  "bm_CloneBuffer raw junk view m = (m', Some (ptr, b)) \<Longrightarrow> buf_data b = view \<and> buf_ok b"
  using CloneBuffer_data [of True junk view b] by (auto simp: bm_CloneBuffer_def with_address_def split: prod.splits option.splits)

lemma bm_MergeBuffers_data:
  "bm_MergeBuffers raw junk views m = (m', Some (ptr, b)) \<Longrightarrow> buf_data b = concat views"
  by (auto simp: bm_MergeBuffers_def with_address_def Merge_def CreateBuffer_def buf_resize_def buf_capacity_def buf_data_def splice_def
      length_concat Let_def split: prod.splits option.splits if_splits)

end
