(* ===== verification/Program.thy ===== *)
theory Program
  imports Http_Server Net_Address Speed_Api Scheduler Db_Schema
begin

section \<open>The program (\<^verbatim>\<open>http_server.cpp\<close>, \<^verbatim>\<open>http_server_example_demo.cpp\<close>)\<close>

text \<open>
  \<^verbatim>\<open>HttpServer\<close> as a whole: the accept loop of \<open>Http_Server\<close>, the protocol handler of \<open>Http_Protocol\<close> with the routes of
  \<open>Speed_Api\<close>, the scheduler, and the address it listens on; and \<^verbatim>\<open>main\<close>, which opens the database, registers the routes and listens. The
  heap of connection objects and what the operating system answers are arguments.
\<close>

record web_server =
  net :: http_server
  handler :: "api_state protocol"
  server_scheduler :: scheduler
  server_host :: bytes
  server_port :: u16
  bound_to :: "sockaddr_in option"

definition hs_new :: "nat \<Rightarrow> (nat \<Rightarrow> tcp) \<Rightarrow> web_server" where
  "hs_new hardware_concurrency heap =
     \<lparr>net = \<lparr>listen_fd = - 1, server_running = False, manager = manager_new heap, callbacks_bound = []\<rparr>,
      handler = Start protocol_new, server_scheduler = sched_Start (scheduler_new hardware_concurrency 0),
      server_host = [], server_port = 0, bound_to = None\<rparr>"

definition hs_Get :: "bytes \<Rightarrow> api_state handler \<Rightarrow> web_server \<Rightarrow> web_server" where
  "hs_Get path h s = s\<lparr>handler := Get path h (handler s)\<rparr>"

definition hs_Post :: "bytes \<Rightarrow> api_state handler \<Rightarrow> web_server \<Rightarrow> web_server" where
  "hs_Post path h s = s\<lparr>handler := Post path h (handler s)\<rparr>"

definition hs_ServeStatic :: "bytes \<Rightarrow> bytes \<Rightarrow> web_server \<Rightarrow> web_server" where
  "hs_ServeStatic url_prefix root_dir s = s\<lparr>handler := ServeStatic url_prefix root_dir (handler s)\<rparr>"

text \<open>The address of the listening socket: what \<^verbatim>\<open>inet_pton\<close> cannot read leaves the zero of \<^verbatim>\<open>memset\<close>.\<close>

definition listen_address :: "bytes \<Rightarrow> u16 \<Rightarrow> sockaddr_in" where
  "listen_address host port =
     \<lparr>sin_family = AF_INET, sin_port = htons port,
      sin_addr = (if host = str ''0.0.0.0'' then INADDR_ANY
                  else case pton4 (c_text host) of Some q \<Rightarrow> q | None \<Rightarrow> (0, 0, 0, 0))\<rparr>"

definition hs_Listen :: "listen_error + int \<Rightarrow> bytes \<Rightarrow> u16 \<Rightarrow> web_server \<Rightarrow> web_server" where
  "hs_Listen answer host port s =
     s\<lparr>server_host := host, server_port := port, net := server_Listen answer (net s),
       bound_to := (case answer of Inr fd \<Rightarrow> Some (listen_address host port) | Inl e \<Rightarrow> bound_to s)\<rparr>"

definition hs_onData ::
  "(bytes \<rightharpoonup> bytes) \<Rightarrow> (string_map \<Rightarrow> string_map) \<Rightarrow> (bytes \<Rightarrow> bytes) \<Rightarrow> send_result \<Rightarrow> nat \<Rightarrow> nat \<Rightarrow> bytes \<Rightarrow>
   api_state protocol \<Rightarrow> api_state \<Rightarrow> api_state on_data_result" where
  "hs_onData files iter sha1 result now conn_id data s w = http_OnData files iter sha1 result now conn_id data s w"

definition hs_Stop :: "web_server \<Rightarrow> web_server" where
  "hs_Stop s = s\<lparr>net := server_Stop (net s), bound_to := (if 0 \<le> listen_fd (net s) then None else bound_to s)\<rparr>"

definition hs_destroy :: "web_server \<Rightarrow> web_server" where
  "hs_destroy s = hs_Stop s"

text \<open>\<^verbatim>\<open>main\<close> up to the point where it waits for a key: the exit code, or the running server.\<close>

definition main ::
  "bool \<Rightarrow> (nat \<Rightarrow> bool) \<Rightarrow> schema \<Rightarrow> nat \<Rightarrow> (nat \<Rightarrow> tcp) \<Rightarrow> api_env \<Rightarrow> (bytes \<rightharpoonup> bytes) \<Rightarrow> listen_error + int \<Rightarrow> database \<Rightarrow>
   int + web_server" where
  "main opens runs sch hw heap env files answer d =
     (if \<not> snd (db_init opens runs sch) then Inl 1
      else let s = hs_new hw heap
           in Inr (hs_Listen answer (str ''0.0.0.0'') 8080 (s\<lparr>handler := RegisterRoutes env files (Some d) (handler s)\<rparr>)))"

text \<open>Data of a connection, in the pieces and at the times the read thread delivers them.\<close>

fun feed ::
  "(bytes \<rightharpoonup> bytes) \<Rightarrow> (string_map \<Rightarrow> string_map) \<Rightarrow> (bytes \<Rightarrow> bytes) \<Rightarrow> send_result \<Rightarrow> nat \<Rightarrow> (nat \<times> bytes) list \<Rightarrow>
   api_state protocol \<Rightarrow> api_state \<Rightarrow> api_state protocol \<times> api_state \<times> http_op list" where
  "feed files iter sha1 result conn_id [] s w = (s, w, [])"
| "feed files iter sha1 result conn_id (c # cs) s w =
     (let r = hs_onData files iter sha1 result (fst c) conn_id (snd c) s w
      in case feed files iter sha1 result conn_id cs (out_state r) (out_world r) of (s', w', ops) \<Rightarrow> (s', w', out_ops r @ ops))"

subsection \<open>One request in pieces\<close>

definition buffered :: "nat \<Rightarrow> 'w protocol \<Rightarrow> bytes" where
  "buffered c s = (case contexts s c of None \<Rightarrow> [] | Some x \<Rightarrow> ctx_buffer x)"

lemma GetContext_buffer [simp]: "ctx_buffer (GetContext c now s) = buffered c s"
  by (simp add: GetContext_def buffered_def context_new_def split: option.split)

text \<open>Equal but for the contexts and the request counter.\<close>

definition alike :: "'w protocol \<Rightarrow> 'w protocol \<Rightarrow> bool" where
  "alike s s' \<longleftrightarrow> protocol.running s' = protocol.running s \<and> max_body_size s' = max_body_size s \<and>
     request_timeout s' = request_timeout s \<and> get_routes s' = get_routes s \<and> post_routes s' = post_routes s \<and>
     put_routes s' = put_routes s \<and> delete_routes s' = delete_routes s \<and> static_configs s' = static_configs s \<and>
     middlewares s' = middlewares s"

lemma alike_refl: "alike s s"
  by (simp add: alike_def)

lemma alike_trans: "alike s t \<Longrightarrow> alike t u \<Longrightarrow> alike s u"
  by (simp add: alike_def)

lemma alike_request:
  assumes "alike s s'"
  shows "HandleRequest files iter s' req w = HandleRequest files iter s req w" "max_body_size s' = max_body_size s"
    "protocol.running s' = protocol.running s"
proof -
  have e: "middlewares s' = middlewares s" "static_configs s' = static_configs s" "\<And>m. routes_for m s' = routes_for m s"
    using assms by (simp_all add: alike_def routes_for_def)
  show "HandleRequest files iter s' req w = HandleRequest files iter s req w" unfolding HandleRequest_def e ..
qed (use assms in \<open>simp_all add: alike_def\<close>)

lemma alike_put: "alike s (put_context c x s)" "alike s (put_context c x (s\<lparr>total_requests := n\<rparr>))"
  by (simp_all add: alike_def put_context_def)

lemma buffered_put [simp]: "buffered c (put_context c x s) = ctx_buffer x"
  by (simp add: buffered_def put_context_def)

text \<open>What \<^verbatim>\<open>OnData\<close> does is the loop over the bytes buffered and received, unless they ask for an upgrade.\<close>

lemma OnData_loop:
  assumes "protocol.running s" and "\<not> wants_upgrade (buffered c s @ data)"
    and "\<And>t. alike s t \<Longrightarrow> request_loop files iter t (buffered c s @ data) w = (ops, w', k, Waiting rest)"
    and "r = hs_onData files iter sha1 result now c data s w"
  shows "out_ops r = ops \<and> out_world r = w' \<and> alike s (out_state r) \<and> buffered c (out_state r) = rest"
proof -
  let ?x = "(GetContext c now s)\<lparr>last_activity := now, ctx_buffer := buffered c s @ data\<rparr>"
  have "r = serve files iter c ?x (put_context c ?x s) w"
    using assms(1,2,4) by (simp add: hs_onData_def http_OnData_def Let_def)
  moreover have "request_loop files iter (put_context c ?x s) (buffered c s @ data) w = (ops, w', k, Waiting rest)"
    using assms(3) alike_put(1) by blast
  moreover have "alike s (put_context c y ((put_context c ?x s)\<lparr>total_requests := n\<rparr>))" for y n
    using alike_trans [OF alike_put(1) alike_put(2)] .
  ultimately show ?thesis by (simp add: serve_def Let_def)
qed

lemma OnData_waits:
  assumes "protocol.running s" and "\<not> wants_upgrade (buffered c s @ data)"
    and "ParseHttpRequest (max_body_size s) (buffered c s @ data) = Incomplete"
    and "r = hs_onData files iter sha1 result now c data s w"
  shows "out_ops r = [] \<and> out_world r = w \<and> alike s (out_state r) \<and> buffered c (out_state r) = buffered c s @ data"
proof (rule OnData_loop [OF assms(1,2) _ assms(4), of "[]" w 0])
  fix t
  assume "alike s t"
  then show "request_loop files iter t (buffered c s @ data) w = ([], w, 0, Waiting (buffered c s @ data))"
    using assms(3) alike_request(2) [of s t] by (intro request_loop_wait) simp
qed

lemma OnData_handles:
  assumes "protocol.running s" and "\<not> wants_upgrade (buffered c s @ data)"
    and "ParseHttpRequest (max_body_size s) (buffered c s @ data) = Decoded (length (buffered c s @ data)) (req, True)"
    and "HandleRequest files iter s req w = (ops, w', None)"
    and "r = hs_onData files iter sha1 result now c data s w"
  shows "out_ops r = ops \<and> out_world r = w' \<and> alike s (out_state r) \<and> buffered c (out_state r) = []"
proof (rule OnData_loop [OF assms(1,2) _ assms(5), of ops w' 1])
  fix t
  assume "alike s t"
  then have "ParseHttpRequest (max_body_size t) (buffered c s @ data) = Decoded (length (buffered c s @ data)) (req, True)"
    "HandleRequest files iter t req w = (ops, w', None)"
    using assms(3,4) alike_request [of s t] by simp_all
  moreover have "request_loop files iter t [] w' = ([], w', 0, Waiting [])" by (subst request_loop.simps) simp
  ultimately show "request_loop files iter t (buffered c s @ data) w = (ops, w', 1, Waiting [])"
    using request_loop_next [of t "buffered c s @ data" _ req True files iter w] by simp
qed

lemma wants_upgrade_prefix: "wants_upgrade a \<Longrightarrow> wants_upgrade (a @ b)"
proof -
  assume w: "wants_upgrade a"
  then obtain e where e: "find_sub (CRLF @ CRLF) a = Some e" by (auto simp: wants_upgrade_def split: option.splits)
  then have "e \<le> length a" using find_sub_Some [OF e] by simp
  then show ?thesis using w e find_sub_append [OF e, of b] by (simp add: wants_upgrade_def)
qed

lemma proper_prefix_incomplete:
  assumes "ParseHttpRequest mx (a @ b) = Decoded (length (a @ b)) x" and "b \<noteq> []"
  shows "ParseHttpRequest mx a = Incomplete"
proof (rule ccontr)
  assume "ParseHttpRequest mx a \<noteq> Incomplete"
  then have "ParseHttpRequest mx a = Decoded (length (a @ b)) x" using ParseHttpRequest_stable assms(1) by metis
  then show False using ParseHttpRequest_consumed [of mx a] assms(2) by fastforce
qed

lemma feed_silence:
  assumes "protocol.running s" and "buffered c s = []" and "concat (map snd cs) = []"
  shows "\<exists>s'. feed files iter sha1 result c cs s w = (s', w, []) \<and> alike s s'"
  using assms
proof (induction cs arbitrary: s)
  case Nil
  then show ?case using alike_refl by simp
next
  case (Cons x cs)
  let ?r = "hs_onData files iter sha1 result (fst x) c (snd x) s w"
  have "snd x = []" using Cons.prems(3) by simp
  moreover have "\<not> wants_upgrade []" "ParseHttpRequest mx [] = Incomplete" for mx
    by (simp_all add: wants_upgrade_def ParseHttpRequest_def CRLF_def)
  ultimately have r: "out_ops ?r = []" "out_world ?r = w" "alike s (out_state ?r)" "buffered c (out_state ?r) = []"
    using OnData_waits [of s c "snd x" ?r files iter sha1 result "fst x" w] Cons.prems(1,2) by auto
  then have "protocol.running (out_state ?r)" using alike_request(3) Cons.prems(1) by blast
  then show ?case using Cons.IH [of "out_state ?r"] Cons.prems(3) r alike_trans by (auto simp: Let_def)
qed

lemma feed_request:
  assumes "protocol.running s" and "buffered c s @ concat (map snd cs) = text" and "buffered c s \<noteq> text"
    and "\<not> wants_upgrade text" and "ParseHttpRequest (max_body_size s) text = Decoded (length text) (req, True)"
    and "HandleRequest files iter s req w = (ops, w', None)"
  shows "\<exists>s'. feed files iter sha1 result c cs s w = (s', w', ops) \<and> alike s s'"
  using assms
proof (induction cs arbitrary: s)
  case (Cons x cs)
  let ?r = "hs_onData files iter sha1 result (fst x) c (snd x) s w"
  let ?b = "buffered c s @ snd x"
  have whole: "?b @ concat (map snd cs) = text" using Cons.prems(2) by simp
  then have up: "\<not> wants_upgrade ?b" using wants_upgrade_prefix Cons.prems(4) by blast
  show ?case
  proof (cases "concat (map snd cs) = []")
    case True
    then have "?b = text" using whole by (metis append_Nil2)
    then have "ParseHttpRequest (max_body_size s) ?b = Decoded (length ?b) (req, True)" using Cons.prems(5) by blast
    from OnData_handles [OF Cons.prems(1) up this Cons.prems(6) refl]
    have r: "out_ops ?r = ops" "out_world ?r = w'" "alike s (out_state ?r)" "buffered c (out_state ?r) = []" by blast+
    have "protocol.running (out_state ?r)" using alike_request(3) [OF r(3)] Cons.prems(1) by blast
    from feed_silence [OF this r(4) True, of files iter sha1 result w'] r
    show ?thesis using alike_trans by (auto simp: Let_def)
  next
    case False
    have "ParseHttpRequest (max_body_size s) ?b = Incomplete"
      using proper_prefix_incomplete [OF _ False] Cons.prems(5) whole by metis
    then have r: "out_ops ?r = []" "out_world ?r = w" "alike s (out_state ?r)" "buffered c (out_state ?r) = ?b"
      using OnData_waits [OF Cons.prems(1) up _ refl] by auto
    have "?b \<noteq> text" using whole False by (metis append_self_conv)
    then show ?thesis
      using Cons.IH [of "out_state ?r"] alike_request [OF r(3)] alike_trans [OF r(3)] r whole Cons.prems by (auto simp: Let_def)
  qed
qed simp

subsection \<open>From the socket to the database\<close>

text \<open>A posted JSON object as text: the request line, headers of which the last but one and before announce the length, the object.\<close>

definition post_text :: "(bytes \<times> bytes) list \<Rightarrow> (bytes \<times> json_value) list \<Rightarrow> bytes" where
  "post_text hs ps = request_text (str ''POST'') (str ''/api/speedtest'') (str ''HTTP/1.1'') hs (json_object ps)"

definition post_headers_ok :: "(bytes \<times> bytes) list \<Rightarrow> (bytes \<times> json_value) list \<Rightarrow> bool" where
  "post_headers_ok hs ps \<longleftrightarrow>
     (let r = headed (str ''POST'') (str ''/api/speedtest'') (str ''HTTP/1.1'') (butlast hs)
      in hs \<noteq> [] \<and> (\<forall>h \<in> set hs. header_ok h) \<and> GetHeader (str ''Content-Length'') r = nat_digits (length (json_object ps)) \<and>
         length (json_object ps) \<le> 10485760 \<and> \<not> contains (GetHeader (str ''Content-Type'') r) form_type \<and>
         GetHeader (str ''Connection'') r \<in> {[], str ''keep-alive''})"

definition posted :: "(bytes \<times> bytes) list \<Rightarrow> (bytes \<times> json_value) list \<Rightarrow> http_request" where
  "posted hs ps = finish_request (json_object ps) (headed (str ''POST'') (str ''/api/speedtest'') (str ''HTTP/1.1'') (butlast hs))"

lemma posted_fields:
  assumes "post_headers_ok hs ps"
  shows "req_method (posted hs ps) = str ''POST''" "req_path (posted hs ps) = str ''/api/speedtest''"
    "req_body (posted hs ps) = json_object ps" "keep_alive (posted hs ps)"
proof -
  have "find_sub [63] (str ''/api/speedtest'') = None" by (rule find_sub_single(2)) (simp add: str_simps)
  then show "req_method (posted hs ps) = str ''POST''" "req_path (posted hs ps) = str ''/api/speedtest''"
    "req_body (posted hs ps) = json_object ps"
    using assms by (simp_all add: posted_def finish_request_def post_headers_ok_def headed_def GetHeader_def json_object_def Let_def)
  show "keep_alive (posted hs ps)"
    using assms by (auto simp: posted_def keep_alive_def GetHeader_def post_headers_ok_def headed_def Let_def)
qed

lemma post_text_parsed:
  assumes "post_headers_ok hs ps"
  shows "ParseHttpRequest 10485760 (post_text hs ps) = Decoded (length (post_text hs ps)) (posted hs ps, True)"
proof -
  let ?n = "length (json_object ps)"
  have t: "token (str ''POST'')" "token (str ''/api/speedtest'')" "token (str ''HTTP/1.1'')"
    by (simp_all add: token_def str_simps is_space_def word_le_nat_alt)
  have "content_length (headed (str ''POST'') (str ''/api/speedtest'') (str ''HTTP/1.1'') (butlast hs)) = Inr ?n"
    using assms stoul_nat_digits [of ?n] by (simp add: content_length_def post_headers_ok_def Let_def)
  from ParseHttpRequest_text [OF t _ _ this, of 10485760 "json_object ps"] assms
  have "ParseHttpRequest 10485760 (post_text hs ps) =
      Decoded (length (request_text (str ''POST'') (str ''/api/speedtest'') (str ''HTTP/1.1'') hs []) + ?n)
        (posted hs ps, keep_alive (posted hs ps))"
    by (simp add: post_text_def posted_def post_headers_ok_def Let_def)
  then show ?thesis using posted_fields(4) [OF assms] by (simp add: post_text_def request_text_def)
qed

lemma main_handler:
  assumes "main opens runs sch hw heap env files answer d = Inr srv"
  shows "protocol.running (handler srv)" "max_body_size (handler srv) = 10485760" "contexts (handler srv) = Map.empty"
    "HandleRequest any_files iter (handler srv) req w = HandleRequest any_files iter (api_server env files d) req w"
proof -
  have h: "handler srv = RegisterRoutes env files (Some d) (Start protocol_new)"
    using assms by (auto simp: main_def hs_Listen_def hs_new_def Let_def split: if_splits)
  show "protocol.running (handler srv)" "max_body_size (handler srv) = 10485760" "contexts (handler srv) = Map.empty"
    unfolding h by (simp_all add: register_defs Start_def)
  have "RegisterRoutes env files (Some d) (Start protocol_new) = Start (api_server env files d)"
    by (simp add: register_defs Start_def)
  then have e: "middlewares (handler srv) = middlewares (api_server env files d)"
    "static_configs (handler srv) = static_configs (api_server env files d)"
    "\<And>m. routes_for m (handler srv) = routes_for m (api_server env files d)"
    unfolding h by (simp_all add: Start_def routes_for_def)
  show "HandleRequest any_files iter (handler srv) req w = HandleRequest any_files iter (api_server env files d) req w"
    unfolding HandleRequest_def e ..
qed


definition sample_post_headers :: "(bytes \<times> bytes) list" where
  "sample_post_headers = [(str ''Content-Length'', str ''31''), (str ''Host'', str ''h'')]"


subsection \<open>Listening\<close>

text \<open>A host that is not an address in dotted form, such as a name, makes the server listen on every interface without a message.\<close>

lemma unreadable_host_listens_everywhere:
  assumes "pton4 (c_text host) = None"
  shows "bound_to (hs_Listen (Inr fd) host port s) = Some (listen_address (str ''0.0.0.0'') port)"
  using assms by (simp add: hs_Listen_def listen_address_def INADDR_ANY_def)

lemma stop_after_listen:
  "0 \<le> fd \<Longrightarrow> bound_to (hs_Stop (hs_Listen (Inr fd) host port s)) = None \<and>
     listen_fd (net (hs_Stop (hs_Listen (Inr fd) host port s))) = - 1 \<and> hs_destroy (hs_Stop s) = hs_Stop s"
  by (simp add: hs_Stop_def hs_Listen_def server_Listen_def createListeningSocket_def server_Stop_def hs_destroy_def)

end
