(* ===== verification/Spec2Isabelle.thy ===== *)
theory Spec2Isabelle
  imports Prelude Js_Number Speedtest_Client Ring_Buffer Stream_Decoder Cpp_String Websocket_Frame
    Websocket_Session Speedtest_Ws_Handler Http_Message Http_Parser Http_Protocol
    Byte_Queue Connection_Buffer Memory_Pool Tcp_Connection Event_Dispatcher Scheduler Async_Operation
    Http_Server Key_Store Connection_Parts Net_Address Net_Socket Net_Poller Speed_Records Json_Value Speed_Api
    Index_Page Page_Server Io_Handler Tcp_Lifecycle Legacy_Connection
    Async_Batch Db_Schema Buffer_Facade Program
    "HOL-Library.Sublist"
begin

text \<open>
  This library is a verification of the C++ speed-test server and its browser client.

  The program. The page (\<^verbatim>\<open>examples/public/index.html\<close>, with its script inline) opens a WebSocket, counts the bytes it receives, shows
  the speed and posts it; \<^verbatim>\<open>examples/public/js/speedtest.js\<close> is a second page script, which that page does not load. The server accepts TCP connections (\<^verbatim>\<open>HttpServer\<close>); each connection (\<^verbatim>\<open>TCPConnection\<close>) has a read
  thread whose bytes go through its event manager to the protocol handler (\<^verbatim>\<open>HttpProtocolHandler\<close>), which parses
  requests, finds a route and sends the response, or upgrades the connection to a WebSocket session
  (\<^verbatim>\<open>WebSocketSession\<close>) for the speed-test endpoint. Underneath are buffers taken from a memory pool, a ring buffer, an
  event dispatcher with worker threads, a task scheduler and promise-based operations; beside them an SQLite database of results with a
  JSON interface and an administration page.

  The theories, with the files under \<^verbatim>\<open>src/\<close> they model and what their lemmas show.
  \<^item> \<open>Prelude\<close>: bytes and words, copying into a block, the last elements of a list.
  \<^item> \<open>Js_Number\<close>, \<open>Speedtest_Client\<close> (\<^verbatim>\<open>speedtest.js\<close>): IEEE doubles as rationals with rounding; the script's
    globals, the page and the sockets as a record; one function per handler; \<open>client_step\<close> is what the browser can do.
    The history is the sliding window of the speeds, byte counts are exact below 2^53, stopping resets the
    script; interval timers accumulate.
  \<^item> \<open>Index_Page\<close>, \<open>Page_Server\<close> (\<^verbatim>\<open>index.html\<close>): the script's variables, elements, sockets, timers and posted records; \<open>index_run\<close> are the
    timed event sequences a browser can produce. Every test is posted once, the window is that of the last two seconds, totals are exact; a
    stale timeout can end a test early, and the server answers every posted record with 404.
  \<^item> \<open>Ring_Buffer\<close> (\<^verbatim>\<open>core/net/buffer.cpp\<close>): the array with two positions, its contents as a list, every member function.
    Writing appends, finding is leftmost, shrinking is safe; growing keeps the contents exactly when the read
    position is zero.
  \<^item> \<open>Stream_Decoder\<close>: the locale of decoders whose answers do not change when more bytes arrive, and the decoding
    loop; interpreted on the frame decoder (\<open>ws\<close>) and on the request parser (\<open>http\<close>).
  \<^item> \<open>Websocket_Frame\<close>, \<open>Websocket_Session\<close>, \<open>Speedtest_Ws_Handler\<close> (\<^verbatim>\<open>application/websocket\<close>): the codec with its three
    length encodings and masking on 64-bit words, base64 and the accept key, the session's frame loop, the endpoint. Decoding
    undoes encoding; a session does not depend on how the stream is cut; the masking key is applied in reverse.
  \<^item> \<open>Cpp_String\<close>: the functions of \<^verbatim>\<open>std::string\<close> and the number conversions the code calls.
  \<^item> \<open>Http_Message\<close>, \<open>Http_Parser\<close>, \<open>Http_Protocol\<close> (\<^verbatim>\<open>application/http\<close>): requests, responses, forms, the two parsers, routes,
    middleware, static files, the request loop of a connection. Forms round-trip, routes match exactly their instances, every
    request gets one response in order; the last header is lost and static files throw.
  \<^item> \<open>Byte_Queue\<close>, \<open>Connection_Buffer\<close> (\<^verbatim>\<open>core/Buffer\<close>, \<^verbatim>\<open>core/Connection/Component/buffer_manager.cpp\<close>): the locale of queues that let
    a client look at the next bytes and consume some, with the flush loop as its client; interpreted on the send
    queue of a connection (\<open>cb\<close>) and the stand-alone queue (\<open>sbq\<close>).
  \<^item> \<open>Memory_Pool\<close> (\<^verbatim>\<open>core/Buffer/memory_pool.cpp\<close>): 64-bit counters, headers and addresses. The pool behaves like a budget that
    nothing returns to.
  \<^item> \<open>Tcp_Connection\<close> (\<^verbatim>\<open>core/Tcp/tcp_connection.cpp\<close>): life cycle, send, flush, receive; the answers of the socket
    are arguments. Bytes stay in order; failures of the queue are not reported.
  \<^item> \<open>Io_Handler\<close>, \<open>Tcp_Lifecycle\<close> (\<^verbatim>\<open>core/net/io_handler.cpp\<close>, \<^verbatim>\<open>tcp_connection.cpp\<close>): the results of system calls; construction, connecting,
    closing, options, the tasks handed to the scheduler and the read thread, with the system calls they make as a log. Only descriptors that are open and its own are
    closed; as long as \<^verbatim>\<open>Disconnect\<close> is not called the object's descriptor is the only one it has open, and connecting again after it leaks one.
  \<^item> \<open>Legacy_Connection\<close> (\<^verbatim>\<open>core/Connection/connection.cpp\<close>): the second implementation of connections, made of the parts of \<open>Net_Socket\<close>, \<open>Connection_Buffer\<close> and \<open>Connection_Parts\<close>. No
    sequence of its operations reaches the connected state.
  \<^item> \<open>Event_Dispatcher\<close> (\<^verbatim>\<open>core/Event\<close>): closures as data; asynchronous dispatch refines synchronous dispatch.
  \<^item> \<open>Scheduler\<close>, \<open>Async_Operation\<close> (\<^verbatim>\<open>core/Async\<close>): the thread pool as a step relation over critical sections; tasks run
    exactly once in order; an operation is settled by the first outcome.
  \<^item> \<open>Async_Batch\<close> (\<^verbatim>\<open>async_utils.cpp\<close>, \<^verbatim>\<open>async_factory.cpp\<close>): the operations handed to the scheduler; tasks that wait inside a worker for the tasks of a batch. Workers
    that take tasks in order are never all blocked.
  \<^item> \<open>Buffer_Facade\<close> (\<^verbatim>\<open>core/Buffer/buffer_manager.cpp\<close>): the manager with its two pools, buffers with their addresses; what one pool grants does not touch the other.
  \<^item> \<open>Http_Server\<close> (\<^verbatim>\<open>core/Connection/connection_manager.cpp\<close>, \<^verbatim>\<open>application/http/http_server.cpp\<close>): the table of connections
    as a map from ids to shared objects, the accept loop, the ids it gives out.
  \<^item> \<open>Key_Store\<close>, \<open>Connection_Parts\<close> (\<^verbatim>\<open>core/Connection/Component\<close>): the locale of tables read by key, whose client lemma says that the
    latest change counts; interpreted on user data (\<open>ud\<close>, \<open>tud\<close>) and on the poller's contexts (\<open>ctx\<close>). The state machine is connected
    exactly after an accepted attempt that succeeded; counters are sums modulo 2^64.
  \<^item> \<open>Net_Address\<close>, \<open>Net_Socket\<close>, \<open>Net_Poller\<close> (\<^verbatim>\<open>core/net\<close>): addresses in network order, printed and read back; socket objects that
    own descriptors, with construction, move, close and destruction as steps; event masks and contexts. Each open descriptor
    has one owner; options cannot be set; ports wrap.
  \<^item> \<open>Speed_Records\<close> (\<^verbatim>\<open>infrastructure/database.cpp\<close>): the two tables as lists of records, the SQL statements as
    functions. The tables keep their types, the history comes back newest first, counts are exact, averages forget the first test.
  \<^item> \<open>Db_Schema\<close> (\<^verbatim>\<open>Database::init\<close>): the columns of the tables; opening keeps what is there, and afterwards the statements find the columns they name
    exactly when the file lacked no others than the four that opening adds.
  \<^item> \<open>Json_Value\<close>, \<open>Speed_Api\<close> (\<^verbatim>\<open>application/http/handler\<close>, \<^verbatim>\<open>http_route_config.cpp\<close>): the search for JSON values against flat
    objects, the handlers of the interface and the administration page on the routes of \<open>Http_Protocol\<close> and the tables of \<open>Speed_Records\<close>. A posted
    object is stored with its fields and heads the history.
  \<^item> \<open>Program\<close> (\<^verbatim>\<open>application/http/http_server.cpp\<close>, \<^verbatim>\<open>examples/http_server_example_demo.cpp\<close>): the server object and the main program, composed of the theories above. The bytes of
    a posted record that arrive on an accepted connection become a row of the database and one response.
  \<^item> This theory: frames over a connection, a connection with its memory pool, client and server.

  Parameters. SHA-1, the file system, the handlers and middleware of the application, what sockets, \<^verbatim>\<open>select\<close>,
  \<^verbatim>\<open>epoll\<close>, SQLite, \<^verbatim>\<open>operator new\<close> and the clock answer, the conversion between doubles and text, \<^verbatim>\<open>inet_pton\<close> for IPv6, and the iteration order of hash tables are arguments of the definitions
  that use them. Loops are total functions; loops that wait for the outside run over the list of answers they get
  and say whether they have ended. No fuel is used.

  Concurrency. Each function that runs under a lock is one step; theorems about sequences of calls or about step relations
  hold for every interleaving of such steps.

  Not modelled: the vendored chart library (minified third-party code) and the files the build generates; console output; the implementation of what
  the parameters stand for. The file \<^verbatim>\<open>connection.cpp\<close> is matched by the build's glob but calls three functions that no class declares
  (\<^verbatim>\<open>SetDisconnecting\<close>, \<^verbatim>\<open>HasError\<close>, \<^verbatim>\<open>RecordOperation\<close>), so it is modelled with those as parameters. A C++ object's lifetime is modelled where destructors
  do work (sockets, connections, buffers) and left out elsewhere.
\<close>

section \<open>Frames over a connection\<close>

text \<open>
  Frames sent with \<^verbatim>\<open>Send(Encode(f))\<close>, as \<^verbatim>\<open>WebSocketSession\<close> and the speed-test thread do; each call comes with
  the answers of the memory pool and the socket and the time.
\<close>

type_synonym frame_send = "frame \<times> bool \<times> bytes \<times> io_send list \<times> nat"

definition frame_call :: "frame_send \<Rightarrow> tcp_call" where
  "frame_call x = (case x of (f, alloc, junk, io, now) \<Rightarrow> Call_Send alloc junk io now (Encode f))"

definition send_frames :: "frame_send list \<Rightarrow> tcp \<Rightarrow> tcp" where
  "send_frames xs t = tcp_calls (map frame_call xs) t"

fun accepted_frames :: "frame_send list \<Rightarrow> tcp \<Rightarrow> frame list" where
  "accepted_frames [] t = []"
| "accepted_frames ((f, alloc, junk, io, now) # xs) t =
     (if accepts alloc (Encode f) t then [f] else []) @
     accepted_frames xs (fst (Send alloc junk io now (Encode f) t))"

lemma accepted_frame_bytes:
  "accepted (map frame_call xs) t = concat (map Encode (accepted_frames xs t))"
  by (induction xs t rule: accepted_frames.induct) (simp_all add: frame_call_def)

lemma accepted_frames_sent: "set (accepted_frames xs t) \<subseteq> fst ` set xs"
  by (induction xs t rule: accepted_frames.induct) auto

text \<open>
  C2: frames arrive in order. Whatever the socket takes of each call, the receiver that decodes the bytes on the wire
  so far has a prefix of the frames whose sends were accepted, and all of them once the send queue is empty:
  no frame is torn, repeated or reordered.
\<close>

theorem frames_in_order:
  assumes "tcp_inv t" and "outgoing t = []" and "\<forall>x \<in> set xs. frame_ok (fst x)"
  shows "prefix (fst (decode_all Decode (wire (send_frames xs t)))) (accepted_frames xs t) \<and>
    (send_pending (tbuf (send_frames xs t)) = [] \<longrightarrow>
       decode_all Decode (wire (send_frames xs t)) = (accepted_frames xs t, []))"
proof -
  let ?t = "send_frames xs t"
  have ok: "\<forall>f \<in> set (accepted_frames xs t). frame_ok f" using accepted_frames_sent [of xs t] assms(3) by auto
  have "wire ?t @ send_pending (tbuf ?t) = concat (map Encode (accepted_frames xs t))"
    using tcp_calls_outgoing [OF assms(1), of "map frame_call xs"] assms(2)
    by (simp add: send_frames_def outgoing_def accepted_frame_bytes)
  moreover have "decode_all Decode [] = ([], [])" by (rule ws.decode_all_stop) simp
  ultimately have all: "decode_all Decode (wire ?t @ send_pending (tbuf ?t)) = (accepted_frames xs t, [])"
    using ws.decode_all_encoded [of frame_ok Encode, OF Decode_Encode ok, of "[]"] by simp
  show ?thesis
  proof (intro conjI impI)
    show "prefix (fst (decode_all Decode (wire ?t))) (accepted_frames xs t)"
      using all ws.decode_all_append [of "wire ?t" "send_pending (tbuf ?t)"] by (metis fst_conv prefixI)
    show "decode_all Decode (wire ?t) = (accepted_frames xs t, [])" if "send_pending (tbuf ?t) = []"
      using all that by simp
  qed
qed

theorem frames_in_order_witness:
  "fst (decode_all Decode (wire (send_frames [(sample_frame, True, [], [Accepted 9], 0)] (tcp_accepted 7 0)))) = [sample_frame]"
proof -
  let ?xs = "[(sample_frame, True, [], [Accepted 9], 0)]"
  let ?t = "send_frames ?xs (tcp_accepted 7 0)"
  have e: "length (Encode sample_frame) = 8" by (simp add: Encode_def sample_frame_def Let_def)
  then have ne: "Encode sample_frame \<noteq> []" by auto
  have "outgoing (tcp_accepted 7 0) = []" by (simp add: tcp_eval)
  moreover have "accepted_frames ?xs (tcp_accepted 7 0) = [sample_frame]" using e by (simp add: tcp_eval)
  moreover have "send_pending (tbuf ?t) = []" using e ne by (simp add: send_frames_def frame_call_def tcp_eval)
  moreover have "\<forall>x \<in> set ?xs. frame_ok (fst x)" using sample_frame_ok by simp
  ultimately show ?thesis using frames_in_order [OF tcp_accepted_inv [of 7 0], of ?xs] by simp
qed

section \<open>A connection and its memory pool\<close>

text \<open>
  Every connection has a buffer factory of its own and with it a memory pool of its own. \<open>pooled_send\<close> is
  \<^verbatim>\<open>Send\<close> with the pool in place of the argument \<open>alloc\<close>: \<^verbatim>\<open>EnqueueSend\<close> asks for memory only when the data are not
  empty and fit the queue. Buffers are destroyed at any time after they were sent (\<open>Buffer_Freed\<close>).
\<close>

definition pooled_send ::
  "u64 \<Rightarrow> bytes \<Rightarrow> io_send list \<Rightarrow> nat \<Rightarrow> bytes \<Rightarrow> tcp \<times> pool \<Rightarrow> (tcp \<times> pool) \<times> (errno + nat)" where
  "pooled_send raw junk io now data tp =
     (case tp of
        (t, p) \<Rightarrow>
          if conn_state t \<noteq> ST_CONNECTED \<or> data = [] \<or>
             max_send_queue_size (tbuf t) < GetSendQueueSize (tbuf t) + length data
          then (case Send False junk io now data t of (t', r) \<Rightarrow> ((t', p), r))
          else (case AllocateBytes raw (of_nat (length data)) p of
                  (p', mem_ptr) \<Rightarrow> (case Send (mem_ptr \<noteq> None) junk io now data t of (t', r) \<Rightarrow> ((t', p'), r))))"

datatype pooled_call =
  Pooled_Send u64 bytes "io_send list" nat bytes
| Pooled_Flush "io_send list" nat
| Buffer_Freed u64
| Pooled_Close

fun pooled_step :: "pooled_call \<Rightarrow> tcp \<times> pool \<Rightarrow> tcp \<times> pool" where
  "pooled_step (Pooled_Send raw junk io now data) tp = fst (pooled_send raw junk io now data tp)"
| "pooled_step (Pooled_Flush io now) (t, p) = (fst (Flush io now t), p)"
| "pooled_step (Buffer_Freed ptr) (t, p) = (t, DeallocateBytes ptr p)"
| "pooled_step Pooled_Close (t, p) = (tcp_Close t, p)"

definition pooled_inv :: "tcp \<times> pool \<Rightarrow> bool" where
  "pooled_inv tp \<longleftrightarrow> tcp_inv (fst tp) \<and> within_budget (snd tp) \<and>
     length (outgoing (fst tp)) \<le> unat (total_pool_bytes (snd tp))"

lemma pooled_send_inv:
  assumes "pooled_inv tp" and "length data < 2 ^ 62"
  shows "pooled_inv (fst (pooled_send raw junk io now data tp))"
proof -
  obtain t p where tp: "tp = (t, p)" by (cases tp)
  have inv: "tcp_inv t" "within_budget p" "length (outgoing t) \<le> unat (total_pool_bytes p)"
    using assms(1) tp by (simp_all add: pooled_inv_def)
  show ?thesis
  proof (cases "conn_state t \<noteq> ST_CONNECTED \<or> data = [] \<or>
      max_send_queue_size (tbuf t) < GetSendQueueSize (tbuf t) + length data")
    case True
    obtain t' r where s: "Send False junk io now data t = (t', r)" by (cases "Send False junk io now data t")
    have "tcp_inv t' \<and> outgoing t' = outgoing t"
      using Send_outgoing [OF inv(1) s] by (auto simp: accepts_def)
    then show ?thesis using True s inv tp by (simp add: pooled_send_def pooled_inv_def)
  next
    case False
    obtain p' r where a: "AllocateBytes raw (of_nat (length data)) p = (p', r)"
      by (cases "AllocateBytes raw (of_nat (length data)) p")
    obtain t' x where s: "Send (r \<noteq> None) junk io now data t = (t', x)"
      by (cases "Send (r \<noteq> None) junk io now data t")
    have "0 < length data" using False by simp
    note b = AllocateBytes_budget [OF inv(2) this assms(2) a]
    have "tcp_inv t' \<and> length (outgoing t') \<le> unat (total_pool_bytes p')"
      using Send_outgoing [OF inv(1) s] inv(3) b by (auto simp: accepts_def split: if_splits)
    then show ?thesis using False a s b tp by (simp add: pooled_send_def pooled_inv_def)
  qed
qed

fun small_call :: "pooled_call \<Rightarrow> bool" where
  "small_call (Pooled_Send raw junk io now data) \<longleftrightarrow> length data < 2 ^ 62"
| "small_call c \<longleftrightarrow> True"

lemma pooled_step_inv: "pooled_inv tp \<Longrightarrow> small_call c \<Longrightarrow> pooled_inv (pooled_step c tp)"
proof (cases "(c, tp)" rule: pooled_step.cases)
  case (1 raw junk io now data tp')
  then show "pooled_inv tp \<Longrightarrow> small_call c \<Longrightarrow> ?thesis" using pooled_send_inv by simp
next
  case (2 io now t p)
  then show "pooled_inv tp \<Longrightarrow> small_call c \<Longrightarrow> ?thesis"
    using Flush_outgoing [of t io now] by (cases "Flush io now t") (auto simp: pooled_inv_def)
next
  case (3 ptr t p)
  then show "pooled_inv tp \<Longrightarrow> small_call c \<Longrightarrow> ?thesis" by (simp add: pooled_inv_def DeallocateBytes_budget)
next
  case (4 t p)
  then show "pooled_inv tp \<Longrightarrow> small_call c \<Longrightarrow> ?thesis" using Close_outgoing [of t] by (simp add: pooled_inv_def)
qed

text \<open>
  C11: a connection carries at most 100 MB in its whole life. However its sends, flushes and closes interleave,
  whatever the socket takes and however many of the buffers are given back, the bytes on the wire and in the queue
  never exceed the budget of its memory pool, 104857600 bytes; what is sent beyond is dropped.
\<close>

theorem connection_lifetime_cap:
  assumes "\<forall>c \<in> set cs. small_call c" and "fold pooled_step cs (tcp_accepted fd now, pool_new) = (t, p)"
  shows "length (outgoing t) \<le> 104857600 \<and> length (wire t) \<le> unat (total_pool_bytes p)"
proof -
  have "pooled_inv (fold pooled_step cs tp)" if "pooled_inv tp" for tp
    using assms(1) that by (induction cs arbitrary: tp) (simp_all add: pooled_step_inv)
  moreover have "pooled_inv (tcp_accepted fd now, pool_new)"
    using tcp_accepted_inv pool_new_budget by (simp add: pooled_inv_def tcp_eval)
  ultimately have "pooled_inv (t, p)" using assms(2) by metis
  then show ?thesis by (simp add: pooled_inv_def within_budget_def outgoing_def)
qed

theorem connection_lifetime_cap_witness:
  "length (outgoing (fst (fold pooled_step [Pooled_Send 4096 [] [] 0 [1, 2, 3], Buffer_Freed 4128] (tcp_accepted 7 0, pool_new)))) \<le> 104857600"
  using connection_lifetime_cap [of "[Pooled_Send 4096 [] [] 0 [1, 2, 3], Buffer_Freed 4128]" 7 0]
  by (cases "fold pooled_step [Pooled_Send 4096 [] [] 0 [1, 2, 3], Buffer_Freed 4128] (tcp_accepted 7 0, pool_new)")
     simp

section \<open>Client and server\<close>

text \<open>ASCII text of the page script as the bytes the server sees.\<close>

definition ascii_bytes :: "jsstring \<Rightarrow> bytes" where
  "ascii_bytes s = map of_nat s"

text \<open>
  C34: the page and the server do not speak the same protocol. Every socket the script ever opens asks for
  the path \<^verbatim>\<open>/speedtest\<close>, for which the server performs no upgrade, and every text the script ever sends is one
  that the endpoint does not answer; the endpoint's answers to well-formed pings are not the text \<^verbatim>\<open>pong\<close> that
  the script waits for.
\<close>

theorem client_server_mismatch:
  assumes "client_reachable host d c" and "s \<in> set (sockets c)"
  shows "url s = asc ''ws://'' @ host @ asc ''/speedtest'' \<and>
    (\<forall>r. req_path r = ascii_bytes (asc ''/speedtest'') \<longrightarrow> \<not> is_speedtest_upgrade r) \<and>
    (\<forall>m \<in> set (sent s). speedtest_on_message (ascii_bytes m) = []) \<and>
    (\<forall>n. pong_text n \<noteq> ascii_bytes (asc ''pong''))"
proof -
  have "speedtest_on_message (ascii_bytes (asc ''start'')) = []" "speedtest_on_message (ascii_bytes (asc ''ping'')) = []"
    by code_simp+
  moreover have "pong_text n \<noteq> ascii_bytes (asc ''pong'')" for n
    by (simp add: pong_text_def ascii_bytes_def asc_def str_simps)
  moreover have "ascii_bytes (asc ''/speedtest'') \<noteq> str ''/ws/speedtest''" by code_simp
  ultimately show ?thesis
    using client_reachable_sockets [OF assms(1)] assms(2) by (auto simp: sockets_ok_def is_speedtest_upgrade_def)
qed

theorem client_server_mismatch_witness:
  "\<exists>(c :: client) (s :: socket). s \<in> set (sockets c) \<and> url s = asc ''ws://'' @ asc ''h'' @ asc ''/speedtest'' \<and>
     (\<forall>r. req_path r = ascii_bytes (asc ''/speedtest'') \<longrightarrow> \<not> is_speedtest_upgrade r)"
proof -
  let ?loaded = "window_onload (client_init sample_page)"
  let ?c = "startTest (asc ''h'') ?loaded"
  have "client_step (asc ''h'') (client_init sample_page) ?loaded" by (rule page_load) (simp add: client_init_def)
  moreover have "client_step (asc ''h'') ?loaded ?c"
    by (rule click_start) (simp_all add: window_onload_def client_init_def sample_page_def)
  ultimately have reach: "client_reachable (asc ''h'') sample_page ?c"
    by (meson client_reachable.start client_reachable.step)
  have opened: "last (sockets ?c) \<in> set (sockets ?c)" by (rule last_in_set) (simp add: startTest_def Let_def)
  from client_server_mismatch [OF reach opened] opened
  have "last (sockets ?c) \<in> set (sockets ?c) \<and>
      url (last (sockets ?c)) = asc ''ws://'' @ asc ''h'' @ asc ''/speedtest'' \<and>
      (\<forall>r. req_path r = ascii_bytes (asc ''/speedtest'') \<longrightarrow> \<not> is_speedtest_upgrade r)"
    by (elim conjE) (intro conjI)
  then show ?thesis by (intro exI)
qed

end
